(* ===== verification/Prelude.thy ===== *)
theory Prelude
  imports Main "HOL-Library.Code_Target_Nat"
begin

text \<open>
  Shared vocabulary of the development: the Python exceptions the scripts can raise,
  a state-and-exception monad for the statements of a script, Python's list indexing
  and list comprehensions over fallible element expressions, and the characters the
  text and CSV layers test for. Facts that the component theories rewrite with are
  collected in the named theorem list \<open>py_simps\<close>.
\<close>

named_theorems py_simps "rewrite rules for the Python runtime model"

subsection \<open>Characters\<close>

abbreviation LF :: char where "LF \<equiv> CHR 0x0A"
abbreviation CR :: char where "CR \<equiv> CHR 0x0D"

subsection \<open>Exceptions\<close>

text \<open>
  The errors of the \<open>csv\<close> module (\<open>_csv.Error\<close>), with the two messages the
  reader of CPython 3.11 can produce under the dialect the scripts use.
\<close>

datatype csv_error =
    FieldLimit nat          \<comment> \<open>\<open>field larger than field limit (N)\<close>\<close>
  | NewlineInUnquoted       \<comment> \<open>\<open>new-line character seen in unquoted field\<close>\<close>

text \<open>
  The exceptions of the scripts, each carrying what Python puts into its message:
  the missing path, the exception text and the offending literal, the unbound name,
  the module not found, the name that a module does not define with that module, and
  for a flag defined twice (\<open>absl.flags.DuplicateFlagError\<close>) the flag with the
  module that defined it first and the one that defined it again.
\<close>

datatype py_exc =
    FileNotFoundError string
  | IndexError
  | ValueError string string
  | CsvError csv_error
  | NameError string
  | ModuleNotFoundError string
  | ImportError string string
  | DuplicateFlagError string string string

subsection \<open>Statements with state and exceptions\<close>

text \<open>
  A Python statement sequence run against a world \<open>'s\<close>: it returns a value or raises,
  and in both cases leaves the world as far as it got. Side effects done before an
  exception (a \<open>print\<close>, a plotted line) stay in the world.
\<close>

type_synonym ('a, 's) pyst = "'s \<Rightarrow> (py_exc + 'a) \<times> 's"

definition returnE :: "'a \<Rightarrow> ('a, 's) pyst" where
  "returnE x = (\<lambda>s. (Inr x, s))"

definition raiseE :: "py_exc \<Rightarrow> ('a, 's) pyst" where
  "raiseE e = (\<lambda>s. (Inl e, s))"

text \<open>A pure expression that may raise, run as a statement.\<close>

definition liftE :: "py_exc + 'a \<Rightarrow> ('a, 's) pyst" where
  "liftE r = (\<lambda>s. (r, s))"

definition bindE :: "('a, 's) pyst \<Rightarrow> ('a \<Rightarrow> ('b, 's) pyst) \<Rightarrow> ('b, 's) pyst" where
  "bindE m f = (\<lambda>s. case m s of (Inl e, s') \<Rightarrow> (Inl e, s') | (Inr x, s') \<Rightarrow> f x s')"

definition modifyE :: "('s \<Rightarrow> 's) \<Rightarrow> (unit, 's) pyst" where
  "modifyE g = (\<lambda>s. (Inr (), g s))"

subsection \<open>Python lists\<close>

text \<open>
  \<open>xs[i]\<close> as \<open>list_subscript\<close> computes it: a negative index has the length
  added to it, and an index still outside \<open>0 .. len - 1\<close> raises \<open>IndexError\<close>.
\<close>

definition py_index :: "'a list \<Rightarrow> int \<Rightarrow> py_exc + 'a" where
  "py_index xs i =
     (let k = (if i < 0 then i + int (length xs) else i)
      in if k < 0 \<or> int (length xs) \<le> k then Inl IndexError else Inr (xs ! nat k))"

text \<open>Evaluating an expression that uses the value of one that may raise.\<close>

definition py_bind :: "py_exc + 'a \<Rightarrow> ('a \<Rightarrow> py_exc + 'b) \<Rightarrow> py_exc + 'b" where
  "py_bind r f = (case r of Inl e \<Rightarrow> Inl e | Inr x \<Rightarrow> f x)"

text \<open>
  A list comprehension \<open>[f(x) for x in xs]\<close> whose element expression may raise:
  the elements are computed from left to right and the first exception ends it.
\<close>

fun py_map :: "('a \<Rightarrow> py_exc + 'b) \<Rightarrow> 'a list \<Rightarrow> py_exc + 'b list" where
  "py_map f [] = Inr []"
| "py_map f (x # xs) =
     (case f x of Inl e \<Rightarrow> Inl e | Inr y \<Rightarrow> map_sum id (Cons y) (py_map f xs))"

subsection \<open>Laws of the statement monad\<close>

lemma map_sum_id_Inl [simp, py_simps]: "map_sum id g r = Inl e \<longleftrightarrow> r = Inl e"
  by (cases r) auto

lemma map_sum_id_Inr [simp, py_simps]:
  "map_sum id g r = Inr y \<longleftrightarrow> (\<exists>z. r = Inr z \<and> y = g z)"
  by (cases r) auto

lemma py_bind_simps [simp, py_simps]:
  "py_bind (Inl e) f = Inl e" "py_bind (Inr x) f = f x"
  by (simp_all add: py_bind_def)

lemma bindE_returnE [simp, py_simps]: "bindE (returnE x) f = f x"
  by (simp add: bindE_def returnE_def)

lemma bindE_raiseE [simp, py_simps]: "bindE (raiseE e) f = raiseE e"
  by (simp add: bindE_def raiseE_def)

lemma bindE_assoc [py_simps]: "bindE (bindE m f) g = bindE m (\<lambda>x. bindE (f x) g)"
  by (rule ext) (simp add: bindE_def split: prod.splits sum.splits)

lemma bindE_apply [py_simps]:
  "bindE m f s = (case m s of (Inl e, s') \<Rightarrow> (Inl e, s') | (Inr x, s') \<Rightarrow> f x s')"
  by (simp add: bindE_def)

lemma liftE_apply [simp, py_simps]: "liftE r s = (r, s)"
  by (simp add: liftE_def)

lemma returnE_apply [simp, py_simps]: "returnE x s = (Inr x, s)"
  by (simp add: returnE_def)

lemma raiseE_apply [simp, py_simps]: "raiseE e s = (Inl e, s)"
  by (simp add: raiseE_def)

lemma modifyE_apply [simp, py_simps]: "modifyE g s = (Inr (), g s)"
  by (simp add: modifyE_def)

subsection \<open>Indexing and comprehensions\<close>

lemma py_index_nat [py_simps]:
  "py_index xs (int k) = (if k < length xs then Inr (xs ! k) else Inl IndexError)"
  by (simp add: py_index_def)

lemma py_index_last [py_simps]:
  "py_index xs (-1) = (if xs = [] then Inl IndexError else Inr (last xs))"
  by (cases xs rule: rev_cases) (simp_all add: py_index_def nth_append)

lemma py_index_numeral [simp, py_simps]:
  "py_index xs (numeral k) =
     (if numeral k < length xs then Inr (xs ! numeral k) else Inl IndexError)"
  using py_index_nat [of xs "numeral k"] by simp

lemma py_index_one [simp, py_simps]:
  "py_index xs 1 = (if 1 < length xs then Inr (xs ! 1) else Inl IndexError)"
  using py_index_nat [of xs 1] by simp

lemma py_map_Inr_iff [py_simps]:
  "py_map f xs = Inr ys \<longleftrightarrow> list_all2 (\<lambda>x y. f x = Inr y) xs ys"
proof (induction xs arbitrary: ys)
  case Nil
  then show ?case by auto
next
  case (Cons x xs)
  show ?case
  proof (cases "f x")
    case (Inl e)
    then show ?thesis by (auto simp: list_all2_Cons1)
  next
    case (Inr y)
    then show ?thesis
      using Cons.IH by (cases "py_map f xs") (auto simp: list_all2_Cons1)
  qed
qed

lemma py_map_length [py_simps]: "py_map f xs = Inr ys \<Longrightarrow> length ys = length xs"
  by (simp add: py_map_Inr_iff list_all2_lengthD)

lemma py_map_map [py_simps]: "py_map (\<lambda>x. Inr (g x)) xs = Inr (map g xs)"
  by (induction xs) simp_all

text \<open>
  The comprehension raises exactly when some element raises, and what it raises is
  raised by one of the elements.
\<close>

lemma py_map_Inl_elem [py_simps]: "py_map f xs = Inl e \<Longrightarrow> \<exists>x \<in> set xs. f x = Inl e"
  by (induction xs) (auto split: sum.splits)

lemma py_map_raises [py_simps]: "x \<in> set xs \<Longrightarrow> f x = Inl e \<Longrightarrow> \<exists>e'. py_map f xs = Inl e'"
  by (induction xs) (auto split: sum.splits)

end
