(* ===== verification/PyText.thy ===== *)
theory PyText
  imports Prelude
begin

text \<open>
  The text layer under \<open>open(path)\<close> as \<open>src/scripts/process_logs.py\<close> calls it: a
  file opened for reading in text mode with the default \<open>newline=None\<close>. Reading
  translates every \<open>\r\n\<close> and every lone \<open>\r\<close> to \<open>\n\<close> (universal newlines),
  and iterating over the file object yields the lines, each ending with its \<open>\n\<close>
  except perhaps the last. The file system is a map from paths to the decoded text of
  the files; a path that is not in it raises \<open>FileNotFoundError\<close>.
\<close>

type_synonym filesystem = "string \<rightharpoonup> string"

subsection \<open>Universal newlines\<close>

fun univ_newlines :: "string \<Rightarrow> string" where
  "univ_newlines [] = []"
| "univ_newlines [c] = (if c = CR then [LF] else [c])"
| "univ_newlines (c # d # s) =
     (if c = CR \<and> d = LF then LF # univ_newlines s
      else if c = CR then LF # univ_newlines (d # s)
      else c # univ_newlines (d # s))"

subsection \<open>Line iteration\<close>

text \<open>
  \<open>for line in fp\<close>: the text is cut after every \<open>\n\<close>; a last piece without one
  is a line too, an empty rest is not.
\<close>

fun text_lines_acc :: "string \<Rightarrow> string \<Rightarrow> string list" where
  "text_lines_acc acc [] = (if acc = [] then [] else [acc])"
| "text_lines_acc acc (c # s) =
     (if c = LF then (acc @ [c]) # text_lines_acc [] s else text_lines_acc (acc @ [c]) s)"

definition text_lines :: "string \<Rightarrow> string list" where
  "text_lines s = text_lines_acc [] s"

subsection \<open>Opening a file\<close>

definition open_lines :: "filesystem \<Rightarrow> string \<Rightarrow> py_exc + string list" where
  "open_lines fs path =
     (case fs path of None \<Rightarrow> Inl (FileNotFoundError path)
      | Some txt \<Rightarrow> Inr (text_lines (univ_newlines txt)))"

subsection \<open>Properties of the text layer\<close>

lemma univ_newlines_no_CR [py_simps]: "CR \<notin> set (univ_newlines s)"
  by (induction s rule: univ_newlines.induct) auto

lemma univ_newlines_id [py_simps]: "CR \<notin> set s \<Longrightarrow> univ_newlines s = s"
  by (induction s rule: univ_newlines.induct) auto

lemma univ_newlines_append [py_simps]:
  "a = [] \<or> last a \<noteq> CR \<Longrightarrow> univ_newlines (a @ b) = univ_newlines a @ univ_newlines b"
proof (induction a rule: univ_newlines.induct)
  case (2 c)
  then show ?case by (cases b) auto
next
  case (3 c d s)
  then show ?case by (cases s) auto
qed simp

lemma univ_newlines_CRLF [py_simps]:
  "CR \<notin> set s \<Longrightarrow> univ_newlines (s @ [CR, LF]) = s @ [LF]"
proof (induction s rule: univ_newlines.induct)
  case (2 c)
  then show ?case by simp
next
  case (3 c d s)
  then show ?case by auto
qed simp

text \<open>The lines put together again are the text: line iteration loses nothing.\<close>

lemma concat_text_lines_acc: "concat (text_lines_acc acc s) = acc @ s"
  by (induction acc s rule: text_lines_acc.induct) auto

lemma concat_text_lines [py_simps]: "concat (text_lines s) = s"
  by (simp add: text_lines_def concat_text_lines_acc)

text \<open>Every line is non-empty and holds a \<open>\n\<close> only as its last character.\<close>

lemma text_lines_acc_shape:
  "LF \<notin> set acc \<Longrightarrow> l \<in> set (text_lines_acc acc s) \<Longrightarrow> l \<noteq> [] \<and> LF \<notin> set (butlast l)"
  by (induction acc s rule: text_lines_acc.induct) (auto split: if_splits dest: in_set_butlastD)

lemma text_lines_shape [py_simps]:
  "l \<in> set (text_lines s) \<Longrightarrow> l \<noteq> [] \<and> LF \<notin> set (butlast l)"
  unfolding text_lines_def by (rule text_lines_acc_shape) simp_all

text \<open>A text that ends with a newline is cut after each of its newlines.\<close>

lemma text_lines_acc_append:
  "text_lines_acc acc (a @ LF # b) = text_lines_acc acc (a @ [LF]) @ text_lines_acc [] b"
  by (induction a arbitrary: acc) auto

lemma text_lines_append [py_simps]:
  "text_lines (a @ LF # b) = text_lines (a @ [LF]) @ text_lines b"
  unfolding text_lines_def by (rule text_lines_acc_append)

end
