(* ===== verification/Csv.thy ===== *)
theory Csv
  imports PyText
begin

text \<open>
  \<open>csv.reader(fp, delimiter=",", quotechar='"')\<close> as called in
  \<open>src/scripts/process_logs.py\<close>, lines 10, 16 and 22, with the semantics of CPython
  3.11's \<open>_csv.c\<close>: the reader is a character-level state machine
  (\<open>parse_process_char\<close>) fed with every character of a line and then with the end
  of line marker \<open>EOL\<close>; \<open>Reader_iternext\<close> feeds lines until the machine is back
  in \<open>START_RECORD\<close> and then yields the fields collected. The remaining dialect
  settings are the defaults of the call: \<open>doublequote=True\<close>, \<open>escapechar=None\<close>,
  \<open>skipinitialspace=False\<close>, \<open>strict=False\<close>, \<open>QUOTE_MINIMAL\<close>; with
  \<open>escapechar=None\<close> the escape states of the machine are unreachable and left out.
\<close>

record csv_dialect =
  delimiter :: char
  quotechar :: char

definition script_dialect :: csv_dialect where
  "script_dialect = \<lparr>delimiter = CHR '','', quotechar = CHR 0x22\<rparr>"

text \<open>\<open>_csv.field_size_limit()\<close>, whose default is \<open>128 * 1024\<close>.\<close>

definition field_limit :: nat where
  "field_limit = 131072"

datatype parser_state =
    START_RECORD | START_FIELD | IN_FIELD | IN_QUOTED_FIELD
  | QUOTE_IN_QUOTED_FIELD | EAT_CRNL

text \<open>The part of \<open>ReaderObj\<close> the parser changes: its state, the fields of the
  record so far, and the field being read.\<close>

record reader =
  rstate :: parser_state
  rfields :: "string list"
  rfield :: string

datatype cin = Ch char | EOL

definition reader_init :: reader where
  "reader_init = \<lparr>rstate = START_RECORD, rfields = [], rfield = []\<rparr>"

definition parse_save_field :: "reader \<Rightarrow> reader" where
  "parse_save_field r = r\<lparr>rfields := rfields r @ [rfield r], rfield := []\<rparr>"

definition parse_add_char :: "reader \<Rightarrow> char \<Rightarrow> py_exc + reader" where
  "parse_add_char r c =
     (if field_limit \<le> length (rfield r) then Inl (CsvError (FieldLimit field_limit))
      else Inr (r\<lparr>rfield := rfield r @ [c]\<rparr>))"

definition is_eol :: "cin \<Rightarrow> bool" where
  "is_eol c \<longleftrightarrow> c = Ch LF \<or> c = Ch CR \<or> c = EOL"

definition eol_state :: "cin \<Rightarrow> parser_state" where
  "eol_state c = (if c = EOL then START_RECORD else EAT_CRNL)"

text \<open>Adding the input to the field and moving to state \<open>st\<close>; only called on
  characters (the branches that reach it have excluded \<open>EOL\<close>).\<close>

definition add_input :: "reader \<Rightarrow> cin \<Rightarrow> parser_state \<Rightarrow> py_exc + reader" where
  "add_input r c st =
     (case c of Ch ch \<Rightarrow> map_sum id (\<lambda>r'. r'\<lparr>rstate := st\<rparr>) (parse_add_char r ch)
      | EOL \<Rightarrow> Inr r)"

text \<open>The \<open>START_FIELD\<close> case, also reached by falling through from \<open>START_RECORD\<close>.\<close>

definition start_field :: "csv_dialect \<Rightarrow> reader \<Rightarrow> cin \<Rightarrow> py_exc + reader" where
  "start_field d r c =
     (if is_eol c then Inr ((parse_save_field r)\<lparr>rstate := eol_state c\<rparr>)
      else if c = Ch (quotechar d) then Inr (r\<lparr>rstate := IN_QUOTED_FIELD\<rparr>)
      else if c = Ch (delimiter d) then Inr (parse_save_field r)
      else add_input r c IN_FIELD)"

definition parse_process_char :: "csv_dialect \<Rightarrow> reader \<Rightarrow> cin \<Rightarrow> py_exc + reader" where
  "parse_process_char d r c =
     (case rstate r of
        START_RECORD \<Rightarrow>
          (if c = EOL then Inr r
           else if c = Ch LF \<or> c = Ch CR then Inr (r\<lparr>rstate := EAT_CRNL\<rparr>)
           else start_field d (r\<lparr>rstate := START_FIELD\<rparr>) c)
      | START_FIELD \<Rightarrow> start_field d r c
      | IN_FIELD \<Rightarrow>
          (if is_eol c then Inr ((parse_save_field r)\<lparr>rstate := eol_state c\<rparr>)
           else if c = Ch (delimiter d) then Inr ((parse_save_field r)\<lparr>rstate := START_FIELD\<rparr>)
           else add_input r c IN_FIELD)
      | IN_QUOTED_FIELD \<Rightarrow>
          (if c = EOL then Inr r
           else if c = Ch (quotechar d) then Inr (r\<lparr>rstate := QUOTE_IN_QUOTED_FIELD\<rparr>)
           else add_input r c IN_QUOTED_FIELD)
      | QUOTE_IN_QUOTED_FIELD \<Rightarrow>
          (if c = Ch (quotechar d) then add_input r c IN_QUOTED_FIELD
           else if c = Ch (delimiter d) then Inr ((parse_save_field r)\<lparr>rstate := START_FIELD\<rparr>)
           else if is_eol c then Inr ((parse_save_field r)\<lparr>rstate := eol_state c\<rparr>)
           else add_input r c IN_FIELD)
      | EAT_CRNL \<Rightarrow>
          (if c = Ch LF \<or> c = Ch CR then Inr r
           else if c = EOL then Inr (r\<lparr>rstate := START_RECORD\<rparr>)
           else Inl (CsvError NewlineInUnquoted)))"

text \<open>The \<open>while (linelen--)\<close> loop of \<open>Reader_iternext\<close>, followed by the \<open>EOL\<close>.\<close>

fun process_inputs :: "csv_dialect \<Rightarrow> reader \<Rightarrow> cin list \<Rightarrow> py_exc + reader" where
  "process_inputs d r [] = Inr r"
| "process_inputs d r (c # cs) =
     (case parse_process_char d r c of Inl e \<Rightarrow> Inl e | Inr r' \<Rightarrow> process_inputs d r' cs)"

definition line_inputs :: "string \<Rightarrow> cin list" where
  "line_inputs l = map Ch l @ [EOL]"

text \<open>
  \<open>[row for row in reader]\<close>: \<open>Reader_iternext\<close> called until it stops. At the end
  of the input a pending field (non-empty, or an open quoted field) is saved and
  its record yielded; after a line that leaves the machine in \<open>START_RECORD\<close> the
  record is yielded and the fields are reset (\<open>parse_reset\<close>).
\<close>

fun reader_rows :: "csv_dialect \<Rightarrow> reader \<Rightarrow> string list \<Rightarrow> py_exc + string list list" where
  "reader_rows d r [] =
     (if rfield r \<noteq> [] \<or> rstate r = IN_QUOTED_FIELD then Inr [rfields r @ [rfield r]]
      else Inr [])"
| "reader_rows d r (l # ls) =
     (case process_inputs d r (line_inputs l) of
        Inl e \<Rightarrow> Inl e
      | Inr r' \<Rightarrow>
          if rstate r' = START_RECORD
          then map_sum id (Cons (rfields r')) (reader_rows d (r'\<lparr>rfields := []\<rparr>) ls)
          else reader_rows d r' ls)"

definition csv_read_lines :: "csv_dialect \<Rightarrow> string list \<Rightarrow> py_exc + string list list" where
  "csv_read_lines d ls = reader_rows d reader_init ls"

text \<open>
  The lines 9--12 of the script (and 15--18, 21--24) as one operation: open the file, run the reader
  over its lines and collect the rows.
\<close>

definition read_csv_file :: "filesystem \<Rightarrow> string \<Rightarrow> py_exc + string list list" where
  "read_csv_file fs path =
     (case open_lines fs path of Inl e \<Rightarrow> Inl e | Inr ls \<Rightarrow> csv_read_lines script_dialect ls)"

text \<open>The number of characters (not line ends) in an input sequence.\<close>

definition nchars :: "cin list \<Rightarrow> nat" where
  "nchars cs = length (filter (\<lambda>c. c \<noteq> EOL) cs)"

text \<open>A run that either stops at the field limit or ends in a state with \<open>P\<close>.\<close>

definition limit_or :: "(reader \<Rightarrow> bool) \<Rightarrow> py_exc + reader \<Rightarrow> bool" where
  "limit_or P x = (case x of Inl e \<Rightarrow> e = CsvError (FieldLimit field_limit) | Inr r \<Rightarrow> P r)"

text \<open>The characters held in the fields of a reader.\<close>

definition fchars :: "reader \<Rightarrow> char set" where
  "fchars r = set (concat (rfields r)) \<union> set (rfield r)"

subsection \<open>Steps of the machine\<close>

text \<open>
  What one call of \<open>parse_process_char\<close> can do: the field grows by at most the one
  character read, the only errors are the field limit and a character after a bare
  newline (\<open>EAT_CRNL\<close>), which is entered only on \<open>\n\<close> or \<open>\r\<close>, and the end of a line
  never fails and leaves the machine between records or inside a quoted field.
\<close>

lemmas csv_step_defs = parse_process_char_def start_field_def add_input_def
  parse_add_char_def parse_save_field_def is_eol_def eol_state_def

lemma nchars_simps [simp]:
  "nchars [] = 0" "nchars (EOL # cs) = nchars cs" "nchars (Ch c # cs) = Suc (nchars cs)"
  "nchars (cs @ cs') = nchars cs + nchars cs'"
  by (simp_all add: nchars_def)

lemma ppc_field_growth:
  "parse_process_char d r c = Inr r' \<Longrightarrow>
     length (rfield r') \<le> length (rfield r) + (if c = EOL then 0 else 1)"
  by (auto simp: csv_step_defs split: parser_state.splits cin.splits if_splits)

lemma ppc_limit:
  "parse_process_char d r c = Inl (CsvError (FieldLimit n)) \<Longrightarrow>
     field_limit \<le> length (rfield r) \<and> c \<noteq> EOL \<and> n = field_limit"
  by (auto simp: csv_step_defs split: parser_state.splits cin.splits if_splits)

lemma ppc_error_kinds:
  "parse_process_char d r c = Inl e \<Longrightarrow>
     e = CsvError (FieldLimit field_limit) \<or>
     (e = CsvError NewlineInUnquoted \<and> rstate r = EAT_CRNL \<and> c \<noteq> EOL \<and> c \<noteq> Ch LF \<and> c \<noteq> Ch CR)"
  by (auto simp: csv_step_defs split: parser_state.splits cin.splits if_splits)

lemma ppc_enters_eat:
  "parse_process_char d r c = Inr r' \<Longrightarrow> rstate r' = EAT_CRNL \<Longrightarrow> c = Ch LF \<or> c = Ch CR"
  by (auto simp: csv_step_defs split: parser_state.splits cin.splits if_splits)

lemma ppc_EOL:
  "\<exists>r'. parse_process_char d r EOL = Inr r' \<and> rstate r' \<in> {START_RECORD, IN_QUOTED_FIELD}"
  by (auto simp: csv_step_defs split: parser_state.splits)

lemma process_inputs_append:
  "process_inputs d r (cs @ cs') =
     (case process_inputs d r cs of Inl e \<Rightarrow> Inl e | Inr r' \<Rightarrow> process_inputs d r' cs')"
  by (induction cs arbitrary: r) (auto split: sum.splits)

lemma process_inputs_limit:
  "process_inputs d r cs = Inl (CsvError (FieldLimit n)) \<Longrightarrow>
     field_limit < length (rfield r) + nchars cs"
proof (induction cs arbitrary: r)
  case Nil
  then show ?case by simp
next
  case (Cons c cs)
  show ?case
  proof (cases "parse_process_char d r c")
    case (Inl e)
    with Cons.prems have "parse_process_char d r c = Inl (CsvError (FieldLimit n))" by simp
    then have "field_limit \<le> length (rfield r)" and "c \<noteq> EOL" by (auto dest: ppc_limit)
    then show ?thesis by (cases c) auto
  next
    case (Inr r')
    with Cons.prems have "field_limit < length (rfield r') + nchars cs" by (intro Cons.IH) simp
    moreover have "length (rfield r') \<le> length (rfield r) + (if c = EOL then 0 else 1)"
      using Inr by (rule ppc_field_growth)
    ultimately show ?thesis by (cases c) auto
  qed
qed

lemma process_inputs_growth:
  "process_inputs d r cs = Inr r' \<Longrightarrow> length (rfield r') \<le> length (rfield r) + nchars cs"
proof (induction cs arbitrary: r)
  case (Cons c cs)
  then obtain r1 where r1: "parse_process_char d r c = Inr r1"
    and rest: "process_inputs d r1 cs = Inr r'" by (auto split: sum.splits)
  from rest have "length (rfield r') \<le> length (rfield r1) + nchars cs" by (rule Cons.IH)
  with ppc_field_growth [OF r1] show ?case by (cases c) auto
qed simp

lemma limit_or_append:
  assumes "limit_or P (process_inputs d r cs)"
    and "\<And>r'. P r' \<Longrightarrow> limit_or Q (process_inputs d r' cs')"
  shows "limit_or Q (process_inputs d r (cs @ cs'))"
proof (cases "process_inputs d r cs")
  case (Inl e)
  then show ?thesis using assms(1) by (simp add: limit_or_def process_inputs_append)
next
  case (Inr r1)
  then have "P r1" using assms(1) by (simp add: limit_or_def)
  then have "limit_or Q (process_inputs d r1 cs')" by (rule assms(2))
  with Inr show ?thesis by (simp add: process_inputs_append)
qed

lemma limit_or_EOL: "limit_or (\<lambda>r'. rstate r' \<in> {START_RECORD, IN_QUOTED_FIELD}) (process_inputs d r [EOL])"
  using ppc_EOL [of d r] by (auto simp: limit_or_def)

lemma limit_or_LF_EOL:
  assumes "rstate r \<noteq> EAT_CRNL"
  shows "limit_or (\<lambda>r'. rstate r' \<in> {START_RECORD, IN_QUOTED_FIELD}) (process_inputs d r [Ch LF, EOL])"
proof (cases "parse_process_char d r (Ch LF)")
  case (Inl e)
  then show ?thesis using assms by (auto simp: limit_or_def dest: ppc_error_kinds)
next
  case (Inr r2)
  then show ?thesis using limit_or_EOL [of d r2] by simp
qed

lemma process_body:
  assumes "LF \<notin> set cs" "CR \<notin> set cs" "rstate r \<noteq> EAT_CRNL"
  shows "limit_or (\<lambda>r'. rstate r' \<noteq> EAT_CRNL) (process_inputs d r (map Ch cs))"
  using assms
proof (induction cs arbitrary: r)
  case (Cons c cs)
  show ?case
  proof (cases "parse_process_char d r (Ch c)")
    case (Inl e)
    then show ?thesis using Cons.prems by (auto simp: limit_or_def dest: ppc_error_kinds)
  next
    case (Inr r1)
    then have "rstate r1 \<noteq> EAT_CRNL" using Cons.prems by (auto dest: ppc_enters_eat)
    then show ?thesis using Inr Cons.prems Cons.IH [of r1] by simp
  qed
qed (simp add: limit_or_def)

lemma line_inputs_split:
  "LF \<notin> set (butlast l) \<Longrightarrow>
     line_inputs l = map Ch l @ [EOL] \<and> LF \<notin> set l \<or>
     line_inputs l = map Ch (butlast l) @ [Ch LF, EOL] \<and> LF \<notin> set (butlast l)"
  by (cases l rule: rev_cases) (auto simp: line_inputs_def)

lemma process_line:
  assumes "LF \<notin> set (butlast l)" "CR \<notin> set l" "rstate r \<in> {START_RECORD, IN_QUOTED_FIELD}"
  shows "limit_or (\<lambda>r'. rstate r' \<in> {START_RECORD, IN_QUOTED_FIELD})
           (process_inputs d r (line_inputs l))"
proof -
  from assms(3) have nE: "rstate r \<noteq> EAT_CRNL" by auto
  from line_inputs_split [OF assms(1)] show ?thesis
  proof
    assume a: "line_inputs l = map Ch l @ [EOL] \<and> LF \<notin> set l"
    with assms(2) nE have "limit_or (\<lambda>r'. rstate r' \<noteq> EAT_CRNL) (process_inputs d r (map Ch l))"
      by (intro process_body) auto
    then have "limit_or (\<lambda>r'. rstate r' \<in> {START_RECORD, IN_QUOTED_FIELD})
                 (process_inputs d r (map Ch l @ [EOL]))"
      by (rule limit_or_append) (rule limit_or_EOL)
    with a show ?thesis by simp
  next
    assume a: "line_inputs l = map Ch (butlast l) @ [Ch LF, EOL] \<and> LF \<notin> set (butlast l)"
    with assms(2) nE have "limit_or (\<lambda>r'. rstate r' \<noteq> EAT_CRNL) (process_inputs d r (map Ch (butlast l)))"
      by (intro process_body) (auto dest: in_set_butlastD)
    then have "limit_or (\<lambda>r'. rstate r' \<in> {START_RECORD, IN_QUOTED_FIELD})
                 (process_inputs d r (map Ch (butlast l) @ [Ch LF, EOL]))"
      by (rule limit_or_append) (rule limit_or_LF_EOL)
    with a show ?thesis by simp
  qed
qed

lemma nchars_line_inputs [simp]: "nchars (line_inputs l) = length l"
  by (simp add: line_inputs_def nchars_def filter_map comp_def)

lemma reader_rows_errors:
  assumes "\<forall>l \<in> set ls. LF \<notin> set (butlast l) \<and> CR \<notin> set l"
    and "rstate r \<in> {START_RECORD, IN_QUOTED_FIELD}"
    and "reader_rows d r ls = Inl e"
  shows "e = CsvError (FieldLimit field_limit)"
  using assms
proof (induction ls arbitrary: r)
  case (Cons l ls)
  have "limit_or (\<lambda>r'. rstate r' \<in> {START_RECORD, IN_QUOTED_FIELD}) (process_inputs d r (line_inputs l))"
    using Cons.prems(1,2) by (intro process_line) auto
  then show ?case
  proof (cases "process_inputs d r (line_inputs l)")
    case (Inr r')
    then have "rstate r' \<in> {START_RECORD, IN_QUOTED_FIELD}"
      using \<open>limit_or _ _\<close> by (simp add: limit_or_def)
    then show ?thesis
      using Inr Cons.prems(1,3) Cons.IH [of "r'\<lparr>rfields := []\<rparr>"] Cons.IH [of r']
      by (auto split: if_splits)
  qed (use Cons.prems(3) in \<open>simp add: limit_or_def\<close>)
qed (simp split: if_splits)

lemma reader_rows_limit:
  "reader_rows d r ls = Inl (CsvError (FieldLimit n)) \<Longrightarrow>
     field_limit < length (rfield r) + length (concat ls)"
proof (induction ls arbitrary: r)
  case (Cons l ls)
  show ?case
  proof (cases "process_inputs d r (line_inputs l)")
    case (Inl e)
    with Cons.prems have "process_inputs d r (line_inputs l) = Inl (CsvError (FieldLimit n))" by simp
    then show ?thesis by (auto dest: process_inputs_limit)
  next
    case (Inr r')
    from Inr have "length (rfield r') \<le> length (rfield r) + length l"
      using process_inputs_growth [of d r "line_inputs l" r'] by simp
    moreover from Cons.prems Inr have "field_limit < length (rfield r') + length (concat ls)"
      by (auto split: if_splits dest: Cons.IH)
    ultimately show ?thesis by simp
  qed
qed (simp split: if_splits)

lemma text_lines_CR_free:
  "CR \<notin> set s \<Longrightarrow> \<forall>l \<in> set (text_lines s). LF \<notin> set (butlast l) \<and> CR \<notin> set l"
proof
  fix l assume "CR \<notin> set s" and l: "l \<in> set (text_lines s)"
  then have "CR \<notin> set l" using concat_text_lines [of s] by (metis UN_I set_concat)
  with text_lines_shape [OF l] show "LF \<notin> set (butlast l) \<and> CR \<notin> set l" by simp
qed

lemma csv_read_lines_errors:
  "CR \<notin> set s \<Longrightarrow> csv_read_lines d (text_lines s) = Inl e \<Longrightarrow> e = CsvError (FieldLimit field_limit)"
  unfolding csv_read_lines_def
  by (erule reader_rows_errors [OF text_lines_CR_free]) (simp_all add: reader_init_def)

lemma csv_read_lines_total:
  assumes "CR \<notin> set s" and "length s \<le> field_limit"
  shows "\<exists>rows. csv_read_lines d (text_lines s) = Inr rows"
proof (cases "csv_read_lines d (text_lines s)")
  case (Inl e)
  with assms(1) have "e = CsvError (FieldLimit field_limit)" by (rule csv_read_lines_errors)
  with Inl have "field_limit < length (concat (text_lines s))"
    unfolding csv_read_lines_def using reader_rows_limit by (fastforce simp: reader_init_def)
  with assms(2) show ?thesis by (simp add: concat_text_lines)
qed simp

lemma length_univ_newlines: "length (univ_newlines s) \<le> length s"
  by (induction s rule: univ_newlines.induct) auto

subsection \<open>Reading a file\<close>

text \<open>
  \<open>open_lines\<close> has already turned every \<open>\r\<close> into \<open>\n\<close>, so the newline error of
  \<open>EAT_CRNL\<close> cannot happen: reading a log file fails only when the file is missing
  or a field grows past \<open>field_limit\<close>.
\<close>

lemma ppc_chars:
  "parse_process_char d r c = Inr r' \<Longrightarrow> fchars r' \<subseteq> fchars r \<union> {ch. c = Ch ch}"
  by (auto simp: csv_step_defs fchars_def split: parser_state.splits cin.splits if_splits)

lemma process_inputs_chars:
  "process_inputs d r cs = Inr r' \<Longrightarrow> fchars r' \<subseteq> fchars r \<union> {ch. Ch ch \<in> set cs}"
proof (induction cs arbitrary: r)
  case (Cons c cs)
  then obtain r1 where r1: "parse_process_char d r c = Inr r1"
    and rest: "process_inputs d r1 cs = Inr r'" by (auto split: sum.splits)
  from Cons.IH [OF rest] ppc_chars [OF r1] show ?case by auto
qed simp

lemma reader_rows_chars:
  "reader_rows d r ls = Inr rows \<Longrightarrow> set (concat (concat rows)) \<subseteq> fchars r \<union> set (concat ls)"
proof (induction d r ls arbitrary: rows rule: reader_rows.induct)
  case (1 d r)
  then show ?case by (auto simp: fchars_def split: if_splits)
next
  case (2 d r l ls)
  then obtain r' where r': "process_inputs d r (line_inputs l) = Inr r'" by (auto split: sum.splits)
  have "fchars r' \<subseteq> fchars r \<union> set l"
    using process_inputs_chars [OF r'] by (auto simp: line_inputs_def)
  moreover have "fchars (r'\<lparr>rfields := []\<rparr>) \<subseteq> fchars r'" by (auto simp: fchars_def)
  ultimately show ?case using 2 r' by (fastforce simp: fchars_def split: if_splits)
qed



text \<open>C14: a log file of at most \<open>field_limit\<close> characters is always read without an
  exception: the reader returns its rows.\<close>

theorem read_csv_file_total:
  assumes "fs p = Some content" and "length content \<le> field_limit"
  shows "\<exists>rows. read_csv_file fs p = Inr rows"
proof -
  have "length (univ_newlines content) \<le> field_limit"
    using length_univ_newlines [of content] assms(2) by linarith
  then show ?thesis
    using assms(1) csv_read_lines_total [OF univ_newlines_no_CR]
    by (simp add: read_csv_file_def open_lines_def)
qed

theorem read_csv_file_total_witness:
  "\<exists>rows. read_csv_file [''logs.csv'' \<mapsto> ''step,return''] ''logs.csv'' = Inr rows"
  by (rule read_csv_file_total [of _ _ "''step,return''"]) (simp_all add: field_limit_def)

text \<open>C16: no field the script reads from a log holds a carriage return: \<open>open()\<close> without
  \<open>newline=''\<close> has turned every \<open>\r\<close> into \<open>\n\<close> before the reader sees it, also
  inside quoted fields.\<close>

theorem read_csv_file_no_CR:
  "read_csv_file fs p = Inr rows \<Longrightarrow> CR \<notin> set (concat (concat rows))"
  unfolding read_csv_file_def open_lines_def csv_read_lines_def
  using univ_newlines_no_CR
  by (force split: option.splits simp: concat_text_lines fchars_def reader_init_def
      dest: reader_rows_chars)


theorem read_csv_file_no_CR_witness:
  "read_csv_file [''logs.csv'' \<mapsto> ''x'' @ [CR, LF]] ''logs.csv'' = Inr [[''x'']] \<and>
   CR \<notin> set (concat (concat [[''x'']]))"
proof -
  have h: "read_csv_file [''logs.csv'' \<mapsto> ''x'' @ [CR, LF]] ''logs.csv'' = Inr [[''x'']]" by code_simp
  show ?thesis using h read_csv_file_no_CR [OF h] by simp
qed

end
