(* ===== verification/Binary64.thy ===== *)
theory Binary64
  imports Complex_Main Prelude
begin

text \<open>
  Python floats are IEEE 754 binary64 numbers. \<open>float(s)\<close> converts the decimal
  literal with \<open>_Py_dg_strtod\<close>, which rounds the exact decimal value correctly to
  the nearest binary64 number, ties to the even significand, and gives an infinity
  when the rounded magnitude reaches \<open>2 ^ 1024\<close>. A finite float is kept as the
  rational it denotes; \<open>round_b64\<close> is the rounding, computed as the C code's result
  is characterised: the binade \<open>2 ^ e \<le> q < 2 ^ (e + 1)\<close> of the value gives the
  quantum \<open>2 ^ k\<close>, \<open>k = max (e - 52) (-1074)\<close> (53 significant bits, subnormals
  below \<open>2 ^ -1022\<close>), and the value is rounded to a multiple of the quantum.
\<close>

datatype py_float = PFin rat | PInf bool | PNaN

subsection \<open>Rounding\<close>

text \<open>Integer powers of two, kept as a constant so that \<open>2 ^ 1024\<close> is not unfolded.\<close>

definition pow2 :: "int \<Rightarrow> rat" where
  "pow2 k = 2 powi k"

text \<open>The number of bits of a natural number.\<close>

fun nbits :: "nat \<Rightarrow> nat" where
  "nbits n = (if n = 0 then 0 else Suc (nbits (n div 2)))"

declare nbits.simps [simp del]

text \<open>\<open>\<lfloor>log2 q\<rfloor>\<close> of a positive rational, from the bit lengths of its numerator and
  denominator.\<close>

definition log2_floor :: "rat \<Rightarrow> int" where
  "log2_floor q =
     (let (a, b) = quotient_of q; e = int (nbits (nat a)) - int (nbits (nat b))
      in if q < pow2 e then e - 1 else e)"

text \<open>Rounding to an integer, ties to even.\<close>

definition round_even :: "rat \<Rightarrow> int" where
  "round_even m =
     (let f = \<lfloor>m\<rfloor>; r = m - of_int f
      in if r < 1 / 2 then f else if 1 / 2 < r then f + 1 else if even f then f else f + 1)"

definition b64_quantum :: "rat \<Rightarrow> int" where
  "b64_quantum q = max (log2_floor q - 52) (- 1074)"

text \<open>The binary64 number \<open>float()\<close> gives for the magnitude \<open>q \<ge> 0\<close> and the sign
  \<open>neg\<close> (a zero keeps no sign: \<open>-0.0\<close> is not distinguished from \<open>0.0\<close>).\<close>

definition round_b64 :: "bool \<Rightarrow> rat \<Rightarrow> py_float" where
  "round_b64 neg q =
     (if q = 0 then PFin 0
      else let k = b64_quantum q; v = of_int (round_even (q / pow2 k)) * pow2 k
           in if pow2 1024 \<le> v then PInf neg else PFin (if neg then - v else v))"

text \<open>The finite binary64 numbers: a significand of at most 53 bits times a power of
  two between the subnormal quantum \<open>2 ^ -1074\<close> and \<open>2 ^ 971\<close>.\<close>

definition is_binary64 :: "rat \<Rightarrow> bool" where
  "is_binary64 v \<longleftrightarrow> (\<exists>n k. v = of_int n * pow2 k \<and> \<bar>n\<bar> < 2 ^ 53 \<and> - 1074 \<le> k \<and> k \<le> 971)"

subsection \<open>Powers of two\<close>

named_theorems pow2_simps "rewrite rules for integer powers of two"

lemma pow2_pos [simp, pow2_simps]: "0 < pow2 k"
  by (simp add: pow2_def zero_less_power_int)

lemma pow2_add [pow2_simps]: "pow2 (a + b) = pow2 a * pow2 b"
  by (simp add: pow2_def power_int_add)

lemma pow2_le_iff [simp, pow2_simps]: "pow2 a \<le> pow2 b \<longleftrightarrow> a \<le> b"
  unfolding pow2_def
  by (metis linorder_not_less not_less_iff_gr_or_eq one_less_numeral_iff power_int_strict_increasing
      semiring_norm(76) order_less_imp_le power_int_increasing one_le_numeral)

lemma pow2_less_iff [simp, pow2_simps]: "pow2 a < pow2 b \<longleftrightarrow> a < b"
  by (meson linorder_not_le pow2_le_iff)

lemma pow2_nonzero [simp, pow2_simps]: "pow2 k \<noteq> 0"
  using pow2_pos [of k] by linarith

lemma abs_pow2 [simp, pow2_simps]: "\<bar>pow2 k\<bar> = pow2 k"
  using pow2_pos [of k] by linarith

lemma pow2_one [simp, pow2_simps]: "pow2 1 = 2"
  by (simp add: pow2_def)

lemma pow2_nat [pow2_simps]: "pow2 (int n) = 2 ^ n"
  unfolding pow2_def by (rule power_int_of_nat)

lemma pow2_neg [pow2_simps]: "pow2 (- int n) = 1 / 2 ^ n"
  unfolding pow2_def power_int_minus power_int_of_nat by (simp add: inverse_eq_divide)

subsection \<open>Bit length and binade\<close>

lemma nbits_bounds: "0 < n \<Longrightarrow> 2 ^ (nbits n - 1) \<le> n \<and> n < 2 ^ nbits n"
proof (induction n rule: nbits.induct)
  case (1 n)
  show ?case
  proof (cases "n = 1")
    case True
    then show ?thesis by (simp add: nbits.simps)
  next
    case False
    with "1.prems" have h: "0 < n div 2" by simp
    have IH: "2 ^ (nbits (n div 2) - 1) \<le> n div 2 \<and> n div 2 < 2 ^ nbits (n div 2)"
      using "1.IH" "1.prems" h by simp
    have ns: "nbits n = Suc (nbits (n div 2))" using "1.prems" by (simp add: nbits.simps)
    have pos: "0 < nbits (n div 2)" using h by (simp add: nbits.simps)
    have "2 ^ nbits (n div 2) \<le> 2 * (n div 2)"
      using IH pos by (cases "nbits (n div 2)") auto
    moreover have "n < 2 * 2 ^ nbits (n div 2)" using IH by linarith
    ultimately show ?thesis by (simp add: ns)
  qed
qed

lemma nbits_pow2:
  assumes "0 < n"
  shows "pow2 (int (nbits n) - 1) \<le> of_nat n" "of_nat n < pow2 (int (nbits n))"
proof -
  have pos: "0 < nbits n" using assms by (simp add: nbits.simps)
  have e: "int (nbits n) - 1 = int (nbits n - 1)" using pos by simp
  have "(of_nat (2 ^ (nbits n - 1)) :: rat) \<le> of_nat n"
    using nbits_bounds [OF assms] by (simp only: of_nat_le_iff)
  then show "pow2 (int (nbits n) - 1) \<le> of_nat n"
    by (simp only: e pow2_nat of_nat_power of_nat_numeral)
  have "(of_nat n :: rat) < of_nat (2 ^ nbits n)"
    using nbits_bounds [OF assms] by (simp only: of_nat_less_iff)
  then show "of_nat n < pow2 (int (nbits n))"
    by (simp only: pow2_nat of_nat_power of_nat_numeral)
qed

lemma log2_floor:
  assumes "0 < q"
  shows "pow2 (log2_floor q) \<le> q" "q < pow2 (log2_floor q + 1)"
proof -
  obtain a b where ab: "quotient_of q = (a, b)" by fastforce
  have b: "0 < b" using quotient_of_denom_pos [OF ab] .
  have qab: "q = of_int a / of_int b" using quotient_of_div [OF ab] .
  have bpos: "(0::rat) < of_int b" using b by simp
  have a: "0 < a" using assms bpos by (simp add: qab zero_less_divide_iff)
  define A where "A = nbits (nat a)"
  define B where "B = nbits (nat b)"
  define e where "e = int A - int B"
  have A1: "0 < A" using a by (simp add: A_def nbits.simps)
  have B1: "0 < B" using b by (simp add: B_def nbits.simps)
  have a1: "pow2 (int A - 1) \<le> of_int a" "of_int a < pow2 (int A)"
    using nbits_pow2 [of "nat a"] a by (simp_all only: A_def of_nat_nat zero_less_nat_eq order_less_imp_le)
  have b1: "pow2 (int B - 1) \<le> of_int b" "of_int b < pow2 (int B)"
    using nbits_pow2 [of "nat b"] b by (simp_all only: B_def of_nat_nat zero_less_nat_eq order_less_imp_le)
  have lo: "pow2 (e - 1) < q"
  proof -
    have "pow2 (e - 1) * of_int b < pow2 (e - 1) * pow2 (int B)"
      using b1(2) by (simp only: mult_strict_left_mono pow2_pos)
    also have "\<dots> = pow2 (int A - 1)"
      by (simp only: pow2_add [symmetric]) (simp add: e_def)
    also have "\<dots> \<le> of_int a" by (rule a1(1))
    finally show ?thesis using bpos by (simp add: qab pos_less_divide_eq)
  qed
  have hi: "q < pow2 (e + 1)"
  proof -
    have "of_int a < pow2 (int A)" by (rule a1(2))
    also have "\<dots> = pow2 (e + 1) * pow2 (int B - 1)"
      by (simp only: pow2_add [symmetric]) (simp add: e_def)
    also have "\<dots> \<le> pow2 (e + 1) * of_int b"
      using b1(1) by (simp only: mult_left_mono pow2_pos order_less_imp_le)
    finally show ?thesis using bpos by (simp add: qab divide_less_eq)
  qed
  have l: "log2_floor q = (if q < pow2 e then e - 1 else e)"
    by (simp add: log2_floor_def ab e_def A_def B_def)
  show "pow2 (log2_floor q) \<le> q" using lo by (simp add: l)
  show "q < pow2 (log2_floor q + 1)" using hi by (simp add: l)
qed

subsection \<open>Rounding to an integer\<close>

lemma round_even_cases:
  "round_even m = \<lfloor>m\<rfloor> \<and> m - of_int \<lfloor>m\<rfloor> \<le> 1 / 2 \<or>
   round_even m = \<lfloor>m\<rfloor> + 1 \<and> 1 / 2 \<le> m - of_int \<lfloor>m\<rfloor>"
  by (auto simp: round_even_def Let_def)

text \<open>\<open>round_even m\<close> is an integer nearest to \<open>m\<close>.\<close>

lemma round_even_nearest: "\<bar>of_int (round_even m) - m\<bar> \<le> \<bar>of_int j - m\<bar>"
proof -
  have f: "of_int \<lfloor>m\<rfloor> \<le> m" "m < of_int \<lfloor>m\<rfloor> + 1" by linarith+
  consider "j \<le> \<lfloor>m\<rfloor>" | "\<lfloor>m\<rfloor> + 1 \<le> j" by linarith
  then show ?thesis
  proof cases
    case 1
    then have "(of_int j :: rat) \<le> of_int \<lfloor>m\<rfloor>" by simp
    then show ?thesis using round_even_cases [of m] f by auto
  next
    case 2
    then have "(of_int \<lfloor>m\<rfloor> + 1 :: rat) \<le> of_int j" by simp
    then show ?thesis using round_even_cases [of m] f by auto
  qed
qed

lemma round_even_of_int [simp]: "round_even (of_int n) = n"
  by (simp add: round_even_def)

lemma round_even_floor: "\<lfloor>m\<rfloor> \<le> round_even m \<and> round_even m \<le> \<lfloor>m\<rfloor> + 1"
  using round_even_cases [of m] by auto

lemma round_even_le: "m \<le> of_int n \<Longrightarrow> round_even m \<le> n"
proof -
  assume m: "m \<le> of_int n"
  then have fl: "\<lfloor>m\<rfloor> \<le> n" by (simp add: floor_le_iff)
  show ?thesis
  proof (cases "\<lfloor>m\<rfloor> = n")
    case True
    then have "m = of_int n" using m by linarith
    then show ?thesis by simp
  next
    case False
    then show ?thesis using fl round_even_floor [of m] by linarith
  qed
qed

lemma round_even_ge: "of_int n \<le> m \<Longrightarrow> n \<le> round_even m"
proof -
  assume "of_int n \<le> m"
  then have "n \<le> \<lfloor>m\<rfloor>" by (simp add: le_floor_iff)
  then show ?thesis using round_even_floor [of m] by linarith
qed

subsection \<open>The quantum and the significand\<close>

lemma pow2_split: "b \<le> a \<Longrightarrow> pow2 a = pow2 b * 2 ^ nat (a - b)"
proof -
  assume "b \<le> a"
  then have "a = b + int (nat (a - b))" by simp
  then have "pow2 a = pow2 (b + int (nat (a - b)))" by (rule arg_cong)
  then show ?thesis by (simp only: pow2_add pow2_nat)
qed

lemma pow2_shift:
  "k \<le> kw \<Longrightarrow> of_int j * pow2 kw = of_int (j * 2 ^ nat (kw - k)) * pow2 k"
  by (simp add: pow2_split [of k kw])

lemma b64_quantum_bounds:
  "log2_floor q - 52 \<le> b64_quantum q" "- 1074 \<le> b64_quantum q"
  "- 1074 < b64_quantum q \<Longrightarrow> b64_quantum q = log2_floor q - 52"
  by (auto simp: b64_quantum_def)

lemma b64_scaled:
  assumes "0 < q"
  shows "q / pow2 (b64_quantum q) < 2 ^ 53"
    and "- 1074 < b64_quantum q \<Longrightarrow> 2 ^ 52 \<le> q / pow2 (b64_quantum q)"
proof -
  let ?e = "log2_floor q" and ?k = "b64_quantum q"
  have "q < pow2 (?e + 1)" using log2_floor(2) [OF assms] .
  also have "\<dots> \<le> pow2 (53 + ?k)" using b64_quantum_bounds(1) [of q] by simp
  also have "\<dots> = 2 ^ 53 * pow2 ?k" using pow2_split [of ?k "53 + ?k"] by simp
  finally show "q / pow2 ?k < 2 ^ 53" by (simp add: divide_less_eq)
  assume "- 1074 < ?k"
  then have k: "?k = ?e - 52" by (rule b64_quantum_bounds(3))
  have "2 ^ 52 * pow2 ?k = pow2 ?e"
    using pow2_split [of ?k ?e] by (simp add: k)
  also have "\<dots> \<le> q" using log2_floor(1) [OF assms] .
  finally show "2 ^ 52 \<le> q / pow2 ?k" by (simp add: le_divide_eq)
qed

lemma b64_significand:
  assumes "0 < q"
  shows "0 \<le> round_even (q / pow2 (b64_quantum q))" "round_even (q / pow2 (b64_quantum q)) \<le> 2 ^ 53"
    and "- 1074 < b64_quantum q \<Longrightarrow> 2 ^ 52 \<le> round_even (q / pow2 (b64_quantum q))"
proof -
  let ?m = "q / pow2 (b64_quantum q)"
  show "0 \<le> round_even ?m" using assms by (intro round_even_ge) (simp add: order_less_imp_le)
  show "round_even ?m \<le> 2 ^ 53" using b64_scaled(1) [OF assms] by (intro round_even_le) simp
  assume "- 1074 < b64_quantum q"
  then show "2 ^ 52 \<le> round_even ?m" using b64_scaled(2) [OF assms] by (intro round_even_ge) simp
qed

lemma round_b64_pos:
  "0 < q \<Longrightarrow> round_b64 neg q =
     (let v = of_int (round_even (q / pow2 (b64_quantum q))) * pow2 (b64_quantum q)
      in if pow2 1024 \<le> v then PInf neg else PFin (if neg then - v else v))"
  by (simp add: round_b64_def Let_def)



subsection \<open>What the rounding gives\<close>

lemma is_binary64_neg: "is_binary64 v \<Longrightarrow> is_binary64 (- v)"
proof -
  assume "is_binary64 v"
  then obtain n k where "v = of_int n * pow2 k" "\<bar>n\<bar> < 2 ^ 53" "- 1074 \<le> k" "k \<le> 971"
    unfolding is_binary64_def by blast
  then show ?thesis unfolding is_binary64_def by (intro exI [of _ "- n"] exI [of _ k]) simp
qed

lemma round_b64_nonneg_binary64:
  assumes "0 < q" and fin: "\<not> pow2 1024 \<le> of_int (round_even (q / pow2 (b64_quantum q))) * pow2 (b64_quantum q)"
  shows "is_binary64 (of_int (round_even (q / pow2 (b64_quantum q))) * pow2 (b64_quantum q))"
proof -
  let ?k = "b64_quantum q" let ?n = "round_even (q / pow2 ?k)"
  have n0: "0 \<le> ?n" and n1: "?n \<le> 2 ^ 53" using b64_significand [OF assms(1)] by simp_all
  have lt: "of_int ?n * pow2 ?k < pow2 1024" using fin by simp
  show ?thesis
  proof (cases "?n = 2 ^ 53")
    case True
    have v: "of_int ?n * pow2 ?k = of_int (2 ^ 52) * pow2 (?k + 1)"
      by (simp add: True pow2_add)
    have "pow2 (?k + 53) < pow2 1024"
      using lt by (simp add: True pow2_split [of ?k "?k + 53"])
    then have "?k + 1 \<le> 971" by simp
    then show ?thesis unfolding is_binary64_def
      using v b64_quantum_bounds(2) [of q] by (intro exI [of _ "2 ^ 52"] exI [of _ "?k + 1"]) simp
  next
    case False
    with n1 have n2: "\<bar>?n\<bar> < 2 ^ 53" using n0 by simp
    have "?k \<le> 971"
    proof (cases "- 1074 < ?k")
      case True
      have c: "(2::rat) ^ 52 \<le> of_int ?n"
      proof -
        have "(of_int (2 ^ 52) :: rat) \<le> of_int ?n"
          using b64_significand(3) [OF assms(1) True] by (simp only: of_int_le_iff)
        then show ?thesis by simp
      qed
      have "pow2 (?k + 52) = 2 ^ 52 * pow2 ?k" using pow2_split [of ?k "?k + 52"] by simp
      also have "\<dots> \<le> of_int ?n * pow2 ?k" using c by (rule mult_right_mono) (simp add: order_less_imp_le)
      also have "\<dots> < pow2 1024" by (rule lt)
      finally have "pow2 (?k + 52) < pow2 1024" .
      then show ?thesis by simp
    qed simp
    then show ?thesis unfolding is_binary64_def
      using n2 b64_quantum_bounds(2) [of q] by blast
  qed
qed



lemma b64_dist:
  "of_int i * pow2 k - q = (of_int i - q / pow2 k) * pow2 k"
  "\<bar>of_int i * pow2 k - q\<bar> = \<bar>of_int i - q / pow2 k\<bar> * pow2 k"
proof -
  show d: "of_int i * pow2 k - q = (of_int i - q / pow2 k) * pow2 k"
    by (simp add: left_diff_distrib)
  show "\<bar>of_int i * pow2 k - q\<bar> = \<bar>of_int i - q / pow2 k\<bar> * pow2 k"
    by (simp only: d abs_mult abs_of_pos [OF pow2_pos])
qed

text \<open>Among the multiples of the quantum, the rounded value is a nearest one.\<close>

lemma b64_nearest_multiple:
  "\<bar>of_int (round_even (q / pow2 k)) * pow2 k - q\<bar> \<le> \<bar>of_int j * pow2 k - q\<bar>"
  unfolding b64_dist(2) by (rule mult_right_mono [OF round_even_nearest]) (simp add: order_less_imp_le)

lemma b64_closest_pos:
  assumes "0 < q" and w: "is_binary64 w"
  shows "\<bar>of_int (round_even (q / pow2 (b64_quantum q))) * pow2 (b64_quantum q) - q\<bar> \<le> \<bar>w - q\<bar>"
proof -
  let ?k = "b64_quantum q" and ?e = "log2_floor q"
  obtain j kw where wj: "w = of_int j * pow2 kw" and j: "\<bar>j\<bar> < 2 ^ 53" and kw: "- 1074 \<le> kw"
    using w unfolding is_binary64_def by blast
  show ?thesis
  proof (cases "?k \<le> kw")
    case True
    show ?thesis unfolding wj pow2_shift [OF True] by (rule b64_nearest_multiple)
  next
    case False
    then have k: "?k = ?e - 52" using kw b64_quantum_bounds(3) [of q] by simp
    have jr: "\<bar>(of_int j :: rat)\<bar> < 2 ^ 53"
    proof -
      have "(of_int \<bar>j\<bar> :: rat) < of_int (2 ^ 53)" using j by (simp only: of_int_less_iff)
      then show ?thesis by simp
    qed
    have "\<bar>w\<bar> = \<bar>of_int j\<bar> * pow2 kw" by (simp add: wj abs_mult)
    also have "\<dots> \<le> 2 ^ 53 * pow2 kw" using jr by (simp add: mult_right_mono order_less_imp_le)
    also have "\<dots> \<le> 2 ^ 53 * pow2 (?k - 1)" using False by simp
    also have "\<dots> = pow2 ?e" using pow2_split [of "?k - 1" ?e] by (simp add: k)
    finally have wl: "\<bar>w\<bar> \<le> pow2 ?e" .
    have el: "pow2 ?e \<le> q" using log2_floor(1) [OF assms(1)] .
    have pe: "pow2 ?e = of_int (2 ^ 52) * pow2 ?k" using pow2_split [of ?k ?e] by (simp add: k)
    have "\<bar>of_int (round_even (q / pow2 ?k)) * pow2 ?k - q\<bar> \<le> \<bar>pow2 ?e - q\<bar>"
      unfolding pe by (rule b64_nearest_multiple)
    also have "\<dots> = q - pow2 ?e" using el by simp
    also have "\<dots> \<le> \<bar>w - q\<bar>" using wl by linarith
    finally show ?thesis .
  qed
qed

lemma round_b64_overflow:
  assumes "pow2 1024 \<le> q"
  shows "round_b64 neg q = PInf neg"
proof -
  let ?k = "b64_quantum q" and ?e = "log2_floor q"
  have q0: "0 < q" using assms pow2_pos [of 1024] by linarith
  have "pow2 1024 < pow2 (?e + 1)" using assms log2_floor(2) [OF q0] by linarith
  then have e: "1024 \<le> ?e" by simp
  then have big: "- 1074 < ?k" using b64_quantum_bounds(1) [of q] by linarith
  then have k: "?k = ?e - 52" by (rule b64_quantum_bounds(3))
  have c: "(2::rat) ^ 52 \<le> of_int (round_even (q / pow2 ?k))"
  proof -
    have "(of_int (2 ^ 52) :: rat) \<le> of_int (round_even (q / pow2 ?k))"
      using b64_significand(3) [OF q0 big] by (simp only: of_int_le_iff)
    then show ?thesis by simp
  qed
  have "pow2 1024 \<le> pow2 ?e" using e by simp
  also have "\<dots> = 2 ^ 52 * pow2 ?k" using pow2_split [of ?k ?e] by (simp add: k)
  also have "\<dots> \<le> of_int (round_even (q / pow2 ?k)) * pow2 ?k"
    using c by (rule mult_right_mono) (simp add: order_less_imp_le)
  finally show ?thesis by (simp add: round_b64_pos [OF q0] Let_def)
qed

lemma round_b64_underflow:
  assumes "0 < q" "q \<le> pow2 (- 1075)"
  shows "round_b64 neg q = PFin 0"
proof -
  have "pow2 (log2_floor q) \<le> pow2 (- 1075)" using log2_floor(1) [OF assms(1)] assms(2) by linarith
  then have k: "b64_quantum q = - 1074" by (simp add: b64_quantum_def)
  have p: "pow2 (- 1074) = pow2 (- 1075) * 2" using pow2_add [of "- 1075" 1] by simp
  let ?m = "q / pow2 (- 1074)"
  have "?m \<le> 1 / 2" using assms(2) by (simp add: p divide_le_eq)
  then have "?m < 1" by linarith
  moreover have "0 < ?m" using assms(1) by simp
  ultimately have "\<lfloor>?m\<rfloor> = 0" by (simp add: floor_eq_iff)
  with \<open>?m \<le> 1 / 2\<close> have "round_even ?m = 0" by (simp add: round_even_def Let_def)
  moreover have "\<not> pow2 1024 \<le> (0::rat)" using pow2_pos [of 1024] by linarith
  ultimately show ?thesis using assms(1) by (simp add: round_b64_pos k)
qed

lemma round_b64_exact:
  assumes "0 < q" "is_binary64 q"
  shows "round_b64 neg q = PFin (if neg then - q else q)"
proof -
  let ?k = "b64_quantum q" and ?e = "log2_floor q"
  obtain j kq where qj: "q = of_int j * pow2 kq" and j: "\<bar>j\<bar> < 2 ^ 53"
    and kq: "- 1074 \<le> kq" "kq \<le> 971"
    using assms(2) unfolding is_binary64_def by blast
  have jr: "(of_int j :: rat) < 2 ^ 53"
  proof -
    have "(of_int j :: rat) < of_int (2 ^ 53)" using j by (simp only: of_int_less_iff)
    then show ?thesis by simp
  qed
  have "q < 2 ^ 53 * pow2 kq" using jr by (simp add: qj)
  also have "\<dots> = pow2 (kq + 53)" using pow2_split [of kq "kq + 53"] by simp
  finally have qlt: "q < pow2 (kq + 53)" .
  have "pow2 ?e < pow2 (kq + 53)" using log2_floor(1) [OF assms(1)] qlt by linarith
  then have "?k \<le> kq" using kq(1) by (simp add: b64_quantum_def)
  define J where "J = j * 2 ^ nat (kq - ?k)"
  have qk: "q = of_int J * pow2 ?k"
  proof -
    have "q = of_int j * pow2 kq" by (rule qj)
    also have "\<dots> = of_int J * pow2 ?k" unfolding J_def by (rule pow2_shift [OF \<open>?k \<le> kq\<close>])
    finally show ?thesis .
  qed
  have "q / pow2 ?k = of_int J"
    by (simp only: divide_eq_eq pow2_nonzero if_True not_False_eq_True) (rule qk)
  then have v: "of_int (round_even (q / pow2 ?k)) * pow2 ?k = q" using qk by simp
  have "pow2 (kq + 53) \<le> pow2 1024" using kq(2) by simp
  then have "q < pow2 1024" using qlt by linarith
  then show ?thesis using v by (simp add: round_b64_pos [OF assms(1)] Let_def)
qed


subsection \<open>An exponent test for overflow\<close>

text \<open>The overflow test compares the quantum's exponent instead of the rounded value
  with \<open>2 ^ 1024\<close>; this is the form evaluated.\<close>

lemma log2_floor_nonpos: "q \<le> 0 \<Longrightarrow> log2_floor q \<le> 0"
proof -
  assume q: "q \<le> 0"
  obtain a b where ab: "quotient_of q = (a, b)" by fastforce
  have "0 < b" using quotient_of_denom_pos [OF ab] .
  then have "a \<le> 0" using q quotient_of_div [OF ab] by (simp add: divide_le_0_iff)
  then have "nat a = 0" by simp
  then show ?thesis by (simp add: log2_floor_def ab nbits.simps Let_def)
qed

lemma b64_overflow_exponent:
  assumes "0 < q"
  shows "pow2 1024 \<le> of_int (round_even (q / pow2 (b64_quantum q))) * pow2 (b64_quantum q) \<longleftrightarrow>
         972 \<le> b64_quantum q \<or> (b64_quantum q = 971 \<and> round_even (q / pow2 (b64_quantum q)) = 2 ^ 53)"
proof -
  let ?k = "b64_quantum q" let ?n = "round_even (q / pow2 ?k)"
  have n1: "?n \<le> 2 ^ 53" using b64_significand(2) [OF assms] .
  have nr: "(of_int ?n :: rat) \<le> 2 ^ 53"
  proof -
    have "(of_int ?n :: rat) \<le> of_int (2 ^ 53)" using n1 by (simp only: of_int_le_iff)
    then show ?thesis by simp
  qed
  have up: "of_int ?n * pow2 ?k \<le> pow2 (?k + 53)"
  proof -
    have "of_int ?n * pow2 ?k \<le> 2 ^ 53 * pow2 ?k" using nr by (rule mult_right_mono) (simp add: order_less_imp_le)
    then show ?thesis using pow2_split [of ?k "?k + 53"] by simp
  qed
  show ?thesis
  proof (cases "972 \<le> ?k")
    case True
    then have big: "- 1074 < ?k" by simp
    have c: "(2::rat) ^ 52 \<le> of_int ?n"
    proof -
      have "(of_int (2 ^ 52) :: rat) \<le> of_int ?n"
        using b64_significand(3) [OF assms big] by (simp only: of_int_le_iff)
      then show ?thesis by simp
    qed
    have "pow2 1024 \<le> pow2 (?k + 52)" using True by simp
    also have "\<dots> = 2 ^ 52 * pow2 ?k" using pow2_split [of ?k "?k + 52"] by simp
    also have "\<dots> \<le> of_int ?n * pow2 ?k" using c by (rule mult_right_mono) (simp add: order_less_imp_le)
    finally show ?thesis using True by simp
  next
    case False
    show ?thesis
    proof (cases "?k = 971 \<and> ?n = 2 ^ 53")
      case True
      have "of_int ?n * pow2 ?k = of_int (2 ^ 53) * pow2 971"
        by (subst conjunct2 [OF True], subst conjunct1 [OF True]) (rule refl)
      also have "\<dots> = pow2 1024" using pow2_split [of 971 1024] by simp
      finally have "pow2 1024 \<le> of_int ?n * pow2 ?k" by simp
      with True show ?thesis by blast
    next
      case nt: False
      have "of_int ?n * pow2 ?k < pow2 1024"
      proof (cases "?k = 971")
        case True
        with nt have "?n < 2 ^ 53" using n1 by simp
        then have "(of_int ?n :: rat) < of_int (2 ^ 53)" by (simp only: of_int_less_iff)
        then have "of_int ?n * pow2 ?k < 2 ^ 53 * pow2 971" using True by simp
        also have "\<dots> = pow2 1024" using pow2_split [of 971 1024] by simp
        finally show ?thesis .
      next
        case k: False
        with False have "?k + 53 < 1024" by simp
        then have "pow2 (?k + 53) < pow2 1024" by simp
        then show ?thesis using up by linarith
      qed
      then show ?thesis using False nt by simp
    qed
  qed
qed

lemma round_b64_code [code]:
  "round_b64 neg q =
     (if q = 0 then PFin 0
      else let k = b64_quantum q; n = round_even (q / pow2 k)
           in if 972 \<le> k \<or> (k = 971 \<and> n = 2 ^ 53) then PInf neg
              else PFin (if neg then - (of_int n * pow2 k) else of_int n * pow2 k))"
proof (cases "0 < q")
  case True
  then show ?thesis using b64_overflow_exponent [OF True] by (simp add: round_b64_def Let_def)
next
  case False
  show ?thesis
  proof (cases "q = 0")
    case nz: False
    with False have q: "q < 0" by simp
    have k: "b64_quantum q < 971"
      using log2_floor_nonpos [of q] q by (simp add: b64_quantum_def)
    have "q / pow2 (b64_quantum q) \<le> of_int 0" using q by (simp add: divide_nonpos_pos order_less_imp_le)
    then have "round_even (q / pow2 (b64_quantum q)) \<le> 0" by (rule round_even_le)
    then have "(of_int (round_even (q / pow2 (b64_quantum q))) :: rat) * pow2 (b64_quantum q) \<le> 0"
      by (simp add: mult_nonpos_nonneg order_less_imp_le)
    then have "\<not> pow2 1024 \<le> of_int (round_even (q / pow2 (b64_quantum q))) * pow2 (b64_quantum q)"
      using pow2_pos [of 1024] by linarith
    then show ?thesis using k nz by (simp add: round_b64_def Let_def)
  qed (simp add: round_b64_def)
qed


subsection \<open>Correctness of the rounding\<close>

lemma is_binary64_zero: "is_binary64 0"
  unfolding is_binary64_def by (intro exI [of _ 0] exI [of _ 0]) simp

lemma round_b64_finite:
  assumes "0 \<le> q" "round_b64 neg q = PFin v"
  shows "is_binary64 v"
proof (cases "q = 0")
  case True
  then show ?thesis using assms(2) by (simp add: round_b64_def is_binary64_zero)
next
  case False
  with assms(1) have q: "0 < q" by simp
  let ?v = "of_int (round_even (q / pow2 (b64_quantum q))) * pow2 (b64_quantum q)"
  from assms(2) have fin: "\<not> pow2 1024 \<le> ?v" and v: "v = (if neg then - ?v else ?v)"
    by (simp_all add: round_b64_pos [OF q] Let_def split: if_splits)
  have "is_binary64 ?v" by (rule round_b64_nonneg_binary64 [OF q fin])
  then show ?thesis using v is_binary64_neg by auto
qed

lemma round_b64_nearest_pos:
  assumes "0 \<le> q" "round_b64 False q = PFin v" "is_binary64 w"
  shows "\<bar>v - q\<bar> \<le> \<bar>w - q\<bar>"
proof (cases "q = 0")
  case True
  then show ?thesis using assms(2) by (simp add: round_b64_def)
next
  case False
  with assms(1) have q: "0 < q" by simp
  from assms(2) have "v = of_int (round_even (q / pow2 (b64_quantum q))) * pow2 (b64_quantum q)"
    by (simp add: round_b64_pos [OF q] Let_def split: if_splits)
  then show ?thesis using b64_closest_pos [OF q assms(3)] by simp
qed

text \<open>C26: the rounding \<open>float()\<close> applies refines IEEE 754 round-to-nearest: a finite
  result for a value \<open>q \<ge> 0\<close> is a binary64 number, and no binary64 number is closer
  to \<open>q\<close>.\<close>

theorem round_b64_nearest:
  assumes "0 \<le> q" and "round_b64 False q = PFin v"
  shows "is_binary64 v \<and> (\<forall>w. is_binary64 w \<longrightarrow> \<bar>v - q\<bar> \<le> \<bar>w - q\<bar>)"
  using round_b64_finite [OF assms] round_b64_nearest_pos [OF assms] by blast

theorem round_b64_nearest_witness:
  "round_b64 False (1 / 10) = PFin (3602879701896397 / 36028797018963968) \<and>
   is_binary64 (3602879701896397 / 36028797018963968) \<and>
   \<bar>3602879701896397 / 36028797018963968 - 1 / 10\<bar> \<le>
     \<bar>3602879701896396 / 36028797018963968 - 1 / (10::rat)\<bar>"
proof -
  have r: "round_b64 False (1 / 10) = PFin (3602879701896397 / 36028797018963968)" by code_simp
  have p: "pow2 (- 55) = 1 / 36028797018963968" using pow2_neg [of 55] by simp
  have w: "is_binary64 (3602879701896396 / 36028797018963968)"
    unfolding is_binary64_def by (intro exI [of _ 3602879701896396] exI [of _ "- 55"]) (simp add: p)
  have n: "is_binary64 (3602879701896397 / 36028797018963968) \<and>
      (\<forall>w. is_binary64 w \<longrightarrow> \<bar>3602879701896397 / 36028797018963968 - 1 / 10\<bar> \<le> \<bar>w - 1 / (10::rat)\<bar>)"
    by (rule round_b64_nearest [OF _ r]) simp
  show ?thesis using r w n by blast
qed

end
