(* ===== verification/PyNum.thy ===== *)
theory PyNum
  imports Binary64
begin

text \<open>
  The two conversions \<open>src/scripts/process_logs.py\<close> applies to the cells of the
  evaluator log: \<open>int(row[1])\<close> (line 27) and \<open>float(row[6])\<close> (line 28), with the
  semantics of CPython 3.11 on a \<open>str\<close> argument (\<open>PyLong_FromUnicodeObject\<close> with
  base 10 and \<open>PyFloat_FromString\<close>). Characters are read as the code points
  0--255. Both first strip white space: the ASCII white space \<open>\t \n \v \f \r\<close> and
  the space, and \<open>U+0085\<close>, \<open>U+00A0\<close>, which the conversions map to a space first;
  \<open>U+001C\<close>..\<open>U+001F\<close> are kept, so that \<open>int\<close> rejects them. The value of a decimal
  literal is rounded to the nearest binary64 number as \<open>_Py_dg_strtod\<close> does
  (\<open>round_b64\<close>, theory \<open>Binary64\<close>), so a literal of magnitude \<open>2 ^ 1024\<close> or
  more gives \<open>inf\<close> and a tiny one 0; the sign of \<open>-0.0\<close> is not kept.
\<close>

definition py_isspace :: "char \<Rightarrow> bool" where
  "py_isspace c \<longleftrightarrow>
     (let n = of_char c :: nat in (9 \<le> n \<and> n \<le> 13) \<or> n = 32 \<or> n = 133 \<or> n = 160)"

definition is_digit :: "char \<Rightarrow> bool" where
  "is_digit c \<longleftrightarrow> (let n = of_char c :: nat in 48 \<le> n \<and> n \<le> 57)"

definition digit_val :: "char \<Rightarrow> nat" where
  "digit_val c = of_char c - 48"

definition decimal_value :: "string \<Rightarrow> nat" where
  "decimal_value ds = foldl (\<lambda>n c. 10 * n + digit_val c) 0 ds"

text \<open>
  How \<open>long_from_non_binary_base\<close> builds the value of the digits: it takes them
  \<open>convwidth\<close> at a time (9 for base 10 with 30-bit digits, the largest power of ten
  below \<open>2^30\<close>), reads each group into a machine word \<open>c\<close> and multiplies the
  accumulated number by \<open>10^k\<close>, \<open>k\<close> the group's length, before adding \<open>c\<close>.
\<close>

definition conv_width :: nat where
  "conv_width = 9"

function long_from_digits :: "nat \<Rightarrow> string \<Rightarrow> nat" where
  "long_from_digits z ds =
     (if ds = [] then z
      else long_from_digits (z * 10 ^ length (take conv_width ds) + decimal_value (take conv_width ds))
             (drop conv_width ds))"
  by pat_completeness auto

termination
  by (relation "measure (\<lambda>(z, ds). length ds)") (simp_all add: conv_width_def)

declare long_from_digits.simps [simp del]

text \<open>An optional sign: \<open>True\<close> for a minus.\<close>

definition split_sign :: "string \<Rightarrow> bool \<times> string" where
  "split_sign s =
     (case s of c # r \<Rightarrow>
        if c = CHR ''+'' then (False, r) else if c = CHR ''-'' then (True, r) else (False, s)
      | [] \<Rightarrow> (False, []))"

definition signed :: "bool \<Rightarrow> int \<Rightarrow> int" where
  "signed neg n = (if neg then - n else n)"

subsection \<open>\<open>int(s)\<close>\<close>

text \<open>
  The digit loop of \<open>long_from_non_binary_base\<close>: digits and single underscores
  between them, with \<open>prev\<close> the character read last (\<open>NUL\<close> at the start). A double
  underscore, or an underscore before anything that is not a digit, is an error
  (\<open>None\<close>); otherwise the digits read and the rest of the text.
\<close>

fun scan_digits :: "char \<Rightarrow> string \<Rightarrow> string \<Rightarrow> (string \<times> string) option" where
  "scan_digits prev acc [] = (if prev = CHR ''_'' then None else Some (acc, []))"
| "scan_digits prev acc (c # s) =
     (if is_digit c then scan_digits c (acc @ [c]) s
      else if c = CHR ''_'' then (if prev = CHR ''_'' then None else scan_digits c acc s)
      else if prev = CHR ''_'' then None
      else Some (acc, c # s))"

text \<open>\<open>sys.get_int_max_str_digits()\<close>, 4300 by default since CPython 3.11.\<close>

definition int_max_str_digits :: nat where
  "int_max_str_digits = 4300"

definition int_error :: "string \<Rightarrow> py_exc" where
  "int_error s = ValueError ''invalid literal for int() with base 10'' s"

definition int_limit_error :: "string \<Rightarrow> py_exc" where
  "int_limit_error s = ValueError ''Exceeds the limit (4300 digits) for integer string conversion'' s"

definition py_int :: "string \<Rightarrow> py_exc + int" where
  "py_int s =
     (let (neg, u) = split_sign (dropWhile py_isspace s)
      in if u \<noteq> [] \<and> hd u = CHR ''_'' then Inl (int_error s)
         else case scan_digits (CHR 0x00) [] u of
           None \<Rightarrow> Inl (int_error s)
         | Some (ds, rest) \<Rightarrow>
             if ds = [] then Inl (int_error s)
             else if int_max_str_digits < length ds
             then Inl (int_limit_error s)
             else if \<not> list_all py_isspace rest then Inl (int_error s)
             else Inr (signed neg (int (long_from_digits 0 ds))))"

subsection \<open>\<open>float(s)\<close>\<close>

definition float_error :: "string \<Rightarrow> py_exc" where
  "float_error s = ValueError ''could not convert string to float'' s"

text \<open>
  \<open>_Py_string_to_number_with_underscores\<close>: an underscore must follow a digit and be
  followed by one; the underscores are then removed.
\<close>

fun underscores_ok :: "char \<Rightarrow> string \<Rightarrow> bool" where
  "underscores_ok prev [] \<longleftrightarrow> prev \<noteq> CHR ''_''"
| "underscores_ok prev (c # s) \<longleftrightarrow>
     (if c = CHR ''_'' then is_digit prev \<and> underscores_ok c s
      else (prev \<noteq> CHR ''_'' \<or> is_digit c) \<and> underscores_ok c s)"

definition scale10 :: "nat \<Rightarrow> int \<Rightarrow> rat" where
  "scale10 m e = (if 0 \<le> e then of_nat m * 10 ^ nat e else of_nat m / 10 ^ nat (- e))"

text \<open>
  \<open>_Py_dg_strtod\<close> on a prefix: sign, integer digits, an optional point and fraction
  digits (at least one digit in all), an optional exponent that is taken only when
  digits follow the \<open>e\<close> and its sign; the exact value is then rounded to binary64.
\<close>

definition parse_decimal :: "string \<Rightarrow> (py_float \<times> string) option" where
  "parse_decimal t =
     (let (neg, u) = split_sign t;
          ip = takeWhile is_digit u; u1 = dropWhile is_digit u;
          (fp, u2) = (if u1 \<noteq> [] \<and> hd u1 = CHR ''.''
                      then (takeWhile is_digit (tl u1), dropWhile is_digit (tl u1)) else ([], u1))
      in if ip = [] \<and> fp = [] then None
         else
           let (ex, u3) =
                 (if u2 \<noteq> [] \<and> (hd u2 = CHR ''e'' \<or> hd u2 = CHR ''E'')
                  then (let (eneg, v) = split_sign (tl u2); ed = takeWhile is_digit v
                        in if ed = [] then (0, u2)
                           else (signed eneg (int (decimal_value ed)), dropWhile is_digit v))
                  else (0, u2));
               q = scale10 (decimal_value (ip @ fp)) (ex - int (length fp))
           in Some (round_b64 neg q, u3))"

text \<open>\<open>_Py_parse_inf_or_nan\<close>: \<open>inf\<close>, \<open>infinity\<close> or \<open>nan\<close> in any case, after a sign.\<close>

definition lower :: "char \<Rightarrow> char" where
  "lower c = (let n = of_char c :: nat in if 65 \<le> n \<and> n \<le> 90 then char_of (n + 32) else c)"

definition parse_inf_nan :: "string \<Rightarrow> (py_float \<times> string) option" where
  "parse_inf_nan t =
     (let (neg, u) = split_sign t; l = map lower u
      in if take 8 l = ''infinity'' then Some (PInf neg, drop 8 u)
         else if take 3 l = ''inf'' then Some (PInf neg, drop 3 u)
         else if take 3 l = ''nan'' then Some (PNaN, drop 3 u)
         else None)"

text \<open>\<open>float_from_string_inner\<close>: strip, convert, and require the whole rest consumed.\<close>

definition float_inner :: "string \<Rightarrow> string \<Rightarrow> py_exc + py_float" where
  "float_inner orig s =
     (let t = rev (dropWhile py_isspace (rev (dropWhile py_isspace s)))
      in if t = [] then Inl (float_error orig)
         else case (case parse_decimal t of None \<Rightarrow> parse_inf_nan t | r \<Rightarrow> r) of
           Some (v, []) \<Rightarrow> Inr v
         | _ \<Rightarrow> Inl (float_error orig))"

definition py_float :: "string \<Rightarrow> py_exc + py_float" where
  "py_float s =
     (if CHR ''_'' \<in> set s
      then (if underscores_ok (CHR 0x00) s then float_inner s (removeAll (CHR ''_'') s)
            else Inl (float_error s))
      else float_inner s s)"

subsection \<open>\<open>str(n)\<close>\<close>

text \<open>
  The decimal text of an int as \<open>str\<close> prints it (the format of the step column of
  the evaluator log): a minus sign for a negative number, no leading zeros.
\<close>

fun digits_of :: "nat \<Rightarrow> string" where
  "digits_of n =
     (if n < 10 then [char_of (48 + n)] else digits_of (n div 10) @ [char_of (48 + n mod 10)])"

definition py_str_int :: "int \<Rightarrow> string" where
  "py_str_int n = (if n < 0 then CHR ''-'' # digits_of (nat (- n)) else digits_of (nat n))"

subsection \<open>Properties of the conversions\<close>

declare digits_of.simps [simp del]

lemma is_digit_char_of: "(d::nat) < 10 \<Longrightarrow> is_digit (char_of (48 + d))"
  by (simp add: is_digit_def)

lemma digit_val_char_of: "(d::nat) < 10 \<Longrightarrow> digit_val (char_of (48 + d)) = d"
  by (simp add: digit_val_def)

lemma digits_of_digits: "c \<in> set (digits_of n) \<Longrightarrow> is_digit c"
proof (induction n rule: digits_of.induct)
  case (1 n)
  then show ?case
    by (subst (asm) digits_of.simps) (auto split: if_splits intro: is_digit_char_of)
qed

lemma digits_of_nonempty: "digits_of n \<noteq> []"
  by (subst digits_of.simps) simp

lemma decimal_value_snoc: "decimal_value (ds @ [c]) = 10 * decimal_value ds + digit_val c"
  by (simp add: decimal_value_def)

lemma decimal_value_append:
  "decimal_value (a @ b) = decimal_value a * 10 ^ length b + decimal_value b"
proof (induction b rule: rev_induct)
  case (snoc x xs)
  then show ?case using decimal_value_snoc [of "a @ xs" x]
    by (simp add: decimal_value_snoc algebra_simps)
qed (simp add: decimal_value_def)

lemma long_from_digits_acc [simp]:
  "long_from_digits z ds = z * 10 ^ length ds + decimal_value ds"
proof (induction z ds rule: long_from_digits.induct)
  case (1 z ds)
  show ?case
  proof (cases "ds = []")
    case False
    let ?k = "take conv_width ds" and ?r = "drop conv_width ds"
    have "long_from_digits z ds =
            (z * 10 ^ length ?k + decimal_value ?k) * 10 ^ length ?r + decimal_value ?r"
      using 1 False by (subst long_from_digits.simps) simp
    also have "\<dots> = z * 10 ^ length ds + decimal_value ds"
      using decimal_value_append [of ?k ?r]
      by (simp add: algebra_simps power_add [symmetric] min_def)
    finally show ?thesis .
  qed (simp add: long_from_digits.simps decimal_value_def)
qed

lemma decimal_value_sum:
  "decimal_value ds = (\<Sum>i<length ds. digit_val (ds ! i) * 10 ^ (length ds - Suc i))"
proof (induction ds rule: rev_induct)
  case (snoc c ds)
  have "(\<Sum>i<length ds. digit_val ((ds @ [c]) ! i) * 10 ^ (Suc (length ds) - Suc i)) =
        10 * (\<Sum>i<length ds. digit_val (ds ! i) * 10 ^ (length ds - Suc i))"
    unfolding sum_distrib_left
  proof (rule sum.cong)
    fix i assume "i \<in> {..<length ds}"
    then have "length ds - i = Suc (length ds - Suc i)" by auto
    then show "digit_val ((ds @ [c]) ! i) * 10 ^ (Suc (length ds) - Suc i) =
               10 * (digit_val (ds ! i) * 10 ^ (length ds - Suc i))"
      using \<open>i \<in> {..<length ds}\<close> by (simp add: nth_append)
  qed simp
  then show ?case using snoc by (simp add: decimal_value_snoc)
qed (simp add: decimal_value_def)

lemma decimal_value_digits_of: "decimal_value (digits_of n) = n"
proof (induction n rule: digits_of.induct)
  case (1 n)
  show ?case
  proof (cases "n < 10")
    case True
    then show ?thesis by (subst digits_of.simps) (simp add: decimal_value_def digit_val_def)
  next
    case False
    then have "decimal_value (digits_of n) = 10 * (n div 10) + n mod 10"
      using "1.IH" by (subst digits_of.simps) (simp add: decimal_value_snoc digit_val_char_of)
    then show ?thesis by simp
  qed
qed

lemma is_digit_not_special [simp]:
  "\<not> is_digit CHR ''_''" "\<not> is_digit CHR ''-''" "\<not> is_digit CHR ''+''" "\<not> is_digit CHR ''.''"
  "\<not> is_digit CHR ''e''" "\<not> is_digit CHR ''E''" "\<not> is_digit (CHR 0x00)"
  by (simp_all add: is_digit_def)

lemma digit_not_space: "is_digit c \<Longrightarrow> \<not> py_isspace c"
  by (auto simp: is_digit_def py_isspace_def Let_def)

lemma underscore_not_digit: "is_digit c \<Longrightarrow> c \<noteq> CHR ''_''"
  by auto

lemma scan_digits_all:
  assumes "\<forall>c \<in> set ds. is_digit c"
    and "rest = [] \<or> (\<not> is_digit (hd rest) \<and> hd rest \<noteq> CHR ''_'')"
    and "ds \<noteq> [] \<or> prev \<noteq> CHR ''_''"
  shows "scan_digits prev acc (ds @ rest) = Some (acc @ ds, rest)"
  using assms
proof (induction ds arbitrary: prev acc)
  case Nil
  then show ?case by (cases rest) auto
next
  case (Cons d ds)
  then have d: "is_digit d" and "d \<noteq> CHR ''_''" by (auto dest: underscore_not_digit)
  then have "scan_digits d (acc @ [d]) (ds @ rest) = Some (acc @ d # ds, rest)"
    using Cons.prems by (intro Cons.IH [THEN trans]) auto
  with d show ?case by simp
qed


lemma scan_digits_set:
  "scan_digits prev acc u = Some (ds, rest) \<Longrightarrow> \<forall>c \<in> set acc. is_digit c \<Longrightarrow>
     (\<forall>c \<in> set ds. is_digit c) \<and> set ds \<subseteq> set acc \<union> set u"
  by (induction prev acc u rule: scan_digits.induct) (auto split: if_splits)

lemma split_sign_set: "split_sign t = (neg, u) \<Longrightarrow> set u \<subseteq> set t"
  by (auto simp: split_sign_def split: list.splits if_splits)

lemma decimal_value_less:
  "\<forall>c \<in> set ds. is_digit c \<Longrightarrow> decimal_value ds < 10 ^ length ds"
proof (induction ds rule: rev_induct)
  case Nil
  then show ?case by (simp add: decimal_value_def)
next
  case (snoc c ds)
  then have "digit_val c < 10" by (auto simp: digit_val_def is_digit_def Let_def)
  moreover have "decimal_value ds < 10 ^ length ds" using snoc by simp
  ultimately show ?case by (simp add: decimal_value_snoc)
qed

text \<open>What a successful \<open>int(s)\<close> reads: a non-empty run of digits of \<open>s\<close>.\<close>

lemma py_int_Inr_digits:
  assumes "py_int s = Inr n"
  obtains neg ds where "ds \<noteq> []" "\<forall>c \<in> set ds. is_digit c" "set ds \<subseteq> set s"
    "length ds \<le> int_max_str_digits" "n = signed neg (int (decimal_value ds))"
proof -
  obtain neg u where su: "split_sign (dropWhile py_isspace s) = (neg, u)" by fastforce
  with assms obtain ds rest where sc: "scan_digits (CHR 0x00) [] u = Some (ds, rest)"
    and r: "ds \<noteq> []" "length ds \<le> int_max_str_digits" "n = signed neg (int (decimal_value ds))"
    by (auto simp: py_int_def split: if_splits option.splits)
  from scan_digits_set [OF sc] have "\<forall>c \<in> set ds. is_digit c" "set ds \<subseteq> set u" by auto
  moreover have "set u \<subseteq> set s"
    using split_sign_set [OF su] set_dropWhileD by fastforce
  ultimately show ?thesis using r that by blast
qed

text \<open>C29: \<open>int()\<close> never turns a cell without a digit into a number (no silent coercion of an empty or non-numeric cell to 0): a successful conversion read a digit of the cell.\<close>

theorem py_int_requires_digit: "py_int s = Inr n \<Longrightarrow> \<exists>c \<in> set s. is_digit c"
  by (erule py_int_Inr_digits) (metis hd_in_set subsetD)

text \<open>C30: a successful \<open>int()\<close> returns a number of at most 4300 decimal digits: longer cells raise \<open>ValueError\<close>.\<close>

theorem py_int_bound: "py_int s = Inr n \<Longrightarrow> \<bar>n\<bar> < 10 ^ int_max_str_digits"
proof (erule py_int_Inr_digits)
  fix neg ds
  assume ds: "\<forall>c \<in> set ds. is_digit c" "length ds \<le> int_max_str_digits"
    and n: "n = signed neg (int (decimal_value ds))"
  have "decimal_value ds < 10 ^ length ds" using ds(1) by (rule decimal_value_less)
  also have "(10::nat) ^ length ds \<le> 10 ^ int_max_str_digits" using ds(2) by (rule power_increasing) simp
  finally have "int (decimal_value ds) < 10 ^ int_max_str_digits" by (simp add: of_nat_less_iff [symmetric])
  then show "\<bar>n\<bar> < 10 ^ int_max_str_digits" using n by (simp add: signed_def)
qed

lemma py_str_int_shape:
  "\<exists>neg. split_sign (py_str_int n @ ws) = (neg, digits_of (nat \<bar>n\<bar>) @ ws) \<and> signed neg (int (nat \<bar>n\<bar>)) = n
     \<and> \<not> py_isspace (hd (py_str_int n @ ws))"
proof (cases "n < 0")
  case True
  then show ?thesis by (auto simp: py_str_int_def split_sign_def signed_def py_isspace_def)
next
  case False
  obtain d ds where dd: "digits_of (nat n) = d # ds" using digits_of_nonempty by (cases "digits_of (nat n)") auto
  then have "is_digit d" using digits_of_digits [of d "nat n"] by simp
  then have "d \<noteq> CHR ''+''" "d \<noteq> CHR ''-''" "\<not> py_isspace d" by (auto simp: digit_not_space)
  with False dd show ?thesis by (auto simp: py_str_int_def split_sign_def signed_def)
qed

lemma py_int_of_str:
  assumes "length (digits_of (nat \<bar>n\<bar>)) \<le> int_max_str_digits"
    and "\<forall>c \<in> set ws1 \<union> set ws2. py_isspace c"
  shows "py_int (ws1 @ py_str_int n @ ws2) = Inr n"
proof -
  let ?ds = "digits_of (nat \<bar>n\<bar>)"
  have dig: "\<forall>c \<in> set ?ds. is_digit c" using digits_of_digits by blast
  have tail: "ws2 = [] \<or> (\<not> is_digit (hd ws2) \<and> hd ws2 \<noteq> CHR ''_'')"
    using assms(2) by (cases ws2) (auto simp: py_isspace_def dest: digit_not_space)
  have scan: "scan_digits (CHR 0x00) [] (?ds @ ws2) = Some (?ds, ws2)"
    using scan_digits_all [OF dig tail] digits_of_nonempty by simp
  obtain neg where sg: "split_sign (py_str_int n @ ws2) = (neg, ?ds @ ws2)"
    and v: "signed neg (int (nat \<bar>n\<bar>)) = n" and h: "\<not> py_isspace (hd (py_str_int n @ ws2))"
    using py_str_int_shape by blast
  have "py_str_int n @ ws2 \<noteq> []" by (simp add: py_str_int_def digits_of_nonempty)
  with h have "dropWhile py_isspace (ws1 @ py_str_int n @ ws2) = py_str_int n @ ws2"
    using assms(2) by (cases "py_str_int n @ ws2") auto
  moreover have "hd (?ds @ ws2) \<noteq> CHR ''_''"
    using dig digits_of_nonempty by (cases ?ds) auto
  ultimately show ?thesis
    using sg scan assms v digits_of_nonempty
    by (simp add: py_int_def decimal_value_digits_of list_all_iff)
qed

text \<open>C17: \<open>int()\<close> reads back what \<open>str()\<close> printed, with any white space around it, for every int of at most 4300 digits.\<close>

theorem py_int_str:
  assumes "length (digits_of (nat \<bar>n\<bar>)) \<le> int_max_str_digits"
    and "\<forall>c \<in> set ws1 \<union> set ws2. py_isspace c"
  shows "py_int (ws1 @ py_str_int n @ ws2) = Inr n"
  using assms by (rule py_int_of_str)

theorem py_int_str_witness:
  "length (digits_of (nat \<bar>-42\<bar>)) \<le> int_max_str_digits \<and>
   py_int ('' '' @ py_str_int (-42) @ [LF]) = Inr (-42)"
proof -
  have h: "length (digits_of (nat \<bar>-42::int\<bar>)) \<le> int_max_str_digits"
    by (simp add: digits_of.simps int_max_str_digits_def)
  show ?thesis using h py_int_str [OF h, of "'' ''" "[LF]"] by (simp add: py_isspace_def)
qed


lemma strip_id:
  "s \<noteq> [] \<Longrightarrow> \<not> py_isspace (hd s) \<Longrightarrow> \<not> py_isspace (last s) \<Longrightarrow>
     rev (dropWhile py_isspace (rev (dropWhile py_isspace s))) = s"
proof -
  assume ne: "s \<noteq> []" and h: "\<not> py_isspace (hd s)" and l: "\<not> py_isspace (last s)"
  from ne h have "dropWhile py_isspace s = s" by (cases s) auto
  moreover from ne l have "dropWhile py_isspace (rev s) = rev s"
    by (cases "rev s") (auto simp: hd_rev [symmetric])
  ultimately show ?thesis by simp
qed

lemma dot_not_space [simp]: "\<not> py_isspace CHR ''.''" "\<not> py_isspace CHR ''-''"
  by (simp_all add: py_isspace_def)

lemma scale10_neg: "scale10 m (- int k) = of_nat m / 10 ^ k"
  by (cases "k = 0") (simp_all add: scale10_def)

lemma parse_decimal_point:
  assumes "ip \<noteq> []" "\<forall>c \<in> set ip. is_digit c" "\<forall>c \<in> set fp. is_digit c"
  shows "parse_decimal (ip @ CHR ''.'' # fp) =
           Some (round_b64 False (of_nat (decimal_value (ip @ fp)) / 10 ^ length fp), [])"
proof -
  obtain d ds where ip: "ip = d # ds" using assms(1) by (cases ip) auto
  with assms(2) have "d \<noteq> CHR ''+''" "d \<noteq> CHR ''-''" by auto
  then have "split_sign (ip @ CHR ''.'' # fp) = (False, ip @ CHR ''.'' # fp)"
    by (simp add: split_sign_def ip)
  then show ?thesis
    using assms
    by (simp add: parse_decimal_def scale10_neg [of _ "length fp", simplified]
        takeWhile_eq_all_conv [THEN iffD2] dropWhile_eq_Nil_conv [THEN iffD2])
qed

lemma parse_decimal_exp:
  assumes "ip \<noteq> []" "\<forall>c \<in> set ip. is_digit c" "ed \<noteq> []" "\<forall>c \<in> set ed. is_digit c"
  shows "parse_decimal (ip @ CHR ''e'' # (if eneg then CHR ''-'' # ed else ed)) =
           Some (round_b64 False (scale10 (decimal_value ip) (signed eneg (int (decimal_value ed)))), [])"
proof -
  obtain d ds where ip: "ip = d # ds" using assms(1) by (cases ip) auto
  obtain c cs where ed: "ed = c # cs" using assms(3) by (cases ed) auto
  from assms(2) have "d \<noteq> CHR ''+''" "d \<noteq> CHR ''-''" by (auto simp: ip)
  then have s: "split_sign (ip @ CHR ''e'' # (if eneg then CHR ''-'' # ed else ed)) =
      (False, ip @ CHR ''e'' # (if eneg then CHR ''-'' # ed else ed))"
    by (simp add: split_sign_def ip)
  from assms(4) have "c \<noteq> CHR ''+''" "c \<noteq> CHR ''-''" by (auto simp: ed)
  then have e: "split_sign (if eneg then CHR ''-'' # ed else ed) = (eneg, ed)"
    by (simp add: split_sign_def ed)
  have "\<not> is_digit CHR ''e''" by (simp add: is_digit_def)
  then show ?thesis
    using assms s e
    by (simp add: parse_decimal_def takeWhile_eq_all_conv [THEN iffD2] dropWhile_eq_Nil_conv [THEN iffD2])
qed

text \<open>C31: \<open>float()\<close> of a decimal literal \<open>ip.fp\<close> is the binary64 rounding (nearest, ties to even) of the rational number the digits denote.\<close>

theorem py_float_point:
  assumes "ip \<noteq> []" "\<forall>c \<in> set ip. is_digit c" "\<forall>c \<in> set fp. is_digit c"
  shows "py_float (ip @ CHR ''.'' # fp) = Inr (round_b64 False (of_nat (decimal_value (ip @ fp)) / 10 ^ length fp))"
proof -
  let ?s = "ip @ CHR ''.'' # fp"
  have nu: "CHR ''_'' \<notin> set ?s" using assms(2,3) by auto
  have hd: "\<not> py_isspace (hd ?s)" using assms(1,2) by (cases ip) (auto dest: digit_not_space)
  have lst: "\<not> py_isspace (last ?s)"
    using assms(3) by (cases fp rule: rev_cases) (auto dest: digit_not_space)
  have "rev (dropWhile py_isspace (rev (dropWhile py_isspace ?s))) = ?s"
    using hd lst by (intro strip_id) simp_all
  with nu show ?thesis
    using parse_decimal_point [OF assms] by (simp add: py_float_def float_inner_def)
qed

theorem py_float_point_witness: "py_float ''10.0'' = Inr (PFin 10)"
proof -
  have a: "''10'' \<noteq> []" "\<forall>c \<in> set ''10''. is_digit c" "\<forall>c \<in> set ''0''. is_digit c"
    by (simp_all add: is_digit_def)
  have "py_float (''10'' @ CHR ''.'' # ''0'') =
          Inr (round_b64 False (of_nat (decimal_value (''10'' @ ''0'')) / 10 ^ length ''0''))"
    by (rule py_float_point [OF a])
  moreover have "round_b64 False (of_nat (decimal_value (''10'' @ ''0'')) / 10 ^ length ''0'') = PFin 10"
    by code_simp
  ultimately show ?thesis by simp
qed

lemma py_float_exp:
  assumes "ip \<noteq> []" "\<forall>c \<in> set ip. is_digit c" "ed \<noteq> []" "\<forall>c \<in> set ed. is_digit c"
  shows "py_float (ip @ CHR ''e'' # (if eneg then CHR ''-'' # ed else ed)) =
           Inr (round_b64 False (scale10 (decimal_value ip) (signed eneg (int (decimal_value ed)))))"
proof -
  let ?s = "ip @ CHR ''e'' # (if eneg then CHR ''-'' # ed else ed)"
  have nu: "CHR ''_'' \<notin> set ?s" using assms(2,4) by (auto simp: is_digit_def)
  have hd: "\<not> py_isspace (hd ?s)" using assms(1,2) by (cases ip) (auto dest: digit_not_space)
  have lst: "\<not> py_isspace (last ?s)"
    using assms(3,4) by (cases ed rule: rev_cases) (auto dest: digit_not_space)
  have "rev (dropWhile py_isspace (rev (dropWhile py_isspace ?s))) = ?s"
    using hd lst by (intro strip_id) simp_all
  with nu show ?thesis
    using parse_decimal_exp [OF assms, of eneg] by (simp add: py_float_def float_inner_def)
qed


lemma parse_inf_nan_not_fin: "parse_inf_nan t \<noteq> Some (PFin q, r)"
  by (auto simp: parse_inf_nan_def Let_def split: prod.splits if_splits)

lemma scale10_nonneg: "0 \<le> scale10 m e"
  by (simp add: scale10_def)

lemma parse_decimal_binary64: "parse_decimal t = Some (PFin q, r) \<Longrightarrow> is_binary64 q"
  by (auto simp: parse_decimal_def Let_def split: prod.splits if_splits
      intro: round_b64_finite [OF scale10_nonneg])

lemma parse_decimal_digit:
  assumes "parse_decimal t = Some (v, r)"
  shows "\<exists>c \<in> set t. is_digit c"
proof -
  obtain neg u where su: "split_sign t = (neg, u)" by fastforce
  let ?u1 = "dropWhile is_digit u"
  have ne: "takeWhile is_digit u \<noteq> [] \<or> (?u1 \<noteq> [] \<and> takeWhile is_digit (tl ?u1) \<noteq> [])"
    using assms su by (auto simp: parse_decimal_def Let_def split: if_splits prod.splits)
  have "\<exists>c \<in> set u. is_digit c"
  proof (cases "takeWhile is_digit u = []")
    case False
    then show ?thesis by (metis hd_in_set set_takeWhileD takeWhile_eq_Nil_iff)
  next
    case True
    with ne have "takeWhile is_digit (tl ?u1) \<noteq> []" by simp
    then obtain c where "c \<in> set (tl ?u1)" "is_digit c"
      by (metis hd_in_set set_takeWhileD takeWhile_eq_Nil_iff)
    then have "c \<in> set ?u1" by (cases ?u1) auto
    with \<open>is_digit c\<close> show ?thesis by (auto dest: set_dropWhileD)
  qed
  then show ?thesis using split_sign_set [OF su] by blast
qed
subsection \<open>What the conversions raise\<close>

text \<open>
  The only exceptions of \<open>int()\<close> and \<open>float()\<close> on a string are their
  \<open>ValueError\<close>s, carrying the string.
\<close>

lemma py_int_errors [py_simps]:
  "py_int s = Inl e \<Longrightarrow> e = int_error s \<or> e = int_limit_error s"
  by (auto simp: py_int_def Let_def split: prod.splits if_splits option.splits)

lemma float_inner_errors: "float_inner orig t = Inl e \<Longrightarrow> e = float_error orig"
  by (auto simp: float_inner_def Let_def split: if_splits option.splits prod.splits list.splits)

lemma py_float_errors [py_simps]: "py_float s = Inl e \<Longrightarrow> e = float_error s"
  by (auto simp: py_float_def split: if_splits dest: float_inner_errors)

text \<open>C32: a finite result of \<open>float()\<close> was read from a digit of the cell, so no cell
  without digits becomes a finite number, and it is a binary64 number.\<close>

theorem py_float_finite_requires_digit:
  "py_float s = Inr (PFin q) \<Longrightarrow> (\<exists>c \<in> set s. is_digit c) \<and> is_binary64 q"
proof -
  assume a: "py_float s = Inr (PFin q)"
  have inner: "(\<exists>c \<in> set t. is_digit c) \<and> is_binary64 q" if "float_inner orig t = Inr (PFin q)" for orig t
  proof -
    let ?t = "rev (dropWhile py_isspace (rev (dropWhile py_isspace t)))"
    from that obtain v where "parse_decimal ?t = Some (PFin q, [])"
      using parse_inf_nan_not_fin
      by (auto simp: float_inner_def Let_def split: if_splits option.splits prod.splits list.splits)
    moreover obtain c where "c \<in> set ?t" "is_digit c"
      using parse_decimal_digit [OF calculation] by blast
    ultimately show ?thesis by (auto dest!: set_dropWhileD parse_decimal_binary64)
  qed
  show ?thesis
  proof (cases "CHR ''_'' \<in> set s")
    case True
    with a have "float_inner s (removeAll (CHR ''_'') s) = Inr (PFin q)"
      by (simp add: py_float_def split: if_splits)
    then show ?thesis using inner by fastforce
  next
    case False
    with a show ?thesis using inner by (simp add: py_float_def)
  qed
qed

theorem py_int_requires_digit_witness:
  "py_int ''7'' = Inr 7 \<and> (\<exists>c \<in> set ''7''. is_digit c)"
proof -
  have h: "py_int ''7'' = Inr 7" by code_simp
  show ?thesis using h py_int_requires_digit [OF h] by simp
qed

theorem py_int_bound_witness:
  "py_int ''-12'' = Inr (-12) \<and> \<bar>-12::int\<bar> < 10 ^ int_max_str_digits"
proof -
  have h: "py_int ''-12'' = Inr (-12)" by code_simp
  show ?thesis using h py_int_bound [OF h] by simp
qed

theorem py_float_finite_requires_digit_witness:
  "py_float ''2.5'' = Inr (PFin (5 / 2)) \<and> (\<exists>c \<in> set ''2.5''. is_digit c) \<and> is_binary64 (5 / 2)"
proof -
  have h: "py_float ''2.5'' = Inr (PFin (5 / 2))" by code_simp
  show ?thesis using h py_float_finite_requires_digit [OF h] by simp
qed

text \<open>C33: \<open>float()\<close> raises no error on a literal outside the binary64 range: one of
  magnitude at least \<open>2^1024\<close> becomes \<open>inf\<close>, and a positive one of at most
  \<open>2^-1075\<close> becomes \<open>0.0\<close>.\<close>

theorem py_float_out_of_range:
  assumes "ip \<noteq> []" "\<forall>c \<in> set ip. is_digit c" "ed \<noteq> []" "\<forall>c \<in> set ed. is_digit c"
  shows "(pow2 1024 \<le> of_nat (decimal_value ip) * 10 ^ decimal_value ed \<longrightarrow>
            py_float (ip @ CHR ''e'' # ed) = Inr (PInf False)) \<and>
         (0 < decimal_value ip \<and> of_nat (decimal_value ip) / 10 ^ decimal_value ed \<le> pow2 (- 1075) \<longrightarrow>
            py_float (ip @ CHR ''e'' # CHR ''-'' # ed) = Inr (PFin 0))"
proof (intro conjI impI)
  assume "pow2 1024 \<le> of_nat (decimal_value ip) * 10 ^ decimal_value ed"
  then show "py_float (ip @ CHR ''e'' # ed) = Inr (PInf False)"
    using py_float_exp [OF assms, of False] round_b64_overflow
    by (simp add: scale10_def signed_def)
next
  assume a: "0 < decimal_value ip \<and> of_nat (decimal_value ip) / 10 ^ decimal_value ed \<le> pow2 (- 1075)"
  have "scale10 (decimal_value ip) (signed True (int (decimal_value ed))) =
          of_nat (decimal_value ip) / 10 ^ decimal_value ed"
    using scale10_neg [of "decimal_value ip" "decimal_value ed"] by (simp add: signed_def)
  then show "py_float (ip @ CHR ''e'' # CHR ''-'' # ed) = Inr (PFin 0)"
    using py_float_exp [OF assms, of True] round_b64_underflow [of _ False] a by simp
qed

theorem py_float_out_of_range_witness:
  "py_float ''1e309'' = Inr (PInf False) \<and> py_float ''1e-400'' = Inr (PFin 0)"
proof -
  have a: "''1'' \<noteq> []" "\<forall>c \<in> set ''1''. is_digit c" "''309'' \<noteq> []" "\<forall>c \<in> set ''309''. is_digit c"
      "''400'' \<noteq> []" "\<forall>c \<in> set ''400''. is_digit c"
    by (simp_all add: is_digit_def)
  have o: "pow2 1024 \<le> of_nat (decimal_value ''1'') * (10::rat) ^ decimal_value ''309''"
    using pow2_nat [of 1024] by (simp add: decimal_value_def digit_val_def)
  have u: "0 < decimal_value ''1'' \<and>
      of_nat (decimal_value ''1'') / (10::rat) ^ decimal_value ''400'' \<le> pow2 (- 1075)"
    using pow2_neg [of 1075] by (simp add: decimal_value_def digit_val_def)
  show ?thesis
    using py_float_out_of_range [OF a(1-4)] py_float_out_of_range [OF a(1,2,5,6)] o u by simp
qed


text \<open>C37: the digit loop of \<open>long_from_non_binary_base\<close>, which multiplies by a power of
  ten once per group of nine digits, computes the positional value of the digits.\<close>

theorem long_from_digits_positional:
  "long_from_digits 0 ds = (\<Sum>i<length ds. digit_val (ds ! i) * 10 ^ (length ds - Suc i))"
  by (simp add: decimal_value_sum)

end
