(* ===== verification/ProcessLogs.thy ===== *)
theory ProcessLogs
  imports Csv PyNum
begin

text \<open>
  The body of \<open>src/scripts/process_logs.py\<close> (lines 7--30) as one statement sequence
  over a world holding the file system, what was printed, and the lines plotted
  on the current \<open>matplotlib\<close> axes. It reads the three logs in the order of the
  source, prints the last learner row, converts column 1 of every evaluator row after
  the header with \<open>int\<close> and column 6 with \<open>float\<close>, plots the two lists and
  prints \<open>yo\<close>. An exception ends the script; what was printed or plotted before it
  stays in the world. \<open>print\<close> is recorded as the object printed (its \<open>repr\<close>
  formatting is not modelled); \<open>plt.plot\<close> as the pair of series it adds, after the
  check \<open>matplotlib\<close> makes that both have the same length.
\<close>

datatype out = OutRow "string list" | OutStr string

record world =
  files :: filesystem
  stdout :: "out list"
  plot_lines :: "(int list \<times> py_float list) list"

definition results_dir :: string where
  "results_dir = ''server_results/acme/20230526-154853/logs''"

definition actor_log :: string where
  "actor_log = results_dir @ ''/actor/logs.csv''"

definition evaluator_log :: string where
  "evaluator_log = results_dir @ ''/evaluator/logs.csv''"

definition learner_log :: string where
  "learner_log = results_dir @ ''/learner/logs.csv''"

text \<open>\<open>with open(path) as fp: data = [row for row in csv.reader(fp, ...)]\<close>\<close>

definition read_log :: "string \<Rightarrow> (string list list, world) pyst" where
  "read_log path = (\<lambda>w. (read_csv_file (files w) path, w))"

definition py_print :: "out \<Rightarrow> (unit, world) pyst" where
  "py_print x = modifyE (\<lambda>w. w\<lparr>stdout := stdout w @ [x]\<rparr>)"

definition plot_shape_error :: py_exc where
  "plot_shape_error = ValueError ''x and y must have same first dimension'' []"

definition plt_plot :: "int list \<Rightarrow> py_float list \<Rightarrow> (unit, world) pyst" where
  "plt_plot xs ys =
     (if length xs \<noteq> length ys then raiseE plot_shape_error
      else modifyE (\<lambda>w. w\<lparr>plot_lines := plot_lines w @ [(xs, ys)]\<rparr>))"

text \<open>The element expressions of the comprehensions of lines 27 and 28.\<close>

definition step_cell :: "string list \<Rightarrow> py_exc + int" where
  "step_cell row = py_bind (py_index row 1) py_int"

definition return_cell :: "string list \<Rightarrow> py_exc + py_float" where
  "return_cell row = py_bind (py_index row 6) py_float"

definition process_logs :: "(unit, world) pyst" where
  "process_logs =
     bindE (read_log actor_log) (\<lambda>actor_data.
     bindE (read_log evaluator_log) (\<lambda>evaluator_data.
     bindE (read_log learner_log) (\<lambda>learner_data.
     bindE (liftE (py_index learner_data (-1))) (\<lambda>last_row.
     bindE (py_print (OutRow last_row)) (\<lambda>_.
     bindE (liftE (py_map step_cell (drop 1 evaluator_data))) (\<lambda>actor_steps.
     bindE (liftE (py_map return_cell (drop 1 evaluator_data))) (\<lambda>episode_return.
     bindE (plt_plot actor_steps episode_return) (\<lambda>_.
     py_print (OutStr ''yo'')))))))))"

subsection \<open>Sample log directories\<close>

text \<open>The layout the script reads, with the columns of an Acme evaluator log.\<close>

definition sample_evaluator :: string where
  "sample_evaluator = ''actor_episodes,actor_steps,a,b,c,d,episode_return'' @ [LF] @
     ''h0,1,-,-,-,-,10.0'' @ [LF] @ ''h1,2,-,-,-,-,20.0'' @ [LF]"

definition sample_world :: world where
  "sample_world = \<lparr>files = [actor_log \<mapsto> ''t,s'' @ [LF] @ ''0,1'' @ [LF],
      evaluator_log \<mapsto> sample_evaluator, learner_log \<mapsto> ''x,y'' @ [LF] @ ''1,2'' @ [LF]],
     stdout = [], plot_lines = []\<rparr>"

definition with_log :: "string \<Rightarrow> string \<Rightarrow> world" where
  "with_log p content = sample_world\<lparr>files := (files sample_world)(p \<mapsto> content)\<rparr>"

subsection \<open>The script as one case distinction\<close>

text \<open>
  Unfolding the statement sequence: each step that can raise is a case, in the order
  of the source, and the world changes only at the print and the plot.
\<close>

lemma process_logs_eq:
  "process_logs w =
     (case read_csv_file (files w) actor_log of Inl e \<Rightarrow> (Inl e, w) | Inr _ \<Rightarrow>
      case read_csv_file (files w) evaluator_log of Inl e \<Rightarrow> (Inl e, w) | Inr ev \<Rightarrow>
      case read_csv_file (files w) learner_log of Inl e \<Rightarrow> (Inl e, w) | Inr ld \<Rightarrow>
      case py_index ld (-1) of Inl e \<Rightarrow> (Inl e, w) | Inr last_row \<Rightarrow>
      case py_map step_cell (drop 1 ev) of
        Inl e \<Rightarrow> (Inl e, w\<lparr>stdout := stdout w @ [OutRow last_row]\<rparr>) | Inr xs \<Rightarrow>
      case py_map return_cell (drop 1 ev) of
        Inl e \<Rightarrow> (Inl e, w\<lparr>stdout := stdout w @ [OutRow last_row]\<rparr>) | Inr ys \<Rightarrow>
      (Inr (), w\<lparr>stdout := stdout w @ [OutRow last_row, OutStr ''yo''],
                 plot_lines := plot_lines w @ [(xs, ys)]\<rparr>))"
  by (auto simp: process_logs_def bindE_apply read_log_def py_print_def plt_plot_def
      py_map_length split: sum.splits prod.splits)

subsection \<open>Errors, effects and results of the script\<close>

lemma read_log_errors:
  "read_csv_file fs p = Inl e \<Longrightarrow> e = FileNotFoundError p \<or> e = CsvError (FieldLimit field_limit)"
  unfolding read_csv_file_def open_lines_def
  by (auto split: option.splits intro: csv_read_lines_errors [OF univ_newlines_no_CR])

lemma step_cell_errors: "step_cell row = Inl e \<Longrightarrow> e = IndexError \<or> e = int_error (row ! 1) \<or> e = int_limit_error (row ! 1)"
  by (auto simp: step_cell_def split: if_splits dest: py_int_errors)

lemma return_cell_errors: "return_cell row = Inl e \<Longrightarrow> e = IndexError \<or> e = float_error (row ! 6)"
  by (auto simp: return_cell_def split: if_splits dest: py_float_errors)

text \<open>Every exception of the script is one of the statements' own.\<close>

lemma process_logs_Inl:
  assumes "fst (process_logs w) = Inl e"
  shows "e \<in> {FileNotFoundError actor_log, FileNotFoundError evaluator_log,
              FileNotFoundError learner_log, CsvError (FieldLimit field_limit), IndexError} \<or>
         (\<exists>s. e = int_error s \<or> e = int_limit_error s \<or> e = float_error s)"
  using assms
  by (auto simp: process_logs_eq py_index_last split: sum.splits if_splits
      dest!: read_log_errors py_map_Inl_elem dest: step_cell_errors return_cell_errors)

lemma plot_shape_error_distinct:
  "plot_shape_error \<noteq> int_error s" "plot_shape_error \<noteq> int_limit_error s"
  "plot_shape_error \<noteq> float_error s"
  by (simp_all add: plot_shape_error_def int_error_def int_limit_error_def float_error_def)

text \<open>C12: the plot call never raises: \<open>actor_steps\<close> and \<open>episode_return\<close> are built from the same rows, so the shape check of \<open>plt.plot\<close> always passes.\<close>

theorem process_logs_no_shape_error: "fst (process_logs w) \<noteq> Inl plot_shape_error"
  using process_logs_Inl [of w plot_shape_error] plot_shape_error_distinct
  by (auto simp: plot_shape_error_def)

text \<open>C20: the script never changes a file, and when it raises nothing has been plotted; at most the last learner row has been printed.\<close>

theorem process_logs_raise_no_plot:
  assumes "process_logs w = (Inl e, w')"
  shows "files w' = files w \<and> plot_lines w' = plot_lines w \<and>
         (stdout w' = stdout w \<or> (\<exists>r. stdout w' = stdout w @ [OutRow r]))"
  using assms by (auto simp: process_logs_eq split: sum.splits)


text \<open>C21: when the actor log is missing the script raises \<open>FileNotFoundError\<close> for it before anything else, whatever the other files hold.\<close>

theorem process_logs_missing_actor:
  "files w actor_log = None \<Longrightarrow> process_logs w = (Inl (FileNotFoundError actor_log), w)"
  by (simp add: process_logs_eq read_csv_file_def open_lines_def)

text \<open>C22: an empty learner log makes \<open>learner_data[-1]\<close> raise \<open>IndexError\<close> before anything is printed or plotted.\<close>

theorem process_logs_empty_learner:
  assumes "read_csv_file (files w) actor_log = Inr a"
    and "read_csv_file (files w) evaluator_log = Inr ev"
    and "files w learner_log = Some []"
  shows "process_logs w = (Inl IndexError, w)"
  using assms by (simp add: process_logs_eq py_index_last read_csv_file_def open_lines_def
      csv_read_lines_def text_lines_def reader_init_def)

text \<open>C10: a data row of the evaluator log whose column 1 is not an int literal makes the script raise after printing the learner row, and nothing is plotted.\<close>

theorem process_logs_bad_cell:
  assumes "read_csv_file (files w) actor_log = Inr a"
    and "read_csv_file (files w) evaluator_log = Inr ev"
    and "read_csv_file (files w) learner_log = Inr ld" and "ld \<noteq> []"
    and "row \<in> set (drop 1 ev)" and "1 < length row" and "py_int (row ! 1) = Inl e"
  shows "\<exists>e'. process_logs w = (Inl e', w\<lparr>stdout := stdout w @ [OutRow (last ld)]\<rparr>)"
proof -
  have "step_cell row = Inl e" using assms(6,7) by (simp add: step_cell_def)
  then obtain e' where "py_map step_cell (drop 1 ev) = Inl e'"
    using py_map_raises [OF assms(5)] by blast
  then show ?thesis using assms(1-4) by (simp add: process_logs_eq py_index_last)
qed

text \<open>C11: an evaluator log holding only its header row is plotted as two empty series without an exception.\<close>

theorem process_logs_header_only:
  assumes "read_csv_file (files w) actor_log = Inr a"
    and "read_csv_file (files w) evaluator_log = Inr [header]"
    and "read_csv_file (files w) learner_log = Inr ld" and "ld \<noteq> []"
  shows "process_logs w = (Inr (), w\<lparr>stdout := stdout w @ [OutRow (last ld), OutStr ''yo''],
                                    plot_lines := plot_lines w @ [([], [])]\<rparr>)"
  using assms by (simp add: process_logs_eq py_index_last)



theorem process_logs_missing_actor_witness:
  "files (sample_world\<lparr>files := Map.empty\<rparr>) actor_log = None \<and>
   process_logs (sample_world\<lparr>files := Map.empty\<rparr>) =
     (Inl (FileNotFoundError actor_log), sample_world\<lparr>files := Map.empty\<rparr>)"
  using process_logs_missing_actor [of "sample_world\<lparr>files := Map.empty\<rparr>"] by simp

theorem process_logs_empty_learner_witness:
  "process_logs (with_log learner_log []) = (Inl IndexError, with_log learner_log [])"
proof (rule process_logs_empty_learner)
  show "read_csv_file (files (with_log learner_log [])) actor_log = Inr [[''t'',''s''],[''0'',''1'']]"
    by code_simp
  show "read_csv_file (files (with_log learner_log [])) evaluator_log =
          Inr [[''actor_episodes'',''actor_steps'',''a'',''b'',''c'',''d'',''episode_return''],
               [''h0'',''1'',''-'',''-'',''-'',''-'',''10.0''], [''h1'',''2'',''-'',''-'',''-'',''-'',''20.0'']]"
    by code_simp
  show "files (with_log learner_log []) learner_log = Some []" by (simp add: with_log_def)
qed

theorem process_logs_raise_no_plot_witness:
  "fst (process_logs (with_log learner_log [])) = Inl IndexError \<and>
   files (snd (process_logs (with_log learner_log []))) = files (with_log learner_log []) \<and>
   plot_lines (snd (process_logs (with_log learner_log []))) = plot_lines (with_log learner_log []) \<and>
   (stdout (snd (process_logs (with_log learner_log []))) = stdout (with_log learner_log []) \<or>
    (\<exists>r. stdout (snd (process_logs (with_log learner_log []))) = stdout (with_log learner_log []) @ [OutRow r]))"
proof -
  have r: "fst (process_logs (with_log learner_log [])) = Inl IndexError" by code_simp
  then have "process_logs (with_log learner_log []) = (Inl IndexError, snd (process_logs (with_log learner_log [])))"
    by (cases "process_logs (with_log learner_log [])") simp
  from process_logs_raise_no_plot [OF this] r show ?thesis by simp
qed

theorem process_logs_bad_cell_witness:
  "\<exists>e'. process_logs (with_log evaluator_log (''h,step'' @ [LF] @ ''0,ten'' @ [LF])) =
     (Inl e', (with_log evaluator_log (''h,step'' @ [LF] @ ''0,ten'' @ [LF]))
        \<lparr>stdout := [OutRow [''1'',''2'']]\<rparr>)"
proof -
  let ?w = "with_log evaluator_log (''h,step'' @ [LF] @ ''0,ten'' @ [LF])"
  have a: "read_csv_file (files ?w) actor_log = Inr [[''t'',''s''],[''0'',''1'']]" by code_simp
  have e: "read_csv_file (files ?w) evaluator_log = Inr [[''h'',''step''],[''0'',''ten'']]" by code_simp
  have l: "read_csv_file (files ?w) learner_log = Inr [[''x'',''y''],[''1'',''2'']]" by code_simp
  have c: "py_int ([''0'',''ten''] ! 1) = Inl (int_error ''ten'')" by code_simp
  have "\<exists>e'. process_logs ?w = (Inl e', ?w\<lparr>stdout := stdout ?w @ [OutRow (last [[''x'',''y''],[''1'',''2'']])]\<rparr>)"
    by (rule process_logs_bad_cell [OF a e l _ _ _ c]) simp_all
  then show ?thesis by (simp add: with_log_def sample_world_def)
qed

theorem process_logs_header_only_witness:
  "process_logs (with_log evaluator_log (''h,step'' @ [LF])) =
     (Inr (), (with_log evaluator_log (''h,step'' @ [LF]))
        \<lparr>stdout := [OutRow [''1'',''2''], OutStr ''yo''], plot_lines := [([], [])]\<rparr>)"
proof -
  let ?w = "with_log evaluator_log (''h,step'' @ [LF])"
  have a: "read_csv_file (files ?w) actor_log = Inr [[''t'',''s''],[''0'',''1'']]" by code_simp
  have e: "read_csv_file (files ?w) evaluator_log = Inr [[''h'',''step'']]" by code_simp
  have l: "read_csv_file (files ?w) learner_log = Inr [[''x'',''y''],[''1'',''2'']]" by code_simp
  have "process_logs ?w = (Inr (), ?w\<lparr>stdout := stdout ?w @ [OutRow (last [[''x'',''y''],[''1'',''2'']]), OutStr ''yo''],
                                    plot_lines := plot_lines ?w @ [([], [])]\<rparr>)"
    by (rule process_logs_header_only [OF a e l]) simp
  then show ?thesis by (simp add: with_log_def sample_world_def)
qed


end
