(* ===== verification/PyModule.thy ===== *)
theory PyModule
  imports Prelude
begin

text \<open>
  Python's module objects and import statements, as the scripts and the BVE package
  use them. A module namespace is a map from names to objects. The modules a program
  imports that are not in the repository are given by a table: for each dotted name,
  whether no such module exists, whether running its code raises, or the namespace
  it leaves. Loading is deterministic: a module that loaded is cached in
  \<open>sys.modules\<close> and gives the same namespace again, and one that raised is removed
  from it and raises again, so a table lookup stands for every later import of the
  same name.

  \<open>import a.b.c\<close> loads \<open>a\<close>, \<open>a.b\<close>, \<open>a.b.c\<close> in turn (\<open>_find_and_load\<close>
  imports the parent first) and binds \<open>a\<close>; \<open>import a.b as x\<close> binds \<open>x\<close> to
  \<open>a.b\<close>; \<open>from m import n\<close> loads \<open>m\<close> and binds \<open>n\<close> to its attribute \<open>n\<close>,
  or, when there is none, to the submodule \<open>m.n\<close> (\<open>_handle_fromlist\<close>): a missing
  submodule gives \<open>ImportError\<close> (\<open>cannot import name\<close>), one that raises propagates
  its exception. The first statement that raises ends the sequence.
\<close>

datatype pyobj = PyModule string | PyClass string string | PyStr string
  | PyFunction string | PyFlagHolder string

type_synonym namespace = "string \<rightharpoonup> pyobj"

type_synonym module_table = "string \<rightharpoonup> py_exc + namespace"

subsection \<open>Loading a module and its parents\<close>

text \<open>The dotted prefixes of a module name, outermost first: \<open>a\<close>, \<open>a.b\<close>, \<open>a.b.c\<close>.\<close>

fun dotted_prefixes :: "string \<Rightarrow> string \<Rightarrow> string list" where
  "dotted_prefixes acc [] = [acc]"
| "dotted_prefixes acc (c # cs) =
     (if c = CHR ''.'' then acc # dotted_prefixes (acc @ [c]) cs else dotted_prefixes (acc @ [c]) cs)"

definition module_chain :: "string \<Rightarrow> string list" where
  "module_chain m = dotted_prefixes [] m"

text \<open>The package \<open>import a.b.c\<close> binds: the name up to the first dot.\<close>

definition top_package :: "string \<Rightarrow> string" where
  "top_package m = takeWhile (\<lambda>c. c \<noteq> CHR ''.'') m"

fun load_chain :: "module_table \<Rightarrow> string list \<Rightarrow> py_exc + namespace" where
  "load_chain mods [] = Inr Map.empty"
| "load_chain mods (p # ps) =
     (case mods p of
        None \<Rightarrow> Inl (ModuleNotFoundError p)
      | Some (Inl e) \<Rightarrow> Inl e
      | Some (Inr ns) \<Rightarrow> if ps = [] then Inr ns else load_chain mods ps)"

definition import_module :: "module_table \<Rightarrow> string \<Rightarrow> py_exc + namespace" where
  "import_module mods m = load_chain mods (module_chain m)"

subsection \<open>Import statements\<close>

datatype import_stmt =
    Import string             \<comment> \<open>\<open>import m\<close>\<close>
  | ImportAs string string    \<comment> \<open>\<open>import m as x\<close>\<close>
  | FromImport string string  \<comment> \<open>\<open>from m import n\<close>\<close>

text \<open>\<open>from m import n\<close> once \<open>m\<close> is loaded with namespace \<open>ns\<close>.\<close>

definition from_attr :: "module_table \<Rightarrow> string \<Rightarrow> namespace \<Rightarrow> string \<Rightarrow> py_exc + pyobj" where
  "from_attr mods m ns n =
     (case ns n of
        Some v \<Rightarrow> Inr v
      | None \<Rightarrow>
          (case mods (m @ ''.'' @ n) of
             None \<Rightarrow> Inl (ImportError n m)
           | Some (Inl e) \<Rightarrow> Inl e
           | Some (Inr _) \<Rightarrow> Inr (PyModule (m @ ''.'' @ n))))"

text \<open>The name a statement binds and the object it binds it to, or its exception.\<close>

fun import_binding :: "module_table \<Rightarrow> import_stmt \<Rightarrow> py_exc + string \<times> pyobj" where
  "import_binding mods (Import m) =
     py_bind (import_module mods m) (\<lambda>_. Inr (top_package m, PyModule (top_package m)))"
| "import_binding mods (ImportAs m x) =
     py_bind (import_module mods m) (\<lambda>_. Inr (x, PyModule m))"
| "import_binding mods (FromImport m n) =
     py_bind (import_module mods m) (\<lambda>ns. map_sum id (Pair n) (from_attr mods m ns n))"

definition exec_import :: "module_table \<Rightarrow> import_stmt \<Rightarrow> (unit, namespace) pyst" where
  "exec_import mods st =
     (\<lambda>g. case import_binding mods st of
            Inl e \<Rightarrow> (Inl e, g)
          | Inr (x, v) \<Rightarrow> (Inr (), g(x \<mapsto> v)))"

fun exec_imports :: "module_table \<Rightarrow> import_stmt list \<Rightarrow> (unit, namespace) pyst" where
  "exec_imports mods [] = returnE ()"
| "exec_imports mods (st # sts) = bindE (exec_import mods st) (\<lambda>_. exec_imports mods sts)"

text \<open>A table in which every module exists and defines every name it is asked for.\<close>

definition sample_modules :: module_table where
  "sample_modules m = Some (Inr (\<lambda>n. Some (PyClass m n)))"

subsection \<open>Sequences of imports\<close>

text \<open>Binding a list of (name, object) pairs in order.\<close>

definition bind_all :: "namespace \<Rightarrow> (string \<times> pyobj) list \<Rightarrow> namespace" where
  "bind_all g bs = foldl (\<lambda>g (x, v). g(x \<mapsto> v)) g bs"

lemma bind_all_simps [simp]:
  "bind_all g [] = g" "bind_all g ((x, v) # bs) = bind_all (g(x \<mapsto> v)) bs"
  by (simp_all add: bind_all_def)

lemma dom_bind_all [simp]: "dom (bind_all g bs) = dom g \<union> fst ` set bs"
proof (induction bs arbitrary: g)
  case (Cons b bs)
  obtain x v where b: "b = (x, v)" by fastforce
  have "dom (bind_all g (b # bs)) = dom (g(x \<mapsto> v)) \<union> fst ` set bs"
    by (simp only: b bind_all_simps Cons.IH)
  then show ?case by (auto simp: b)
qed simp

lemma bind_all_other [simp]: "x \<notin> fst ` set bs \<Longrightarrow> bind_all g bs x = g x"
  by (induction bs arbitrary: g) auto

lemma bind_all_bound: "x \<in> fst ` set bs \<Longrightarrow> bind_all g bs x \<noteq> None"
  using dom_bind_all [of g bs] by blast

lemma exec_imports_fst:
  "fst (exec_imports mods sts g) = map_sum id (\<lambda>_. ()) (py_map (import_binding mods) sts)"
proof (induction sts arbitrary: g)
  case (Cons st sts)
  show ?case
    using Cons.IH
    by (cases "import_binding mods st"; cases "py_map (import_binding mods) sts")
      (auto simp: bindE_apply exec_import_def split: prod.splits)
qed simp

lemma exec_imports_Inr:
  "py_map (import_binding mods) sts = Inr bs \<Longrightarrow> exec_imports mods sts g = (Inr (), bind_all g bs)"
proof (induction sts arbitrary: g bs)
  case (Cons st sts)
  from Cons.prems obtain x v bs' where bs: "bs = (x, v) # bs'"
    and st: "import_binding mods st = Inr (x, v)" and r: "py_map (import_binding mods) sts = Inr bs'"
    by (auto split: sum.splits)
  show ?case using Cons.IH [OF r] st by (simp add: bs bindE_apply exec_import_def)
qed simp

text \<open>The names a statement binds do not depend on the modules, once it succeeds.\<close>

fun stmt_name :: "import_stmt \<Rightarrow> string" where
  "stmt_name (Import m) = top_package m"
| "stmt_name (ImportAs m x) = x"
| "stmt_name (FromImport m n) = n"

lemma import_binding_name: "import_binding mods st = Inr (x, v) \<Longrightarrow> x = stmt_name st"
  by (cases st) (auto simp: py_bind_def split: sum.splits)

lemma import_bindings_names:
  "py_map (import_binding mods) sts = Inr bs \<Longrightarrow> map fst bs = map stmt_name sts"
  by (induction sts arbitrary: bs) (auto split: sum.splits dest: import_binding_name)

lemma exec_imports_dom:
  "exec_imports mods sts g = (Inr (), g') \<Longrightarrow> dom g' = dom g \<union> set (map stmt_name sts)"
proof -
  assume h: "exec_imports mods sts g = (Inr (), g')"
  then obtain bs where bs: "py_map (import_binding mods) sts = Inr bs"
    using exec_imports_fst [of mods sts g] by (cases "py_map (import_binding mods) sts") auto
  then have "g' = bind_all g bs" using h exec_imports_Inr [OF bs, of g] by simp
  then show ?thesis using import_bindings_names [OF bs] by (simp flip: set_map)
qed

end
