(* ===== verification/LogScript.thy ===== *)
theory LogScript
  imports ProcessLogs PyModule
begin



subsection \<open>The imports and the guard\<close>






end
