(* ===== verification/Loggers.thy ===== *)
theory Loggers
  imports Prelude
begin

text \<open>
  The logger registry of \<open>build_experiment_config\<close> in
  \<open>src/examples/baselines/rl_discrete/run_dqn_custom.py\<close> (lines 48--56):
  \<open>logger_dict = collections.defaultdict(loggers.InMemoryLogger)\<close> and the closure
  \<open>logger_factory(name, steps_key, task_id)\<close> that returns \<open>logger_dict[name]\<close>.
  The dictionary is an association list in insertion order, as a Python dict keeps it,
  from names to the addresses of logger objects; the heap holds, for each address, the
  data list of an \<open>InMemoryLogger\<close> (the list its \<open>write\<close> appends to). Because the
  same object is returned for the same name, every write through it is seen by every
  later lookup of that name: the registry is an aliasing structure, and its abstract
  meaning is a function from names to the values written under them.
\<close>

type_synonym addr = nat

record 'v registry =
  reg :: "(string \<times> addr) list"
  heap :: "'v list list"

definition empty_registry :: "'v registry" where
  "empty_registry = \<lparr>reg = [], heap = []\<rparr>"

text \<open>\<open>InMemoryLogger()\<close>: a new object with an empty data list, at a fresh address.\<close>

definition new_in_memory_logger :: "'v registry \<Rightarrow> addr \<times> 'v registry" where
  "new_in_memory_logger r = (length (heap r), r\<lparr>heap := heap r @ [[]]\<rparr>)"

text \<open>
  \<open>defaultdict.__getitem__\<close>: the stored object when the key is present; otherwise
  \<open>__missing__\<close> calls the default factory, stores its result under the key and
  returns it.
\<close>

definition dd_getitem :: "string \<Rightarrow> 'v registry \<Rightarrow> addr \<times> 'v registry" where
  "dd_getitem k r =
     (case map_of (reg r) k of
        Some a \<Rightarrow> (a, r)
      | None \<Rightarrow> (let (a, r') = new_in_memory_logger r in (a, r'\<lparr>reg := reg r' @ [(k, a)]\<rparr>)))"

text \<open>\<open>logger_factory\<close>: \<open>steps_key\<close> and \<open>task_id\<close> are deleted unused.\<close>

definition logger_factory ::
  "string \<Rightarrow> string option \<Rightarrow> int option \<Rightarrow> 'v registry \<Rightarrow> addr \<times> 'v registry" where
  "logger_factory name steps_key task_id = dd_getitem name"

text \<open>\<open>InMemoryLogger.write(values)\<close> appends to the object's data; \<open>.data\<close> reads it.\<close>

definition logger_write :: "addr \<Rightarrow> 'v \<Rightarrow> 'v registry \<Rightarrow> 'v registry" where
  "logger_write a v r = r\<lparr>heap := (heap r)[a := heap r ! a @ [v]]\<rparr>"

definition logger_data :: "addr \<Rightarrow> 'v registry \<Rightarrow> 'v list" where
  "logger_data a r = heap r ! a"

text \<open>
  What the clients of the factory do with it: ask for the logger of a name, or ask for
  it and write a record through it (\<open>logger_factory(name).write(values)\<close>).
\<close>

datatype 'v logger_op = GetLogger string | WriteLogger string 'v

fun reg_step :: "'v logger_op \<Rightarrow> 'v registry \<Rightarrow> 'v registry" where
  "reg_step (GetLogger n) r = snd (logger_factory n None None r)"
| "reg_step (WriteLogger n v) r =
     (let (a, r') = logger_factory n None None r in logger_write a v r')"

definition run_ops :: "'v logger_op list \<Rightarrow> 'v registry \<Rightarrow> 'v registry" where
  "run_ops ops r = fold reg_step ops r"

subsection \<open>Invariant and abstraction\<close>

text \<open>
  The invariant: the names are distinct (a dict) and the \<open>i\<close>-th name inserted owns the
  \<open>i\<close>-th object allocated, so every stored address is allocated and no two names share
  an object.
\<close>

definition registry_wf :: "'v registry \<Rightarrow> bool" where
  "registry_wf r \<longleftrightarrow> distinct (map fst (reg r)) \<and> map snd (reg r) = [0..<length (heap r)]"

text \<open>The abstract registry: the values written under each name, in order.\<close>

definition abs_reg :: "'v registry \<Rightarrow> string \<Rightarrow> 'v list" where
  "abs_reg r n = (case map_of (reg r) n of None \<Rightarrow> [] | Some a \<Rightarrow> heap r ! a)"

fun abs_step :: "'v logger_op \<Rightarrow> (string \<Rightarrow> 'v list) \<Rightarrow> (string \<Rightarrow> 'v list)" where
  "abs_step (GetLogger n) f = f"
| "abs_step (WriteLogger n v) f = f(n := f n @ [v])"

text \<open>The values written under a name by a sequence of operations.\<close>

fun written :: "string \<Rightarrow> 'v logger_op list \<Rightarrow> 'v list" where
  "written n [] = []"
| "written n (GetLogger m # ops) = written n ops"
| "written n (WriteLogger m v # ops) = (if m = n then v # written n ops else written n ops)"

subsection \<open>Lookups, writes and the invariant\<close>

lemma registry_wf_empty: "registry_wf empty_registry"
  by (simp add: registry_wf_def empty_registry_def)

lemma wf_lookup_bound:
  "registry_wf r \<Longrightarrow> map_of (reg r) k = Some a \<Longrightarrow> a < length (heap r)"
  unfolding registry_wf_def
  by (metis atLeastLessThan_iff image_eqI list.set_map map_of_SomeD set_upt snd_conv)

lemma wf_lookup_inj:
  assumes "registry_wf r" "map_of (reg r) k = Some a" "map_of (reg r) k' = Some a"
  shows "k = k'"
proof -
  from assms(1) have "distinct (map snd (reg r))" by (simp add: registry_wf_def)
  moreover have "(k, a) \<in> set (reg r)" "(k', a) \<in> set (reg r)"
    using assms(2,3) by (auto dest: map_of_SomeD)
  ultimately show ?thesis by (metis distinct_map inj_on_contraD prod.inject snd_conv)
qed

lemma dd_getitem_found: "map_of (reg r) k = Some a \<Longrightarrow> dd_getitem k r = (a, r)"
  by (simp add: dd_getitem_def)

lemma dd_getitem_missing:
  "map_of (reg r) k = None \<Longrightarrow>
   dd_getitem k r = (length (heap r), \<lparr>reg = reg r @ [(k, length (heap r))], heap = heap r @ [[]], \<dots> = registry.more r\<rparr>)"
  by (simp add: dd_getitem_def new_in_memory_logger_def)

lemma dd_getitem_wf:
  assumes "registry_wf r"
  shows "registry_wf (snd (dd_getitem k r))"
proof (cases "map_of (reg r) k")
  case None
  then have "k \<notin> fst ` set (reg r)" by (simp add: map_of_eq_None_iff)
  with assms None show ?thesis by (simp add: dd_getitem_missing registry_wf_def)
qed (simp add: dd_getitem_found assms)

lemma dd_getitem_lookup: "map_of (reg (snd (dd_getitem k r))) k = Some (fst (dd_getitem k r))"
  by (cases "map_of (reg r) k") (simp_all add: dd_getitem_found dd_getitem_missing map_add_def)

lemma dd_getitem_keeps:
  "map_of (reg r) k' = Some a \<Longrightarrow> map_of (reg (snd (dd_getitem k r))) k' = Some a"
  by (cases "map_of (reg r) k") (simp_all add: dd_getitem_found dd_getitem_missing)

lemma dd_getitem_abs:
  assumes "registry_wf r"
  shows "abs_reg (snd (dd_getitem k r)) = abs_reg r"
proof (cases "map_of (reg r) k")
  case None
  have "abs_reg (snd (dd_getitem k r)) m = abs_reg r m" for m
    using None wf_lookup_bound [OF assms, of m]
    by (auto simp: dd_getitem_missing abs_reg_def map_add_def nth_append split: option.splits)
  then show ?thesis by blast
qed (simp add: dd_getitem_found)

lemma logger_write_wf: "registry_wf r \<Longrightarrow> registry_wf (logger_write a v r)"
  by (simp add: logger_write_def registry_wf_def)

lemma logger_write_abs:
  assumes "registry_wf r" "map_of (reg r) n = Some a"
  shows "abs_reg (logger_write a v r) = (abs_reg r)(n := abs_reg r n @ [v])"
proof
  fix m
  show "abs_reg (logger_write a v r) m = ((abs_reg r)(n := abs_reg r n @ [v])) m"
  proof (cases "map_of (reg r) m")
    case (Some b)
    then have "b \<noteq> a \<or> m = n" using wf_lookup_inj [OF assms(1) Some] assms(2) by blast
    then show ?thesis using Some assms wf_lookup_bound [OF assms(1) assms(2)]
      by (auto simp: abs_reg_def logger_write_def)
  qed (use assms in \<open>auto simp: abs_reg_def logger_write_def\<close>)
qed

lemma reg_step_wf: "registry_wf r \<Longrightarrow> registry_wf (reg_step op r)"
  using dd_getitem_wf [of r]
  by (cases op) (auto simp: logger_factory_def split: prod.splits intro!: logger_write_wf
      dest: sym [THEN arg_cong [where f = snd]])

lemma reg_step_abs:
  assumes "registry_wf r"
  shows "abs_reg (reg_step op r) = abs_step op (abs_reg r)"
proof (cases op)
  case (WriteLogger n v)
  obtain a r' where d: "dd_getitem n r = (a, r')" by fastforce
  have wf': "registry_wf r'" using dd_getitem_wf [OF assms, of n] d by simp
  have lk: "map_of (reg r') n = Some a" using dd_getitem_lookup [of n r] d by simp
  have "abs_reg r' = abs_reg r" using dd_getitem_abs [OF assms, of n] d by simp
  then show ?thesis using WriteLogger d logger_write_abs [OF wf' lk]
    by (simp add: logger_factory_def)
qed (simp add: logger_factory_def dd_getitem_abs assms)

lemma run_ops_wf: "registry_wf r \<Longrightarrow> registry_wf (run_ops ops r)"
  unfolding run_ops_def by (induction ops arbitrary: r) (simp_all add: reg_step_wf)

lemma fold_abs_step: "fold abs_step ops f n = f n @ written n ops"
  by (induction ops arbitrary: f rule: written.induct) simp_all

lemma logger_factory_data:
  "registry_wf r \<Longrightarrow> logger_data (fst (logger_factory n k t r)) (snd (logger_factory n k t r)) = abs_reg r n"
  using dd_getitem_lookup [of n r] dd_getitem_abs [of r n]
  by (metis abs_reg_def logger_data_def logger_factory_def option.simps(5))

lemma run_ops_abs:
  "registry_wf r \<Longrightarrow> abs_reg (run_ops ops r) = fold abs_step ops (abs_reg r)"
  unfolding run_ops_def by (induction ops arbitrary: r) (simp_all add: reg_step_abs reg_step_wf)

lemma abs_reg_empty: "abs_reg empty_registry = (\<lambda>_. [])"
  by (rule ext) (simp add: abs_reg_def empty_registry_def)

text \<open>C9: the registry refines its abstract meaning: from a well-formed registry, every sequence of lookups and writes keeps it well-formed, and what it records under each name is what the abstract map of names to written values records.\<close>

theorem run_ops_refines:
  "registry_wf r \<Longrightarrow>
   registry_wf (run_ops ops r) \<and> abs_reg (run_ops ops r) = fold abs_step ops (abs_reg r)"
  by (simp add: run_ops_wf run_ops_abs)

text \<open>C8: after any sequence of lookups and writes from the empty \<open>defaultdict\<close>, the logger \<open>logger_factory(name)\<close> returns holds exactly the values written under that name, in order: writes reach the shared object and writes under other names do not.\<close>

theorem logger_factory_written:
  "logger_data (fst (logger_factory n k t (run_ops ops empty_registry)))
               (snd (logger_factory n k t (run_ops ops empty_registry))) = written n ops"
  using run_ops_wf [OF registry_wf_empty, of ops]
  by (simp add: logger_factory_data run_ops_abs registry_wf_empty abs_reg_empty fold_abs_step)

text \<open>C27: asking twice for the same name returns the same object and leaves the registry unchanged the second time, whatever \<open>steps_key\<close> and \<open>task_id\<close> are.\<close>

theorem logger_factory_alias:
  "logger_factory n k t (snd (logger_factory n k' t' r)) =
   (fst (logger_factory n k' t' r), snd (logger_factory n k' t' r))"
  using dd_getitem_lookup [of n r] by (simp add: logger_factory_def dd_getitem_found)

text \<open>C28: in a well-formed registry, different names get different logger objects.\<close>

theorem logger_factory_distinct:
  assumes "registry_wf r" "n \<noteq> m"
  shows "fst (logger_factory m k t (snd (logger_factory n k' t' r))) \<noteq> fst (logger_factory n k' t' r)"
  unfolding logger_factory_def
proof
  let ?r1 = "snd (dd_getitem n r)" and ?a = "fst (dd_getitem n r)"
  let ?r2 = "snd (dd_getitem m ?r1)"
  assume eq: "fst (dd_getitem m ?r1) = ?a"
  have "registry_wf ?r2" by (rule dd_getitem_wf [OF dd_getitem_wf [OF assms(1)]])
  moreover have "map_of (reg ?r2) m = Some ?a"
    using dd_getitem_lookup [of m ?r1] eq by simp
  moreover have "map_of (reg ?r2) n = Some ?a"
    by (rule dd_getitem_keeps [OF dd_getitem_lookup])
  ultimately have "m = n" by (rule wf_lookup_inj)
  with assms(2) show False by simp
qed

theorem run_ops_refines_witness:
  "registry_wf (run_ops [WriteLogger ''evaluator'' (1::int), GetLogger ''learner''] empty_registry) \<and>
   abs_reg (run_ops [WriteLogger ''evaluator'' (1::int), GetLogger ''learner''] empty_registry) =
   fold abs_step [WriteLogger ''evaluator'' 1, GetLogger ''learner''] (abs_reg empty_registry)"
  by (rule run_ops_refines [OF registry_wf_empty])

theorem logger_factory_distinct_witness:
  "fst (logger_factory ''learner'' None None (snd (logger_factory ''evaluator'' None None (empty_registry :: int registry))))
   \<noteq> fst (logger_factory ''evaluator'' None None (empty_registry :: int registry))"
  using logger_factory_distinct [OF registry_wf_empty, of "''evaluator''" "''learner''"] by simp

end
