(* ===== verification/DqnExperiment.thy ===== *)
theory DqnExperiment
  imports Complex_Main Loggers PyModule
begin

text \<open>
  \<open>src/examples/baselines/rl_discrete/run_dqn_custom.py\<close>: the command-line flags
  (lines 28--35), \<open>build_experiment_config\<close> (lines 38--81) and \<open>main\<close> (lines 84--100).
  The objects of the external framework (the Atari environment, the DQN builder and
  config, the Q-learning loss, the experiment config) are records of the arguments the
  script passes to their constructors; numeric hyperparameters are exact rationals
  (the binary64 rounding of the literals is not modelled). Calls into the external
  launcher and runner are events of a trace, and their outcome (they return, raise,
  or never return) is a parameter of \<open>main\<close>, as is the answer of
  \<open>lp_utils.is_local_run()\<close>. The logger registry built inside
  \<open>build_experiment_config\<close> is the theory \<open>Loggers\<close>; line 79, which would pass
  it on, is commented out, so the experiment keeps the framework's default logger
  factory.
\<close>

subsection \<open>Flags\<close>

record flags =
  flag_run_distributed :: bool
  flag_env_name :: string
  flag_seed :: int
  flag_num_steps :: int

definition default_env_name :: string where
  "default_env_name = ''BeamRider''"

definition flag_defaults :: flags where
  "flag_defaults = \<lparr>flag_run_distributed = True, flag_env_name = default_env_name,
                    flag_seed = 0, flag_num_steps = 10000000\<rparr>"

subsection \<open>The configuration objects\<close>

text \<open>\<open>dqn.DQNConfig\<close>, with the fields the script sets.\<close>

record dqn_config =
  discount :: rat
  eval_epsilon :: rat
  learning_rate :: rat
  n_step :: int
  epsilon :: rat
  target_update_period :: int
  min_replay_size :: int
  max_replay_size :: int
  samples_per_insert :: rat
  batch_size :: int

text \<open>\<open>losses.QLearning(discount, max_abs_reward)\<close>.\<close>

record q_learning =
  q_discount :: rat
  max_abs_reward :: rat

text \<open>\<open>dqn.DQNBuilder(config, loss_fn=...)\<close>.\<close>

record dqn_builder =
  builder_config :: dqn_config
  loss_fn :: q_learning

text \<open>The environment \<open>helpers.make_atari_environment\<close> builds, by its arguments.\<close>

datatype atari_env = AtariEnvironment (level: string) (sticky_actions: bool)
  (zero_discount_on_life_loss: bool)

datatype network_factory = MakeDqnAtariNetwork

datatype logger_factory_ref = MakeExperimentLogger | ScriptLoggerFactory

text \<open>\<open>experiments.ExperimentConfig\<close>; \<open>logger_factory\<close> keeps its default,
  \<open>experiment_utils.make_experiment_logger\<close>, unless it is passed.\<close>

record experiment_config =
  builder :: dqn_builder
  environment_factory :: "int \<Rightarrow> atari_env"
  exp_network_factory :: network_factory
  exp_logger_factory :: logger_factory_ref
  seed :: int
  max_num_actor_steps :: int

subsection \<open>\<open>build_experiment_config\<close>\<close>

text \<open>\<open>env_factory(seed)\<close>: the seed is deleted unused.\<close>

definition env_factory :: "string \<Rightarrow> int \<Rightarrow> atari_env" where
  "env_factory env_name s = AtariEnvironment env_name True False"

definition script_dqn_config :: dqn_config where
  "script_dqn_config =
     \<lparr>discount = 99 / 100, eval_epsilon = 0, learning_rate = 5 / 100000, n_step = 1,
      epsilon = 1 / 100, target_update_period = 2000, min_replay_size = 20000,
      max_replay_size = 1000000, samples_per_insert = 8, batch_size = 32\<rparr>"

definition script_loss :: "dqn_config \<Rightarrow> q_learning" where
  "script_loss config = \<lparr>q_discount = discount config, max_abs_reward = 1\<rparr>"

definition build_experiment_config :: "flags \<Rightarrow> experiment_config" where
  "build_experiment_config fl =
     (let env_name = flag_env_name fl;
          config = script_dqn_config;
          loss = script_loss config;
          dqn_builder = \<lparr>builder_config = config, loss_fn = loss\<rparr>
      in \<lparr>builder = dqn_builder, environment_factory = env_factory env_name,
          exp_network_factory = MakeDqnAtariNetwork, exp_logger_factory = MakeExperimentLogger,
          seed = flag_seed fl, max_num_actor_steps = flag_num_steps fl\<rparr>)"

subsection \<open>\<open>main\<close>\<close>

text \<open>The calls \<open>main\<close> makes into the framework, in the order Python evaluates them.\<close>

datatype event =
    IsLocalRun
  | MakeDistributedExperiment experiment_config nat
  | MakeXmDockerResources
  | LaunchProgram
  | RunExperiment experiment_config

text \<open>How the blocking call (\<open>lp.launch\<close> or \<open>experiments.run_experiment\<close>) ends.\<close>

datatype ext_outcome = ExtReturns | ExtRaises py_exc | ExtBlocks

datatype main_result = MainReturned | MainRaised py_exc | MainBlocked

text \<open>
  Lines 94--100, reached when the blocking call returns. The globals they read, in
  the order Python evaluates them, are \<open>pd\<close> and \<open>logger_dict\<close> (line 94) and
  \<open>plt\<close> (line 95); \<open>df\<close> is local. \<open>main\<close> looks them up in the namespace
  \<open>g\<close> of its module, and the first that is unbound raises \<open>NameError\<close>. Once all
  three are bound, the calls into \<open>pandas\<close> and \<open>matplotlib\<close> are not modelled
  and are taken to return.
\<close>

definition tail_globals :: "string list" where
  "tail_globals = [''pd'', ''logger_dict'', ''plt'']"

definition main_tail :: "namespace \<Rightarrow> main_result" where
  "main_tail g =
     (case filter (\<lambda>n. g n = None) tail_globals of
        n # _ \<Rightarrow> MainRaised (NameError n)
      | [] \<Rightarrow> MainReturned)"

definition after_call :: "ext_outcome \<Rightarrow> main_result \<Rightarrow> main_result" where
  "after_call x k = (case x of ExtReturns \<Rightarrow> k | ExtRaises e \<Rightarrow> MainRaised e | ExtBlocks \<Rightarrow> MainBlocked)"

definition main :: "namespace \<Rightarrow> flags \<Rightarrow> bool \<Rightarrow> ext_outcome \<Rightarrow> main_result \<times> event list" where
  "main g fl is_local x =
     (let experiment_config = build_experiment_config fl
      in if flag_run_distributed fl then
           (let num_actors = (if is_local then 128 else 128)
            in (after_call x (main_tail g),
                [IsLocalRun, MakeDistributedExperiment experiment_config num_actors,
                 MakeXmDockerResources, LaunchProgram]))
         else (after_call x (main_tail g), [RunExperiment experiment_config]))"

subsection \<open>\<open>app.run(main)\<close>\<close>

text \<open>
  Line 104: \<open>absl.app.run\<close> parses the command line into the flags (a parse
  error prints the usage and exits with status 1) and calls \<open>main\<close> of the module
  whose globals are \<open>g\<close>; a normal return becomes \<open>sys.exit(None)\<close>, status 0,
  and an exception escapes with its traceback (status 1). The parse result is the
  parameter \<open>parsed\<close>.
\<close>

datatype script_outcome = ExitStatus nat | Traceback py_exc | StillRunning

definition run_script :: "namespace \<Rightarrow> flags option \<Rightarrow> bool \<Rightarrow> ext_outcome \<Rightarrow> script_outcome \<times> event list" where
  "run_script g parsed is_local x =
     (case parsed of
        None \<Rightarrow> (ExitStatus 1, [])
      | Some fl \<Rightarrow>
          (case main g fl is_local x of
             (MainReturned, tr) \<Rightarrow> (ExitStatus 0, tr)
           | (MainRaised e, tr) \<Rightarrow> (Traceback e, tr)
           | (MainBlocked, tr) \<Rightarrow> (StillRunning, tr)))"

subsection \<open>The configuration and the dispatch\<close>

lemma build_fields [simp]:
  "seed (build_experiment_config fl) = flag_seed fl"
  "max_num_actor_steps (build_experiment_config fl) = flag_num_steps fl"
  "environment_factory (build_experiment_config fl) = env_factory (flag_env_name fl)"
  "builder (build_experiment_config fl) = \<lparr>builder_config = script_dqn_config, loss_fn = script_loss script_dqn_config\<rparr>"
  "exp_network_factory (build_experiment_config fl) = MakeDqnAtariNetwork"
  "exp_logger_factory (build_experiment_config fl) = MakeExperimentLogger"
  by (simp_all add: build_experiment_config_def)

lemma main_tail_pd: "g ''pd'' = None \<Longrightarrow> main_tail g = MainRaised (NameError ''pd'')"
  by (simp add: main_tail_def tail_globals_def)

lemma run_script_snd:
  "snd (run_script g (Some fl) is_local x) = snd (main g fl is_local x)"
  by (simp add: run_script_def split: prod.splits main_result.splits)

lemma main_fst:
  "fst (main g fl is_local x) = after_call x (main_tail g)"
  by (simp add: main_def Let_def)

lemma run_script_fst:
  "fst (run_script g parsed is_local x) =
     (case parsed of None \<Rightarrow> ExitStatus 1 | Some fl \<Rightarrow>
       (case after_call x (main_tail g) of
          MainReturned \<Rightarrow> ExitStatus 0 | MainRaised e \<Rightarrow> Traceback e | MainBlocked \<Rightarrow> StillRunning))"
proof (cases parsed)
  case (Some fl)
  obtain r tr where m: "main g fl is_local x = (r, tr)" by fastforce
  then have "r = after_call x (main_tail g)" using main_fst [of g fl is_local x] by simp
  then show ?thesis using Some m by (simp add: run_script_def split: main_result.split)
qed (simp add: run_script_def)

text \<open>C18: \<open>build_experiment_config\<close> is a pure mapping of exactly the flags it reads: two flag settings give the same experiment config if and only if they agree on the environment name, the seed and the step budget (\<open>run_distributed\<close> plays no part).\<close>

theorem build_experiment_config_inputs:
  "build_experiment_config f = build_experiment_config g \<longleftrightarrow>
   flag_env_name f = flag_env_name g \<and> flag_seed f = flag_seed g \<and> flag_num_steps f = flag_num_steps g"
proof
  assume eq: "build_experiment_config f = build_experiment_config g"
  then have "env_factory (flag_env_name f) 0 = env_factory (flag_env_name g) 0"
    by (metis build_fields(3))
  then show "flag_env_name f = flag_env_name g \<and> flag_seed f = flag_seed g \<and> flag_num_steps f = flag_num_steps g"
    using arg_cong [OF eq, of seed] arg_cong [OF eq, of max_num_actor_steps]
    by (simp add: env_factory_def)
qed (simp add: build_experiment_config_def)

text \<open>The environment factory ignores its seed.\<close>

lemma env_factory_ignores_seed:
  "environment_factory (build_experiment_config fl) s =
   AtariEnvironment (flag_env_name fl) True False"
  by (simp add: env_factory_def)

text \<open>The agent config the script builds satisfies the data model of the spec: a discount in \<open>[0, 1]\<close> that the Q-learning loss shares, a positive batch size and n-step, an exploration rate in \<open>[0, 1]\<close>, and a replay minimum below its maximum.\<close>

theorem dqn_config_sane:
  "let c = builder_config (builder (build_experiment_config fl))
   in 0 \<le> discount c \<and> discount c \<le> 1 \<and> q_discount (loss_fn (builder (build_experiment_config fl))) = discount c
      \<and> 0 < batch_size c \<and> 0 < n_step c \<and> min_replay_size c \<le> max_replay_size c
      \<and> 0 \<le> epsilon c \<and> epsilon c \<le> 1"
  by (simp add: script_dqn_config_def script_loss_def)


text \<open>With the default flags \<open>main\<close> launches a distributed BeamRider experiment.\<close>

lemma main_defaults:
  "snd (main g flag_defaults is_local x) =
     [IsLocalRun, MakeDistributedExperiment (build_experiment_config flag_defaults) 128,
      MakeXmDockerResources, LaunchProgram] \<and>
   environment_factory (build_experiment_config flag_defaults) 0 = AtariEnvironment ''BeamRider'' True False \<and>
   seed (build_experiment_config flag_defaults) = 0 \<and>
   max_num_actor_steps (build_experiment_config flag_defaults) = 10000000"
  by (simp add: main_def flag_defaults_def default_env_name_def env_factory_def)

end
