(* ===== verification/DqnScript.thy ===== *)
theory DqnScript
  imports DqnExperiment
begin

text \<open>
  The module \<open>src/examples/baselines/rl_discrete/run_dqn_custom.py\<close> as Python runs
  it, top to bottom: the docstring (line 15), the eleven import statements
  (lines 16--26), \<open>env_name = 'BeamRider'\<close> (line 28), the four flag definitions
  (lines 29--35), the two \<open>def\<close> statements (lines 38 and 84), and the guard
  \<open>if __name__ == '__main__': app.run(main)\<close> (lines 103--104). Its state is the
  module's globals and \<open>absl\<close>'s process-wide flag registry \<open>FLAGS\<close>, which maps a
  flag name to the module that defined it and its default. \<open>flags.DEFINE_*\<close>
  registers the flag (\<open>FlagValues.__setitem__\<close>: a name already defined by another
  module raises \<open>DuplicateFlagError\<close>; one defined by a module of the same name, an
  earlier instance of this one, is left as it is) and returns a \<open>FlagHolder\<close>.
  The libraries the module imports are a module table (theory \<open>PyModule\<close>); the
  flags they define are the registry the module starts from.
\<close>

subsection \<open>Module state\<close>

datatype flag_default = BoolFlag bool | StringFlag pyobj | IntegerFlag int

type_synonym flag_registry = "string \<rightharpoonup> string \<times> flag_default"

record module_state =
  globals :: namespace
  flag_reg :: flag_registry

definition on_globals :: "(unit, namespace) pyst \<Rightarrow> (unit, module_state) pyst" where
  "on_globals m = (\<lambda>s. case m (globals s) of (r, g) \<Rightarrow> (r, s\<lparr>globals := g\<rparr>))"

definition set_global :: "string \<Rightarrow> pyobj \<Rightarrow> (unit, module_state) pyst" where
  "set_global x v = modifyE (\<lambda>s. s\<lparr>globals := (globals s)(x \<mapsto> v)\<rparr>)"

text \<open>\<open>LOAD_GLOBAL\<close>: an unbound name raises \<open>NameError\<close> (none of the names the
  module reads is a builtin).\<close>

definition get_global :: "string \<Rightarrow> (pyobj, module_state) pyst" where
  "get_global x = (\<lambda>s. case globals s x of None \<Rightarrow> (Inl (NameError x), s) | Some v \<Rightarrow> (Inr v, s))"

subsection \<open>\<open>flags.DEFINE_*\<close>\<close>

definition register_flag :: "string \<Rightarrow> string \<Rightarrow> flag_default \<Rightarrow> (unit, module_state) pyst" where
  "register_flag modname name d =
     (\<lambda>s. case flag_reg s name of
            None \<Rightarrow> (Inr (), s\<lparr>flag_reg := (flag_reg s)(name \<mapsto> (modname, d))\<rparr>)
          | Some (m, _) \<Rightarrow>
              if m = modname then (Inr (), s) else (Inl (DuplicateFlagError name m modname), s))"

text \<open>\<open>VAR = flags.DEFINE_x(name, default, help)\<close>: the global \<open>flags\<close> is read, then
  the default is evaluated, the flag registered and its holder bound to \<open>VAR\<close>.\<close>

definition define_flag ::
  "string \<Rightarrow> string \<Rightarrow> string \<Rightarrow> (flag_default, module_state) pyst \<Rightarrow> (unit, module_state) pyst" where
  "define_flag modname var name dflt =
     bindE (get_global ''flags'') (\<lambda>_.
     bindE dflt (\<lambda>d.
     bindE (register_flag modname name d) (\<lambda>_.
     set_global var (PyFlagHolder name))))"

subsection \<open>The module body\<close>

definition dqn_doc :: string where
  "dqn_doc = ''Example running DQN on discrete control tasks.''"

definition dqn_imports :: "import_stmt list" where
  "dqn_imports =
     [FromImport ''typing'' ''Optional'', FromImport ''absl'' ''flags'',
      FromImport ''acme.agents.jax'' ''dqn'', FromImport ''acme.agents.jax.dqn'' ''losses'',
      Import ''helpers'', FromImport ''absl'' ''app'', FromImport ''acme.jax'' ''experiments'',
      FromImport ''acme.utils'' ''lp_utils'', ImportAs ''launchpad'' ''lp'', Import ''collections'',
      FromImport ''acme.utils'' ''loggers'']"

text \<open>Lines 29--35: the four flag definitions, in order.\<close>

definition dqn_flag_defs :: "string \<Rightarrow> (unit, module_state) pyst" where
  "dqn_flag_defs modname =
     bindE (define_flag modname ''RUN_DISTRIBUTED'' ''run_distributed'' (returnE (BoolFlag True))) (\<lambda>_.
     bindE (define_flag modname ''ENV_NAME'' ''env_name''
              (bindE (get_global ''env_name'') (\<lambda>v. returnE (StringFlag v)))) (\<lambda>_.
     bindE (define_flag modname ''SEED'' ''seed'' (returnE (IntegerFlag 0))) (\<lambda>_.
     define_flag modname ''NUM_STEPS'' ''num_steps'' (returnE (IntegerFlag 10000000)))))"

definition dqn_module_body :: "module_table \<Rightarrow> string \<Rightarrow> (unit, module_state) pyst" where
  "dqn_module_body mods modname =
     bindE (set_global ''__doc__'' (PyStr dqn_doc)) (\<lambda>_.
     bindE (on_globals (exec_imports mods dqn_imports)) (\<lambda>_.
     bindE (set_global ''env_name'' (PyStr default_env_name)) (\<lambda>_.
     bindE (dqn_flag_defs modname) (\<lambda>_.
     bindE (set_global ''build_experiment_config'' (PyFunction ''build_experiment_config'')) (\<lambda>_.
     set_global ''main'' (PyFunction ''main''))))))"

text \<open>Running the module under the name \<open>modname\<close>, from the flag registry \<open>fr\<close>.\<close>

definition dqn_module :: "module_table \<Rightarrow> string \<Rightarrow> flag_registry \<Rightarrow> (py_exc + unit) \<times> module_state" where
  "dqn_module mods modname fr =
     dqn_module_body mods modname \<lparr>globals = [''__name__'' \<mapsto> PyStr modname], flag_reg = fr\<rparr>"

text \<open>
  \<open>python run_dqn_custom.py\<close>: the module runs as \<open>__main__\<close>; an exception of its
  body ends the process with its traceback; otherwise the guard of line 103 is tested
  and \<open>app.run(main)\<close> runs with the module's globals (\<open>run_script\<close>).
\<close>

definition dqn_script ::
  "module_table \<Rightarrow> flag_registry \<Rightarrow> flags option \<Rightarrow> bool \<Rightarrow> ext_outcome \<Rightarrow> script_outcome \<times> event list" where
  "dqn_script mods fr parsed is_local x =
     (case dqn_module mods ''__main__'' fr of
        (Inl e, _) \<Rightarrow> (Traceback e, [])
      | (Inr _, s) \<Rightarrow>
          if globals s ''__name__'' = Some (PyStr ''__main__'')
          then run_script (globals s) parsed is_local x
          else (ExitStatus 0, []))"

text \<open>The defaults \<open>FLAGS.name.value\<close> has when the command line sets no flag.\<close>

definition registered_defaults :: "flag_registry \<Rightarrow> flags option" where
  "registered_defaults fr =
     (case (fr ''run_distributed'', fr ''env_name'', fr ''seed'', fr ''num_steps'') of
        (Some (_, BoolFlag b), Some (_, StringFlag (PyStr e)), Some (_, IntegerFlag sd),
         Some (_, IntegerFlag n)) \<Rightarrow>
          Some \<lparr>flag_run_distributed = b, flag_env_name = e, flag_seed = sd, flag_num_steps = n\<rparr>
      | _ \<Rightarrow> None)"

text \<open>Whether registering \<open>name\<close> from module \<open>modname\<close> clashes with the registry.\<close>

definition flag_clash :: "flag_registry \<Rightarrow> string \<Rightarrow> string \<Rightarrow> bool" where
  "flag_clash fr modname name \<longleftrightarrow> (case fr name of None \<Rightarrow> False | Some (m, _) \<Rightarrow> m \<noteq> modname)"

definition dqn_flag_names :: "string list" where
  "dqn_flag_names = [''run_distributed'', ''env_name'', ''seed'', ''num_steps'']"

subsection \<open>Running the body\<close>

lemma dqn_import_names:
  "map stmt_name dqn_imports = [''Optional'', ''flags'', ''dqn'', ''losses'', ''helpers'', ''app'',
     ''experiments'', ''lp_utils'', ''lp'', ''collections'', ''loggers'']"
  by (simp add: dqn_imports_def top_package_def)

lemma define_flag_apply:
  "globals s ''flags'' \<noteq> None \<Longrightarrow> dflt s = (Inr d, s) \<Longrightarrow>
   define_flag m var n dflt s =
     (case flag_reg s n of
        None \<Rightarrow> (Inr (), s\<lparr>flag_reg := (flag_reg s)(n \<mapsto> (m, d)), globals := (globals s)(var \<mapsto> PyFlagHolder n)\<rparr>)
      | Some (m', _) \<Rightarrow>
          if m' = m then (Inr (), s\<lparr>globals := (globals s)(var \<mapsto> PyFlagHolder n)\<rparr>)
          else (Inl (DuplicateFlagError n m' m), s))"
  by (auto simp: define_flag_def get_global_def register_flag_def bindE_apply set_global_def
      split: option.splits prod.splits)

text \<open>One flag definition: a clash raises, otherwise the name is registered unless this
  module's name already holds it, and the holder is bound.\<close>

lemma define_flag_step:
  assumes "globals s ''flags'' \<noteq> None" "dflt s = (Inr d, s)"
  shows "define_flag m var n dflt s =
     (if flag_clash (flag_reg s) m n
      then (Inl (DuplicateFlagError n (fst (the (flag_reg s n))) m), s)
      else (Inr (), s\<lparr>flag_reg := (flag_reg s)(n := Some (case flag_reg s n of None \<Rightarrow> (m, d) | Some md \<Rightarrow> md)),
                    globals := (globals s)(var \<mapsto> PyFlagHolder n)\<rparr>))"
  using assms by (cases "flag_reg s n") (auto simp: define_flag_apply flag_clash_def fun_upd_idem)

lemma define_flag_returnE:
  "globals s ''flags'' \<noteq> None \<Longrightarrow>
   define_flag m var n (returnE d) s =
     (if flag_clash (flag_reg s) m n
      then (Inl (DuplicateFlagError n (fst (the (flag_reg s n))) m), s)
      else (Inr (), s\<lparr>flag_reg := (flag_reg s)(n := Some (case flag_reg s n of None \<Rightarrow> (m, d) | Some md \<Rightarrow> md)),
                    globals := (globals s)(var \<mapsto> PyFlagHolder n)\<rparr>))"
  by (rule define_flag_step) simp_all

lemma define_flag_read:
  "globals s ''flags'' \<noteq> None \<Longrightarrow> globals s x \<noteq> None \<Longrightarrow>
   define_flag m var n (bindE (get_global x) (\<lambda>v. returnE (StringFlag v))) s =
     (if flag_clash (flag_reg s) m n
      then (Inl (DuplicateFlagError n (fst (the (flag_reg s n))) m), s)
      else (Inr (), s\<lparr>flag_reg := (flag_reg s)(n := Some (case flag_reg s n of
                                  None \<Rightarrow> (m, StringFlag (the (globals s x))) | Some md \<Rightarrow> md)),
                    globals := (globals s)(var \<mapsto> PyFlagHolder n)\<rparr>))"
  by (rule define_flag_step) (auto simp: get_global_def bindE_apply)

lemma flag_clash_upd_other [simp]: "k \<noteq> n \<Longrightarrow> flag_clash (fr(n := z)) m k = flag_clash fr m k"
  by (simp add: flag_clash_def)

lemmas define_flag_simps = define_flag_returnE define_flag_read

lemma dqn_flag_defs_fst:
  assumes "globals s ''flags'' \<noteq> None" "globals s ''env_name'' \<noteq> None"
  shows "fst (dqn_flag_defs m s) =
     (case find (flag_clash (flag_reg s) m) dqn_flag_names of
        None \<Rightarrow> Inr ()
      | Some n \<Rightarrow> Inl (DuplicateFlagError n (fst (the (flag_reg s n))) m))"
  using assms by (simp add: dqn_flag_defs_def bindE_apply define_flag_simps dqn_flag_names_def)

lemma dqn_flag_defs_globals:
  assumes "globals s ''flags'' \<noteq> None" "globals s ''env_name'' \<noteq> None"
    and "dqn_flag_defs m s = (Inr u, s')"
  shows "globals s' = (globals s)(''RUN_DISTRIBUTED'' \<mapsto> PyFlagHolder ''run_distributed'',
           ''ENV_NAME'' \<mapsto> PyFlagHolder ''env_name'', ''SEED'' \<mapsto> PyFlagHolder ''seed'',
           ''NUM_STEPS'' \<mapsto> PyFlagHolder ''num_steps'')"
  using assms by (auto simp: dqn_flag_defs_def bindE_apply define_flag_simps split: if_splits)

lemma dqn_flag_defs_fresh:
  assumes "globals s ''flags'' \<noteq> None" "globals s ''env_name'' = Some v"
    and "\<forall>n \<in> set dqn_flag_names. flag_reg s n = None"
  shows "flag_reg (snd (dqn_flag_defs m s)) =
           (flag_reg s)(''run_distributed'' \<mapsto> (m, BoolFlag True), ''env_name'' \<mapsto> (m, StringFlag v),
             ''seed'' \<mapsto> (m, IntegerFlag 0), ''num_steps'' \<mapsto> (m, IntegerFlag 10000000))"
  using assms
  by (simp add: dqn_flag_defs_def bindE_apply define_flag_simps dqn_flag_names_def flag_clash_def)

subsection \<open>Running the module\<close>

lemma dqn_import_stmt_names:
  "py_map (import_binding mods) dqn_imports = Inr bs \<Longrightarrow>
   fst ` set bs = {''Optional'', ''flags'', ''dqn'', ''losses'', ''helpers'', ''app'',
     ''experiments'', ''lp_utils'', ''lp'', ''collections'', ''loggers''}"
  using import_bindings_names [of mods dqn_imports bs] by (simp add: dqn_import_names flip: set_map)

text \<open>The globals when the flag definitions start.\<close>

definition dqn_globals_before_flags :: "string \<Rightarrow> (string \<times> pyobj) list \<Rightarrow> namespace" where
  "dqn_globals_before_flags m bs =
     (bind_all [''__name__'' \<mapsto> PyStr m, ''__doc__'' \<mapsto> PyStr dqn_doc] bs)(''env_name'' \<mapsto> PyStr default_env_name)"

lemma dqn_module_imports_Inl:
  "py_map (import_binding mods) dqn_imports = Inl e \<Longrightarrow>
   fst (dqn_module mods m fr) = Inl e \<and> flag_reg (snd (dqn_module mods m fr)) = fr"
  using exec_imports_fst [of mods dqn_imports "[''__name__'' \<mapsto> PyStr m, ''__doc__'' \<mapsto> PyStr dqn_doc]"]
  by (auto simp: dqn_module_def dqn_module_body_def bindE_apply set_global_def on_globals_def
      split: prod.splits sum.splits)

lemma dqn_module_imports_Inr:
  assumes "py_map (import_binding mods) dqn_imports = Inr bs"
  shows "dqn_module mods m fr =
    (case dqn_flag_defs m \<lparr>globals = dqn_globals_before_flags m bs, flag_reg = fr\<rparr> of
       (Inl e, s') \<Rightarrow> (Inl e, s')
     | (Inr _, s') \<Rightarrow> (Inr (), s'\<lparr>globals := (globals s')(''build_experiment_config'' \<mapsto>
           PyFunction ''build_experiment_config'', ''main'' \<mapsto> PyFunction ''main'')\<rparr>))"
  using exec_imports_Inr [OF assms, of "[''__name__'' \<mapsto> PyStr m, ''__doc__'' \<mapsto> PyStr dqn_doc]"]
  by (simp add: dqn_module_def dqn_module_body_def bindE_apply set_global_def on_globals_def
      dqn_globals_before_flags_def split: prod.splits sum.splits)

lemma dqn_globals_before_flags_bound:
  assumes "py_map (import_binding mods) dqn_imports = Inr bs"
  shows "dqn_globals_before_flags m bs ''flags'' \<noteq> None"
    "dqn_globals_before_flags m bs ''env_name'' = Some (PyStr default_env_name)"
  using bind_all_bound [of "''flags''" bs] dqn_import_stmt_names [OF assms]
  by (simp_all add: dqn_globals_before_flags_def)


lemma dqn_module_Inr_globals:
  assumes "dqn_module mods m fr = (Inr u, s)"
  shows "\<exists>bs. py_map (import_binding mods) dqn_imports = Inr bs \<and>
           globals s = (dqn_globals_before_flags m bs)(''RUN_DISTRIBUTED'' \<mapsto> PyFlagHolder ''run_distributed'',
             ''ENV_NAME'' \<mapsto> PyFlagHolder ''env_name'', ''SEED'' \<mapsto> PyFlagHolder ''seed'',
             ''NUM_STEPS'' \<mapsto> PyFlagHolder ''num_steps'',
             ''build_experiment_config'' \<mapsto> PyFunction ''build_experiment_config'', ''main'' \<mapsto> PyFunction ''main'')"
proof (cases "py_map (import_binding mods) dqn_imports")
  case (Inl e)
  then show ?thesis using dqn_module_imports_Inl [OF Inl, of m fr] assms by simp
next
  case (Inr bs)
  let ?s1 = "\<lparr>globals = dqn_globals_before_flags m bs, flag_reg = fr\<rparr>"
  obtain r s' where d: "dqn_flag_defs m ?s1 = (r, s')" by fastforce
  then obtain u' where r: "r = Inr u'" and s: "s = s'\<lparr>globals := (globals s')(''build_experiment_config'' \<mapsto>
           PyFunction ''build_experiment_config'', ''main'' \<mapsto> PyFunction ''main'')\<rparr>"
    using assms dqn_module_imports_Inr [OF Inr, of m fr] by (cases r) auto
  have "globals s' = (dqn_globals_before_flags m bs)(''RUN_DISTRIBUTED'' \<mapsto> PyFlagHolder ''run_distributed'',
           ''ENV_NAME'' \<mapsto> PyFlagHolder ''env_name'', ''SEED'' \<mapsto> PyFlagHolder ''seed'',
           ''NUM_STEPS'' \<mapsto> PyFlagHolder ''num_steps'')"
    using dqn_flag_defs_globals [of ?s1 m u' s'] d r dqn_globals_before_flags_bound [OF Inr, of m] by simp
  then show ?thesis using Inr s by simp
qed

text \<open>The globals of the module once its body has run: the twenty names it binds, with
  \<open>__name__\<close> as it was set; in particular \<open>pd\<close>, \<open>logger_dict\<close> and \<open>plt\<close>
  are unbound.\<close>

lemma dqn_module_names:
  assumes "dqn_module mods m fr = (Inr u, s)"
  shows "dom (globals s) = {''main'', ''build_experiment_config'', ''NUM_STEPS'', ''SEED'', ''ENV_NAME'',
           ''RUN_DISTRIBUTED'', ''env_name'', ''__doc__'', ''__name__'', ''Optional'', ''flags'', ''dqn'',
           ''losses'', ''helpers'', ''app'', ''experiments'', ''lp_utils'', ''lp'', ''collections'', ''loggers''}"
    and "globals s ''__name__'' = Some (PyStr m)"
proof -
  obtain bs where bs: "py_map (import_binding mods) dqn_imports = Inr bs"
    and g: "globals s = (dqn_globals_before_flags m bs)(''RUN_DISTRIBUTED'' \<mapsto> PyFlagHolder ''run_distributed'',
             ''ENV_NAME'' \<mapsto> PyFlagHolder ''env_name'', ''SEED'' \<mapsto> PyFlagHolder ''seed'',
             ''NUM_STEPS'' \<mapsto> PyFlagHolder ''num_steps'',
             ''build_experiment_config'' \<mapsto> PyFunction ''build_experiment_config'', ''main'' \<mapsto> PyFunction ''main'')"
    using dqn_module_Inr_globals [OF assms] by blast
  note names = dqn_import_stmt_names [OF bs]
  show "dom (globals s) = {''main'', ''build_experiment_config'', ''NUM_STEPS'', ''SEED'', ''ENV_NAME'',
           ''RUN_DISTRIBUTED'', ''env_name'', ''__doc__'', ''__name__'', ''Optional'', ''flags'', ''dqn'',
           ''losses'', ''helpers'', ''app'', ''experiments'', ''lp_utils'', ''lp'', ''collections'', ''loggers''}"
    by (simp only: g dom_fun_upd dqn_globals_before_flags_def dom_bind_all names option.distinct
        if_False dom_empty Un_insert_left Un_empty_left)
  show "globals s ''__name__'' = Some (PyStr m)"
    using names by (simp add: g dqn_globals_before_flags_def)
qed

lemma dqn_module_tail_unbound:
  "dqn_module mods m fr = (Inr u, s) \<Longrightarrow>
   globals s ''pd'' = None \<and> globals s ''logger_dict'' = None \<and> globals s ''plt'' = None"
proof -
  assume "dqn_module mods m fr = (Inr u, s)"
  note d = dqn_module_names(1) [OF this]
  have "''pd'' \<notin> dom (globals s)" "''logger_dict'' \<notin> dom (globals s)" "''plt'' \<notin> dom (globals s)"
    unfolding d by simp_all
  then show ?thesis by (simp add: domIff)
qed


lemma dqn_module_fst:
  "fst (dqn_module mods m fr) =
     (case py_map (import_binding mods) dqn_imports of
        Inl e \<Rightarrow> Inl e
      | Inr _ \<Rightarrow> (case find (flag_clash fr m) dqn_flag_names of
                   None \<Rightarrow> Inr ()
                 | Some n \<Rightarrow> Inl (DuplicateFlagError n (fst (the (fr n))) m)))"
proof (cases "py_map (import_binding mods) dqn_imports")
  case (Inl e)
  then show ?thesis using dqn_module_imports_Inl [OF Inl] by simp
next
  case (Inr bs)
  let ?s1 = "\<lparr>globals = dqn_globals_before_flags m bs, flag_reg = fr\<rparr>"
  have "fst (dqn_module mods m fr) = fst (dqn_flag_defs m ?s1)"
    using dqn_module_imports_Inr [OF Inr, of m fr] by (simp split: prod.splits sum.splits)
  also have "\<dots> = (case find (flag_clash fr m) dqn_flag_names of
                   None \<Rightarrow> Inr ()
                 | Some n \<Rightarrow> Inl (DuplicateFlagError n (fst (the (fr n))) m))"
    using dqn_flag_defs_fst [of ?s1 m] dqn_globals_before_flags_bound [OF Inr, of m]
    by (simp split: option.split)
  finally show ?thesis using Inr by simp
qed

lemma sample_imports: "\<exists>bs. py_map (import_binding sample_modules) dqn_imports = Inr bs"
  by (simp add: dqn_imports_def sample_modules_def import_module_def module_chain_def from_attr_def
      top_package_def)

lemma sample_dqn_module: "fst (dqn_module sample_modules ''__main__'' Map.empty) = Inr ()"
  using sample_imports by (auto simp: dqn_module_fst flag_clash_def dqn_flag_names_def)

lemma dqn_script_loaded:
  "dqn_module mods ''__main__'' fr = (Inr u, s) \<Longrightarrow>
   dqn_script mods fr parsed is_local x = run_script (globals s) parsed is_local x"
  using dqn_module_names(2) [of mods "''__main__''" fr u s] by (simp add: dqn_script_def)

lemma dqn_module_loads_state:
  assumes "py_map (import_binding mods) dqn_imports = Inr bs"
    and "\<forall>n \<in> set dqn_flag_names. fr n = None"
  shows "\<exists>s. dqn_module mods m fr = (Inr (), s) \<and>
     flag_reg s = fr(''run_distributed'' \<mapsto> (m, BoolFlag True),
                     ''env_name'' \<mapsto> (m, StringFlag (PyStr ''BeamRider'')),
                     ''seed'' \<mapsto> (m, IntegerFlag 0), ''num_steps'' \<mapsto> (m, IntegerFlag 10000000)) \<and>
     registered_defaults (flag_reg s) = Some flag_defaults \<and>
     dom (globals s) = {''main'', ''build_experiment_config'', ''NUM_STEPS'', ''SEED'', ''ENV_NAME'',
           ''RUN_DISTRIBUTED'', ''env_name'', ''__doc__'', ''__name__'', ''Optional'', ''flags'', ''dqn'',
           ''losses'', ''helpers'', ''app'', ''experiments'', ''lp_utils'', ''lp'', ''collections'', ''loggers''}"
proof -
  let ?s1 = "\<lparr>globals = dqn_globals_before_flags m bs, flag_reg = fr\<rparr>"
  obtain r s' where d: "dqn_flag_defs m ?s1 = (r, s')" by fastforce
  have nc: "find (flag_clash fr m) dqn_flag_names = None"
    using assms(2) by (simp add: dqn_flag_names_def flag_clash_def)
  have r: "r = Inr ()"
    using dqn_flag_defs_fst [of ?s1 m] dqn_globals_before_flags_bound [OF assms(1), of m] d nc by simp
  have fr: "flag_reg s' = fr(''run_distributed'' \<mapsto> (m, BoolFlag True),
                     ''env_name'' \<mapsto> (m, StringFlag (PyStr ''BeamRider'')),
                     ''seed'' \<mapsto> (m, IntegerFlag 0), ''num_steps'' \<mapsto> (m, IntegerFlag 10000000))"
    using dqn_flag_defs_fresh [of ?s1 "PyStr default_env_name" m] dqn_globals_before_flags_bound [OF assms(1), of m]
      assms(2) d by (simp add: default_env_name_def)
  define s where "s = s'\<lparr>globals := (globals s')(''build_experiment_config'' \<mapsto>
           PyFunction ''build_experiment_config'', ''main'' \<mapsto> PyFunction ''main'')\<rparr>"
  have m: "dqn_module mods m fr = (Inr (), s)"
    using dqn_module_imports_Inr [OF assms(1), of m fr] d r by (simp add: s_def)
  show ?thesis
    using m dqn_module_names(1) [OF m] fr
    by (simp add: s_def registered_defaults_def flag_defaults_def default_env_name_def)
qed

subsection \<open>Loading and running the module\<close>




text \<open>C6: whatever the imported libraries define and whichever flags they registered, once
  the module body has run and the launcher or the runner returns, \<open>main\<close> raises
  \<open>NameError\<close> for \<open>pd\<close>: no statement of the module binds it.\<close>

theorem dqn_main_name_error:
  assumes "dqn_module mods m fr = (Inr u, s)"
  shows "fst (main (globals s) fl is_local ExtReturns) = MainRaised (NameError ''pd'')"
  using dqn_module_tail_unbound [OF assms]
  by (simp add: main_fst after_call_def main_tail_def tail_globals_def)

theorem dqn_main_name_error_witness:
  "\<exists>s. dqn_module sample_modules ''__main__'' Map.empty = (Inr (), s) \<and>
     fst (main (globals s) flag_defaults True ExtReturns) = MainRaised (NameError ''pd'')"
proof -
  obtain s where s: "dqn_module sample_modules ''__main__'' Map.empty = (Inr (), s)"
    using sample_dqn_module by (cases "dqn_module sample_modules ''__main__'' Map.empty") auto
  then show ?thesis using dqn_main_name_error [OF s] by blast
qed



text \<open>C34: run as a script with nothing set on the command line, so that \<open>absl\<close> gives
  \<open>main\<close> the defaults the module registered, and from a registry without its flags,
  \<open>run_dqn_custom.py\<close> launches one distributed BeamRider experiment of 128 actors with
  seed 0 and a budget of 10 000 000 actor steps.\<close>

theorem dqn_script_defaults:
  assumes "py_map (import_binding mods) dqn_imports = Inr bs"
    and "\<forall>n \<in> set dqn_flag_names. fr n = None"
  shows "\<exists>s. dqn_module mods ''__main__'' fr = (Inr (), s) \<and>
     snd (dqn_script mods fr (registered_defaults (flag_reg s)) is_local x) =
       [IsLocalRun, MakeDistributedExperiment (build_experiment_config flag_defaults) 128,
        MakeXmDockerResources, LaunchProgram] \<and>
     environment_factory (build_experiment_config flag_defaults) 0 = AtariEnvironment ''BeamRider'' True False \<and>
     seed (build_experiment_config flag_defaults) = 0 \<and>
     max_num_actor_steps (build_experiment_config flag_defaults) = 10000000"
proof -
  obtain s where m: "dqn_module mods ''__main__'' fr = (Inr (), s)"
    and d: "registered_defaults (flag_reg s) = Some flag_defaults"
    using dqn_module_loads_state [OF assms, of "''__main__''"] by blast
  show ?thesis
    using m d main_defaults [of "globals s" is_local x]
    by (simp add: dqn_script_loaded [OF m] run_script_snd)
qed

theorem dqn_script_defaults_witness:
  "\<exists>s. dqn_module sample_modules ''__main__'' Map.empty = (Inr (), s) \<and>
     snd (dqn_script sample_modules Map.empty (registered_defaults (flag_reg s)) True ExtReturns) =
       [IsLocalRun, MakeDistributedExperiment (build_experiment_config flag_defaults) 128,
        MakeXmDockerResources, LaunchProgram]"
proof -
  obtain bs where bs: "py_map (import_binding sample_modules) dqn_imports = Inr bs"
    using sample_imports by blast
  have "\<forall>n \<in> set dqn_flag_names. (Map.empty :: flag_registry) n = None" by simp
  then show ?thesis using dqn_script_defaults [OF bs, of Map.empty True ExtReturns] by blast
qed

end
