(* ===== verification/CsvFormat.thy ===== *)
theory CsvFormat
  imports Csv
begin

text \<open>
  The format of the logs the script reads, and that the reader reads it back. The
  spec describes each log as comma-separated with double-quote quoting and a header
  row; the logs are written by the framework's CSV logger with the \<open>excel\<close> dialect of
  the \<open>csv\<close> module: \<open>QUOTE_MINIMAL\<close> (a field is quoted when it holds the delimiter,
  the quote character or a line-end character; a quote inside is doubled; a row of one
  empty field is written \<open>""\<close>) and rows ended by \<open>\r\n\<close>. The reader is restated on the
  stream of inputs the line loop feeds it (\<open>stream_rows\<close>), which is how the proof
  follows a quoted field across the lines it spans.
\<close>

subsection \<open>Writing rows\<close>

definition needs_quote :: "csv_dialect \<Rightarrow> string \<Rightarrow> bool" where
  "needs_quote d f \<longleftrightarrow> list_ex (\<lambda>c. c = delimiter d \<or> c = quotechar d \<or> c = LF \<or> c = CR) f"

fun quote_chars :: "csv_dialect \<Rightarrow> string \<Rightarrow> string" where
  "quote_chars d [] = []"
| "quote_chars d (c # s) = (if c = quotechar d then [c, c] else [c]) @ quote_chars d s"

definition quoted_field :: "csv_dialect \<Rightarrow> string \<Rightarrow> string" where
  "quoted_field d f = quotechar d # quote_chars d f @ [quotechar d]"

definition fmt_field :: "csv_dialect \<Rightarrow> string \<Rightarrow> string" where
  "fmt_field d f = (if needs_quote d f then quoted_field d f else f)"

fun fmt_row :: "csv_dialect \<Rightarrow> string list \<Rightarrow> string" where
  "fmt_row d [] = []"
| "fmt_row d [f] = (if f = [] then quoted_field d [] else fmt_field d f)"
| "fmt_row d (f # g # fs) = fmt_field d f @ delimiter d # fmt_row d (g # fs)"

definition csv_write_rows :: "string list list \<Rightarrow> string" where
  "csv_write_rows rows = concat (map (\<lambda>row. fmt_row script_dialect row @ [CR, LF]) rows)"

subsection \<open>The reader on its input stream\<close>

text \<open>The inputs of the line loop for a text: a line end follows every \<open>\n\<close>.\<close>

definition ins_eol :: "string \<Rightarrow> cin list" where
  "ins_eol s = concat (map (\<lambda>c. if c = LF then [Ch LF, EOL] else [Ch c]) s)"

text \<open>\<open>reader_rows\<close> on the concatenated inputs: a record is complete when a line end
  leaves the machine in \<open>START_RECORD\<close>.\<close>

fun stream_rows :: "csv_dialect \<Rightarrow> reader \<Rightarrow> cin list \<Rightarrow> py_exc + string list list" where
  "stream_rows d r [] =
     (if rfield r \<noteq> [] \<or> rstate r = IN_QUOTED_FIELD then Inr [rfields r @ [rfield r]]
      else Inr [])"
| "stream_rows d r (c # cs) =
     (case parse_process_char d r c of
        Inl e \<Rightarrow> Inl e
      | Inr r' \<Rightarrow>
          if c = EOL \<and> rstate r' = START_RECORD
          then map_sum id (Cons (rfields r')) (stream_rows d (r'\<lparr>rfields := []\<rparr>) cs)
          else stream_rows d r' cs)"

subsection \<open>The line loop as a stream\<close>

lemma stream_rows_chars:
  "stream_rows d r (map Ch l @ cs) =
     (case process_inputs d r (map Ch l) of Inl e \<Rightarrow> Inl e | Inr r' \<Rightarrow> stream_rows d r' cs)"
  by (induction l arbitrary: r) (auto split: sum.splits)

lemma reader_rows_stream:
  "reader_rows d r ls = stream_rows d r (concat (map line_inputs ls))"
proof (induction ls arbitrary: r)
  case (Cons l ls)
  show ?case
    by (simp add: line_inputs_def stream_rows_chars process_inputs_append Cons.IH
        split: sum.splits)
qed simp

lemma ins_eol_simps [simp]:
  "ins_eol [] = []" "ins_eol (c # s) = (if c = LF then [Ch LF, EOL] else [Ch c]) @ ins_eol s"
  "ins_eol (a @ b) = ins_eol a @ ins_eol b"
  by (simp_all add: ins_eol_def)

lemma line_inputs_text_lines_acc:
  "concat (map line_inputs (text_lines_acc acc s)) =
     (if s = [] then (if acc = [] then [] else map Ch acc @ [EOL])
      else map Ch acc @ ins_eol s @ (if last s = LF then [] else [EOL]))"
  by (induction acc s rule: text_lines_acc.induct) (auto simp: line_inputs_def)

lemma line_inputs_text_lines:
  "s = [] \<or> last s = LF \<Longrightarrow> concat (map line_inputs (text_lines s)) = ins_eol s"
  by (auto simp: text_lines_def line_inputs_text_lines_acc)

subsection \<open>Reading one field, one row, all rows\<close>

lemma script_dialect_simps [simp]:
  "delimiter script_dialect = CHR '',''" "quotechar script_dialect = CHR 0x22"
  by (simp_all add: script_dialect_def)

lemma quoted_body:
  "length acc + length f \<le> field_limit \<Longrightarrow>
   stream_rows script_dialect \<lparr>rstate = IN_QUOTED_FIELD, rfields = fs, rfield = acc\<rparr>
     (ins_eol (quote_chars script_dialect f) @ rest) =
   stream_rows script_dialect \<lparr>rstate = IN_QUOTED_FIELD, rfields = fs, rfield = acc @ f\<rparr> rest"
  by (induction f arbitrary: acc) (auto simp: csv_step_defs)

lemma plain_body:
  "\<not> needs_quote script_dialect f \<Longrightarrow> length acc + length f \<le> field_limit \<Longrightarrow>
   stream_rows script_dialect \<lparr>rstate = IN_FIELD, rfields = fs, rfield = acc\<rparr> (ins_eol f @ rest) =
   stream_rows script_dialect \<lparr>rstate = IN_FIELD, rfields = fs, rfield = acc @ f\<rparr> rest"
  by (induction f arbitrary: acc) (auto simp: csv_step_defs needs_quote_def)

lemma plain_field:
  assumes "\<not> needs_quote script_dialect f" "length f \<le> field_limit"
  shows "stream_rows script_dialect \<lparr>rstate = START_FIELD, rfields = fs, rfield = []\<rparr> (ins_eol f @ rest) =
         stream_rows script_dialect
           \<lparr>rstate = if f = [] then START_FIELD else IN_FIELD, rfields = fs, rfield = f\<rparr> rest"
proof (cases f)
  case (Cons c f')
  with assms have "stream_rows script_dialect \<lparr>rstate = START_FIELD, rfields = fs, rfield = []\<rparr>
      (ins_eol f @ rest) =
      stream_rows script_dialect \<lparr>rstate = IN_FIELD, rfields = fs, rfield = [c]\<rparr> (ins_eol f' @ rest)"
    by (simp add: csv_step_defs needs_quote_def field_limit_def)
  also have "\<dots> = stream_rows script_dialect \<lparr>rstate = IN_FIELD, rfields = fs, rfield = f\<rparr> rest"
    using assms Cons by (subst plain_body) (simp_all add: needs_quote_def)
  finally show ?thesis using Cons by simp
qed simp

lemma quoted_field_read:
  assumes "length f \<le> field_limit"
  shows "stream_rows script_dialect \<lparr>rstate = START_FIELD, rfields = fs, rfield = []\<rparr>
           (ins_eol (quoted_field script_dialect f) @ rest) =
         stream_rows script_dialect \<lparr>rstate = QUOTE_IN_QUOTED_FIELD, rfields = fs, rfield = f\<rparr> rest"
proof -
  have "stream_rows script_dialect \<lparr>rstate = START_FIELD, rfields = fs, rfield = []\<rparr>
          (ins_eol (quoted_field script_dialect f) @ rest) =
        stream_rows script_dialect \<lparr>rstate = IN_QUOTED_FIELD, rfields = fs, rfield = []\<rparr>
          (ins_eol (quote_chars script_dialect f) @ Ch CHR 0x22 # rest)"
    by (simp add: quoted_field_def csv_step_defs)
  also have "\<dots> = stream_rows script_dialect \<lparr>rstate = IN_QUOTED_FIELD, rfields = fs, rfield = f\<rparr>
                     (Ch CHR 0x22 # rest)"
    using assms by (subst quoted_body) simp_all
  also have "\<dots> = stream_rows script_dialect \<lparr>rstate = QUOTE_IN_QUOTED_FIELD, rfields = fs, rfield = f\<rparr> rest"
    by (simp add: csv_step_defs)
  finally show ?thesis .
qed

lemma field_read:
  assumes "length f \<le> field_limit"
  shows "\<exists>st \<in> {START_FIELD, IN_FIELD, QUOTE_IN_QUOTED_FIELD}.
           stream_rows script_dialect \<lparr>rstate = START_FIELD, rfields = fs, rfield = []\<rparr>
             (ins_eol (fmt_field script_dialect f) @ rest) =
           stream_rows script_dialect \<lparr>rstate = st, rfields = fs, rfield = f\<rparr> rest"
proof (cases "needs_quote script_dialect f")
  case True
  then show ?thesis using quoted_field_read [OF assms] by (simp add: fmt_field_def)
next
  case False
  then show ?thesis using plain_field [OF False assms] by (simp add: fmt_field_def)
qed

lemma sep_delim:
  "st \<in> {START_FIELD, IN_FIELD, QUOTE_IN_QUOTED_FIELD} \<Longrightarrow>
   stream_rows script_dialect \<lparr>rstate = st, rfields = fs, rfield = f\<rparr> (Ch CHR '','' # rest) =
   stream_rows script_dialect \<lparr>rstate = START_FIELD, rfields = fs @ [f], rfield = []\<rparr> rest"
  by (auto simp: csv_step_defs)

lemma sep_end:
  "st \<in> {START_FIELD, IN_FIELD, QUOTE_IN_QUOTED_FIELD} \<Longrightarrow>
   stream_rows script_dialect \<lparr>rstate = st, rfields = fs, rfield = f\<rparr> (Ch LF # EOL # rest) =
   map_sum id (Cons (fs @ [f])) (stream_rows script_dialect reader_init rest)"
  by (auto simp: csv_step_defs reader_init_def)

lemma fmt_field_hd:
  "fmt_field script_dialect f = c # s \<Longrightarrow> c \<noteq> LF \<and> c \<noteq> CR"
  by (cases f) (auto simp: fmt_field_def quoted_field_def needs_quote_def split: if_splits)

lemma fmt_row_hd:
  "row \<noteq> [] \<Longrightarrow> \<exists>c s. fmt_row script_dialect row = c # s \<and> c \<noteq> LF \<and> c \<noteq> CR"
proof (induction script_dialect row rule: fmt_row.induct)
  case (2 f)
  show ?case
  proof (cases "f = []")
    case False
    then obtain c s where "fmt_field script_dialect f = c # s"
      by (cases "fmt_field script_dialect f") (auto simp: fmt_field_def quoted_field_def split: if_splits)
    with False show ?thesis by (auto dest: fmt_field_hd)
  qed (simp add: quoted_field_def)
next
  case (3 f g fs)
  then show ?case
    by (cases "fmt_field script_dialect f") (auto dest: fmt_field_hd)
qed simp

lemma start_record_Ch:
  "c \<noteq> LF \<Longrightarrow> c \<noteq> CR \<Longrightarrow>
   stream_rows d \<lparr>rstate = START_RECORD, rfields = fs, rfield = f\<rparr> (Ch c # cs) =
   stream_rows d \<lparr>rstate = START_FIELD, rfields = fs, rfield = f\<rparr> (Ch c # cs)"
  by (simp add: csv_step_defs)

lemma row_read:
  "row \<noteq> [] \<Longrightarrow> list_all (\<lambda>f. length f \<le> field_limit) row \<Longrightarrow>
   stream_rows script_dialect \<lparr>rstate = START_FIELD, rfields = fs, rfield = []\<rparr>
     (ins_eol (fmt_row script_dialect row @ [LF]) @ rest) =
   map_sum id (Cons (fs @ row)) (stream_rows script_dialect reader_init rest)"
proof (induction row arbitrary: fs)
  case (Cons f row')
  show ?case
  proof (cases row')
    case Nil
    show ?thesis
    proof (cases "f = []")
      case True
      then show ?thesis using Nil quoted_field_read [of "[]" fs "[Ch LF, EOL] @ rest"]
        by (simp del: stream_rows.simps add: sep_end id_def)
    next
      case False
      from Cons.prems obtain st where "st \<in> {START_FIELD, IN_FIELD, QUOTE_IN_QUOTED_FIELD}"
        and "stream_rows script_dialect \<lparr>rstate = START_FIELD, rfields = fs, rfield = []\<rparr>
               (ins_eol (fmt_field script_dialect f) @ [Ch LF, EOL] @ rest) =
             stream_rows script_dialect \<lparr>rstate = st, rfields = fs, rfield = f\<rparr> ([Ch LF, EOL] @ rest)"
        using field_read [of f fs "[Ch LF, EOL] @ rest"] by auto
      then show ?thesis using Nil False by (simp del: stream_rows.simps add: sep_end id_def)
    qed
  next
    case (Cons g gs)
    have lf: "length f \<le> field_limit" using Cons.prems by simp
    obtain st where st: "st \<in> {START_FIELD, IN_FIELD, QUOTE_IN_QUOTED_FIELD}"
      and "stream_rows script_dialect \<lparr>rstate = START_FIELD, rfields = fs, rfield = []\<rparr>
             (ins_eol (fmt_field script_dialect f) @ Ch CHR '','' # ins_eol (fmt_row script_dialect row' @ [LF]) @ rest) =
           stream_rows script_dialect \<lparr>rstate = st, rfields = fs, rfield = f\<rparr>
             (Ch CHR '','' # ins_eol (fmt_row script_dialect row' @ [LF]) @ rest)"
      using field_read [OF lf, of fs "Ch CHR '','' # ins_eol (fmt_row script_dialect row' @ [LF]) @ rest"]
      by blast
    then show ?thesis using Cons Cons.prems Cons.IH [of "fs @ [f]"] sep_delim [OF st]
      by (simp del: stream_rows.simps add: id_def)
  qed
qed simp

lemma row_read_init:
  "list_all (\<lambda>f. length f \<le> field_limit) row \<Longrightarrow>
   stream_rows script_dialect reader_init (ins_eol (fmt_row script_dialect row @ [LF]) @ rest) =
   map_sum id (Cons row) (stream_rows script_dialect reader_init rest)"
proof (cases "row = []")
  case True
  then show ?thesis by (simp add: csv_step_defs reader_init_def)
next
  case False
  assume lim: "list_all (\<lambda>f. length f \<le> field_limit) row"
  from fmt_row_hd [OF False] obtain c s where cs: "fmt_row script_dialect row = c # s"
    and c: "c \<noteq> LF" "c \<noteq> CR" by blast
  have "stream_rows script_dialect reader_init (ins_eol (fmt_row script_dialect row @ [LF]) @ rest) =
        stream_rows script_dialect \<lparr>rstate = START_FIELD, rfields = [], rfield = []\<rparr>
          (ins_eol (fmt_row script_dialect row @ [LF]) @ rest)"
    using cs c start_record_Ch [OF c, of script_dialect "[]" "[]"] by (simp add: reader_init_def)
  then show ?thesis using row_read [OF False lim, of "[]"] by simp
qed

lemma rows_read:
  "list_all (list_all (\<lambda>f. length f \<le> field_limit)) rows \<Longrightarrow>
   stream_rows script_dialect reader_init
     (ins_eol (concat (map (\<lambda>row. fmt_row script_dialect row @ [LF]) rows))) = Inr rows"
proof (induction rows)
  case Nil
  then show ?case by (simp add: reader_init_def)
next
  case (Cons row rows)
  then show ?case using row_read_init [of row "ins_eol (concat (map (\<lambda>row. fmt_row script_dialect row @ [LF]) rows))"]
    by (simp del: stream_rows.simps)
qed

subsection \<open>The written text after universal newlines\<close>

lemma set_quote_chars [simp]: "set (quote_chars d f) = set f"
  by (induction f) auto

lemma fmt_row_CR:
  "CR \<notin> set (concat row) \<Longrightarrow> CR \<notin> set (fmt_row script_dialect row)"
  by (induction script_dialect row rule: fmt_row.induct)
    (auto simp: fmt_field_def quoted_field_def)

lemma univ_newlines_write:
  "CR \<notin> set (concat (concat rows)) \<Longrightarrow>
   univ_newlines (csv_write_rows rows) = concat (map (\<lambda>row. fmt_row script_dialect row @ [LF]) rows)"
proof (induction rows)
  case (Cons row rows)
  have "CR \<notin> set (fmt_row script_dialect row)" using Cons.prems by (intro fmt_row_CR) simp
  then have "univ_newlines (fmt_row script_dialect row @ [CR, LF]) = fmt_row script_dialect row @ [LF]"
    by (rule univ_newlines_CRLF)
  moreover have "univ_newlines ((fmt_row script_dialect row @ [CR, LF]) @ csv_write_rows rows) =
      univ_newlines (fmt_row script_dialect row @ [CR, LF]) @ univ_newlines (csv_write_rows rows)"
    by (rule univ_newlines_append) simp
  ultimately show ?case using Cons by (simp add: csv_write_rows_def)
qed (simp add: csv_write_rows_def)

lemma last_rows_text:
  "rows = [] \<or> last (concat (map (\<lambda>row. fmt_row script_dialect row @ [LF]) rows)) = LF"
  by (induction rows) auto

subsection \<open>Round trip\<close>

lemma read_write_rows:
  assumes "fs p = Some (csv_write_rows rows)"
    and "CR \<notin> set (concat (concat rows))"
    and "list_all (list_all (\<lambda>f. length f \<le> field_limit)) rows"
  shows "read_csv_file fs p = Inr rows"
proof -
  let ?t = "concat (map (\<lambda>row. fmt_row script_dialect row @ [LF]) rows)"
  have "?t = [] \<or> last ?t = LF" using last_rows_text [of rows] by auto
  then have "concat (map line_inputs (text_lines ?t)) = ins_eol ?t" by (rule line_inputs_text_lines)
  then show ?thesis
    using rows_read [OF assms(3)] univ_newlines_write [OF assms(2)] assms(1)
    by (simp add: read_csv_file_def open_lines_def csv_read_lines_def reader_rows_stream)
qed

text \<open>C3: every log in the documented format is read back by the script into the rows it
  was written from, as long as no field holds a carriage return and none is longer than
  the field size limit: quoting, doubled quotes, delimiters and line ends inside quoted
  fields, empty fields, empty rows and the row of one empty field all survive.\<close>

theorem read_csv_file_roundtrip:
  assumes "CR \<notin> set (concat (concat rows))"
    and "list_all (list_all (\<lambda>f. length f \<le> field_limit)) rows"
  shows "read_csv_file [p \<mapsto> csv_write_rows rows] p = Inr rows"
  using assms by (intro read_write_rows) simp_all

theorem read_csv_file_roundtrip_witness:
  "read_csv_file [''logs.csv'' \<mapsto> csv_write_rows [[''step'', ''a,'' @ [CHR 0x22, LF] @ ''b''], [], [[]]]] ''logs.csv''
     = Inr [[''step'', ''a,'' @ [CHR 0x22, LF] @ ''b''], [], [[]]]"
  by (rule read_csv_file_roundtrip) (simp_all add: field_limit_def)

end
