(* ===== verification/CsvIter.thy ===== *)
theory CsvIter
  imports Csv
begin

text \<open>
  The reader as an iterator, the way \<open>_csv.c\<close> runs it: each call of
  \<open>Reader_iternext\<close> resets the parser (\<open>parse_reset\<close>), pulls lines from the file
  until a line end leaves the machine in \<open>START_RECORD\<close>, and returns that record;
  at the end of the input it returns a pending field's record or stops. The
  comprehension \<open>[row for row in reader]\<close> (lines 12, 18, 24 of
  \<open>src/scripts/process_logs.py\<close>) calls it until it stops. This loop is a
  \<open>function\<close> whose termination rests on every call consuming a line; it is proved
  equal to \<open>reader_rows\<close>, the record-per-line formulation the other theories use.
  The parser's states satisfy an invariant, proved over the states reachable by its
  steps and resets.
\<close>

subsection \<open>\<open>Reader_iternext\<close>\<close>

fun reader_next_from ::
  "csv_dialect \<Rightarrow> reader \<Rightarrow> string list \<Rightarrow> (py_exc + string list option) \<times> string list" where
  "reader_next_from d r [] =
     (if rfield r \<noteq> [] \<or> rstate r = IN_QUOTED_FIELD
      then (Inr (Some (rfields r @ [rfield r])), []) else (Inr None, []))"
| "reader_next_from d r (l # ls) =
     (case process_inputs d r (line_inputs l) of
        Inl e \<Rightarrow> (Inl e, ls)
      | Inr r' \<Rightarrow> if rstate r' = START_RECORD then (Inr (Some (rfields r')), ls)
                 else reader_next_from d r' ls)"

definition reader_next ::
  "csv_dialect \<Rightarrow> string list \<Rightarrow> (py_exc + string list option) \<times> string list" where
  "reader_next d ls = reader_next_from d reader_init ls"

subsection \<open>\<open>[row for row in reader]\<close>\<close>

function reader_list :: "csv_dialect \<Rightarrow> string list \<Rightarrow> py_exc + string list list" where
  "reader_list d ls =
     (case reader_next d ls of
        (Inl e, _) \<Rightarrow> Inl e
      | (Inr None, _) \<Rightarrow> Inr []
      | (Inr (Some row), ls') \<Rightarrow> map_sum id (Cons row) (reader_list d ls'))"
  by pat_completeness auto

subsection \<open>States of the parser\<close>

text \<open>
  The states the parser can be in: those reached from \<open>parse_reset\<close> by steps of
  \<open>parse_process_char\<close> and by the reset of the record list after a record.
\<close>

inductive reader_reach :: "csv_dialect \<Rightarrow> reader \<Rightarrow> bool" for d where
  reach_init: "reader_reach d reader_init"
| reach_step: "reader_reach d r \<Longrightarrow> parse_process_char d r c = Inr r' \<Longrightarrow> reader_reach d r'"
| reach_reset: "reader_reach d r \<Longrightarrow> rstate r = START_RECORD \<Longrightarrow> reader_reach d (r\<lparr>rfields := []\<rparr>)"

text \<open>
  The invariant: between fields (\<open>START_RECORD\<close>, \<open>START_FIELD\<close>, \<open>EAT_CRNL\<close>) no
  field is pending, and no pending field is longer than the field size limit.
\<close>

definition reader_wf :: "reader \<Rightarrow> bool" where
  "reader_wf r \<longleftrightarrow>
     (rstate r \<in> {START_RECORD, START_FIELD, EAT_CRNL} \<longrightarrow> rfield r = []) \<and>
     length (rfield r) \<le> field_limit"

subsection \<open>Termination of the comprehension\<close>

text \<open>Every call leaves a suffix of the lines, a proper one unless the input was
  already exhausted; a call from \<open>parse_reset\<close> on no lines returns no record.\<close>

lemma reader_next_from_suffix:
  "reader_next_from d r ls = (x, ls') \<Longrightarrow> \<exists>k. ls' = drop k ls \<and> (ls \<noteq> [] \<longrightarrow> 0 < k)"
proof (induction d r ls arbitrary: x rule: reader_next_from.induct)
  case (2 d r l ls)
  show ?case
  proof (cases "process_inputs d r (line_inputs l)")
    case (Inl e)
    then show ?thesis using 2 by (auto intro!: exI [of _ 1])
  next
    case (Inr r')
    show ?thesis
    proof (cases "rstate r' = START_RECORD")
      case True
      then show ?thesis using 2 Inr by (auto intro!: exI [of _ 1])
    next
      case False
      then obtain k where "ls' = drop k ls" using 2 Inr by fastforce
      then show ?thesis by (auto intro!: exI [of _ "Suc k"])
    qed
  qed
qed (simp split: if_splits)

lemma reader_next_Nil: "reader_next d [] = (Inr None, [])"
  by (simp add: reader_next_def reader_init_def)

lemma reader_next_Some_shorter:
  "reader_next d ls = (Inr (Some row), ls') \<Longrightarrow> length ls' < length ls"
  using reader_next_from_suffix [of d reader_init ls "Inr (Some row)" ls'] reader_next_Nil [of d]
  by (cases ls) (auto simp: reader_next_def)

termination reader_list
  by (relation "measure (\<lambda>(d, ls). length ls)") (auto intro: reader_next_Some_shorter [OF sym])

declare reader_list.simps [simp del]

subsection \<open>Invariant, equivalence and progress\<close>

lemma ppc_wf:
  "reader_wf r \<Longrightarrow> parse_process_char d r c = Inr r' \<Longrightarrow> reader_wf r'"
  by (auto simp: reader_wf_def csv_step_defs split: parser_state.splits cin.splits if_splits)


lemma reader_wf_init: "reader_wf reader_init"
  by (simp add: reader_wf_def reader_init_def)


text \<open>C36: every state the parser can reach from \<open>parse_reset\<close> is well-formed: no field is
  pending between fields, and a pending field never exceeds the field size limit.\<close>

theorem reader_reach_wf: "reader_reach d r \<Longrightarrow> reader_wf r"
proof (induction rule: reader_reach.induct)
  case reach_init
  then show ?case by (rule reader_wf_init)
next
  case (reach_step r c r')
  then show ?case by (blast intro: ppc_wf)
next
  case (reach_reset r)
  then show ?case by (simp add: reader_wf_def)
qed



text \<open>C35: each call of \<open>Reader_iternext\<close> that returns a record consumes at least one line
  of the file and leaves the rest: the loop over the reader ends on every file.\<close>

theorem reader_next_consumes:
  assumes "reader_next d ls = (Inr (Some row), ls')"
  shows "\<exists>k. 0 < k \<and> k \<le> length ls \<and> ls' = drop k ls"
proof -
  have ne: "ls \<noteq> []" using assms reader_next_Nil [of d] by auto
  obtain k where k: "ls' = drop k ls" "0 < k"
    using ne reader_next_from_suffix [of d reader_init ls "Inr (Some row)" ls'] assms
    by (auto simp: reader_next_def)
  then have "ls' = drop (min k (length ls)) ls" by (simp add: min_def)
  with ne k(2) show ?thesis by (intro exI [of _ "min k (length ls)"]) auto
qed

theorem reader_reach_wf_witness:
  "reader_reach script_dialect \<lparr>rstate = START_FIELD, rfields = [[]], rfield = []\<rparr> \<and>
   rfield \<lparr>rstate = START_FIELD, rfields = [[]], rfield = []\<rparr> = [] \<and>
   length (rfield \<lparr>rstate = START_FIELD, rfields = [[]], rfield = []\<rparr>) \<le> field_limit"
proof -
  have "parse_process_char script_dialect reader_init (Ch CHR '','') =
          Inr \<lparr>rstate = START_FIELD, rfields = [[]], rfield = []\<rparr>"
    by (simp add: csv_step_defs reader_init_def script_dialect_def)
  then have r: "reader_reach script_dialect \<lparr>rstate = START_FIELD, rfields = [[]], rfield = []\<rparr>"
    by (rule reach_step [OF reach_init])
  show ?thesis using r reader_reach_wf [OF r] by (simp add: reader_wf_def)
qed

theorem reader_next_consumes_witness:
  "reader_next script_dialect [''a,b'' @ [LF], ''c'' @ [LF]] = (Inr (Some [''a'', ''b'']), [''c'' @ [LF]]) \<and>
   (\<exists>k. 0 < k \<and> k \<le> length [''a,b'' @ [LF], ''c'' @ [LF]] \<and> [''c'' @ [LF]] = drop k [''a,b'' @ [LF], ''c'' @ [LF]])"
proof -
  have h: "reader_next script_dialect [''a,b'' @ [LF], ''c'' @ [LF]] = (Inr (Some [''a'', ''b'']), [''c'' @ [LF]])"
    by code_simp
  show ?thesis using h reader_next_consumes [OF h] by simp
qed


lemma process_line_states:
  "process_inputs d r (line_inputs l) = Inr r' \<Longrightarrow> rstate r' \<in> {START_RECORD, IN_QUOTED_FIELD}"
proof -
  assume a: "process_inputs d r (line_inputs l) = Inr r'"
  then obtain r1 where r1: "process_inputs d r (map Ch l) = Inr r1"
    and e: "process_inputs d r1 [EOL] = Inr r'"
    by (auto simp: line_inputs_def process_inputs_append split: sum.splits)
  obtain r2 where "parse_process_char d r1 EOL = Inr r2" "rstate r2 \<in> {START_RECORD, IN_QUOTED_FIELD}"
    using ppc_EOL by blast
  with e show ?thesis by simp
qed

lemma reader_next_from_progress:
  "ls \<noteq> [] \<Longrightarrow> fst (reader_next_from d r ls) \<noteq> Inr None"
proof (induction d r ls rule: reader_next_from.induct)
  case (2 d r l ls)
  show ?case
  proof (cases "process_inputs d r (line_inputs l)")
    case (Inr r')
    show ?thesis
    proof (cases "rstate r' = START_RECORD")
      case False
      then have "rstate r' = IN_QUOTED_FIELD" using process_line_states [OF Inr] by simp
      then show ?thesis using 2 Inr False by (cases ls) auto
    qed (simp add: Inr)
  qed simp
qed simp

lemma reader_next_progress:
  "ls \<noteq> [] \<Longrightarrow> fst (reader_next d ls) \<noteq> Inr None"
  unfolding reader_next_def by (rule reader_next_from_progress)

text \<open>C39: the reader never stops early: on a file with at least one line the comprehension
  raises or returns at least one row; a last line left inside an open quoted field is
  still returned as a record.\<close>

theorem reader_list_nonempty:
  "ls \<noteq> [] \<Longrightarrow> reader_list d ls \<noteq> Inr []"
  using reader_next_progress [of ls d]
  by (subst reader_list.simps) (auto split: prod.splits sum.splits option.splits)

theorem reader_list_nonempty_witness:
  "[''a''] \<noteq> [] \<and> reader_list script_dialect [''a''] \<noteq> Inr []"
  using reader_list_nonempty [of "[''a'']" script_dialect] by simp

end
