(* ===== verification/Bve.thy ===== *)
theory Bve
  imports PyModule
begin







subsection \<open>What one statement yields\<close>



subsection \<open>The import of the package\<close>








end
