(* ===== verification/Spec2Isabelle.thy ===== *)
theory Spec2Isabelle
  imports LogScript DqnScript CsvFormat CsvIter Bve
begin

text \<open>
  \<^bold>\<open>A verification development of the acme_dev scripts.\<close>

  The repository holds two independent programs and a package stub:
  \<^item> \<open>src/scripts/process_logs.py\<close> reads three CSV logs of an Acme run
    (\<open>actor\<close>, \<open>evaluator\<close>, \<open>learner\<close>), prints the last learner row, converts
    column 1 (\<open>int\<close>) and column 6 (\<open>float\<close>) of every evaluator row after the first,
    and plots the two lists;
  \<^item> \<open>src/examples/baselines/rl_discrete/run_dqn_custom.py\<close> declares four flags,
    builds a DQN experiment config (with a \<open>defaultdict\<close> registry of in-memory
    loggers that it never passes on) and either launches it distributed or runs it
    in process, then tries to plot the evaluator logger's data;
  \<^item> \<open>src/acme/agents/jax/bve/__init__.py\<close> re-exports four names from submodules
    that are not in the repository; its behaviour is Python's import of them.

  \<^bold>\<open>Theories.\<close>
  \<^item> \<open>Prelude\<close>: the Python exceptions (\<open>py_exc\<close>), a state-and-exception monad
    \<open>('a, 's) pyst\<close> for statement sequences (\<open>returnE\<close>, \<open>raiseE\<close>, \<open>liftE\<close>,
    \<open>bindE\<close>, \<open>modifyE\<close>), Python indexing \<open>py_index\<close> (negative indices, \<open>IndexError\<close>),
    \<open>py_bind\<close>, and list comprehensions whose element expression may raise
    (\<open>py_map\<close>, left to right, first exception wins), with their laws.
  \<^item> \<open>PyModule\<close>: Python's import system over a table of the libraries, which are
    not in the repository (each dotted name missing, raising, or its namespace):
    \<open>import_module\<close> loads the parent packages first, \<open>import_binding\<close> gives the name
    and object of \<open>import m\<close>, \<open>import m as x\<close> and \<open>from m import n\<close> (with the
    submodule fallback of \<open>_handle_fromlist\<close>, \<open>ModuleNotFoundError\<close>,
    \<open>ImportError\<close>), and \<open>exec_imports\<close> runs a sequence of them into a namespace.
  \<^item> \<open>PyText\<close>: \<open>open(path)\<close> in text mode with the default \<open>newline=None\<close>:
    universal newlines (\<open>univ_newlines\<close>: \<open>\r\n\<close> and lone \<open>\r\<close> become \<open>\n\<close>) and
    line iteration (\<open>text_lines\<close>); a file system is a map from paths to texts and a
    missing path raises \<open>FileNotFoundError\<close> (\<open>open_lines\<close>).
  \<^item> \<open>Csv\<close>: \<open>csv.reader(fp, delimiter=",", quotechar='"')\<close> as the state machine of
    CPython 3.11's \<open>_csv.c\<close>: \<open>parse_process_char\<close> (one case per parser state),
    \<open>parse_add_char\<close> with the field size limit \<open>field_limit\<close> = 131072,
    \<open>parse_save_field\<close>, the per-line loop \<open>process_inputs\<close> ending with the end-of-line
    marker, \<open>reader_rows\<close> for \<open>[row for row in reader]\<close>, and \<open>read_csv_file\<close>
    for lines 9--12 (15--18, 21--24) of \<open>process_logs.py\<close>.
  \<^item> \<open>CsvIter\<close>: the reader as the iterator \<open>Reader_iternext\<close> is (one record per
    call, after \<open>parse_reset\<close>; \<open>reader_next_from\<close>, \<open>reader_next\<close>) and the
    comprehension over it as the loop \<open>reader_list\<close>, a \<open>function\<close> whose termination
    rests on each call consuming a line; the parser states reachable by steps and
    resets (\<open>reader_reach\<close>, an inductive relation) and their invariant \<open>reader_wf\<close>.
  \<^item> \<open>CsvFormat\<close>: the log format as the framework's \<open>excel\<close>-dialect writer
    produces it (\<open>fmt_field\<close>, \<open>fmt_row\<close>, \<open>csv_write_rows\<close>, modelled from the
    spec and the \<open>csv\<close> module, since that code is not in the repository), and the
    reader restated on its input stream (\<open>stream_rows\<close>, \<open>ins_eol\<close>).
  \<^item> \<open>PyNum\<close>: \<open>int(s)\<close> in base 10 (white space, sign, single underscores between
    digits, the 4300-digit limit of \<open>sys.int_info\<close>) and \<open>float(s)\<close> (underscore rules,
    the decimal prefix \<open>_Py_dg_strtod\<close> accepts, \<open>inf\<close>/\<open>infinity\<close>/\<open>nan\<close>), and
    \<open>str\<close> of an int. The value of the digits is computed as
    \<open>long_from_non_binary_base\<close> does, nine digits at a time (\<open>long_from_digits\<close>).
    The exact value of a literal (with its exponent) is then rounded to binary64.
  \<^item> \<open>Binary64\<close>: that rounding, as \<open>_Py_dg_strtod\<close> does it: \<open>float\<close> values
    (\<open>py_float\<close>: finite rationals, signed infinities, NaN), the quantum
    \<open>b64_quantum\<close> of a magnitude (53 significant bits, subnormals below
    \<open>2^-1022\<close>), round to nearest with ties to even (\<open>round_even\<close>), overflow to
    \<open>inf\<close> (\<open>round_b64\<close>), and the set of finite binary64 numbers \<open>is_binary64\<close>.
    \<open>pow2\<close> keeps powers of two folded so that no proof unfolds \<open>2^1024\<close>, and a
    code equation for \<open>round_b64\<close> tests the overflow on the exponent.
  \<^item> \<open>ProcessLogs\<close>: the main block of \<open>process_logs.py\<close> (lines 7--30) as
    \<open>process_logs\<close>, a statement sequence over a \<open>world\<close> of files, printed objects and
    plotted series; \<open>plt_plot\<close> raises the shape error of \<open>matplotlib\<close> when the series
    differ in length. \<open>process_logs_eq\<close> unfolds it to one case per raising statement.
  \<^item> \<open>LogScript\<close>: \<open>process_logs.py\<close> as a module, \<open>process_logs_module\<close>: its
    imports (lines 1--2, \<open>log_imports\<close>) and the \<open>__main__\<close> guard of line 5.
  \<^item> \<open>Loggers\<close>: \<open>logger_dict = defaultdict(InMemoryLogger)\<close> and
    \<open>logger_factory\<close> (lines 48--56 of \<open>run_dqn_custom.py\<close>): an insertion-ordered
    association list from names to heap addresses, a heap of data lists,
    \<open>dd_getitem\<close> for \<open>__getitem__\<close>/\<open>__missing__\<close>, \<open>logger_write\<close> for
    \<open>InMemoryLogger.write\<close>; the invariant \<open>registry_wf\<close> and the abstraction
    \<open>abs_reg\<close> to a map from names to the values written under them.
  \<^item> \<open>DqnExperiment\<close>: the flags (\<open>flags\<close>, \<open>flag_defaults\<close>), the config records
    and \<open>build_experiment_config\<close> (lines 38--81), and \<open>main\<close> (lines 84--100) as the
    trace of its calls into the framework; the answer of \<open>is_local_run()\<close> and how
    the blocking call ends (\<open>ext_outcome\<close>: returns, raises, never returns) are
    parameters, so every behaviour of the external launcher is covered; \<open>main\<close> reads
    \<open>pd\<close>, \<open>logger_dict\<close> and \<open>plt\<close> from its module's globals (\<open>main_tail\<close>);
    \<open>run_script\<close> is \<open>app.run(main)\<close> (line 104) with its exit status.
  \<^item> \<open>DqnScript\<close>: the module \<open>run_dqn_custom.py\<close> as Python runs it
    (\<open>dqn_module_body\<close>: docstring, the eleven imports \<open>dqn_imports\<close>, line 28, the
    flag definitions \<open>dqn_flag_defs\<close> of lines 29--35, the \<open>def\<close> statements) over a
    \<open>module_state\<close> of globals and \<open>absl\<close>'s flag registry, where
    \<open>define_flag\<close>/\<open>register_flag\<close> model \<open>flags.DEFINE_*\<close> with its
    \<open>DuplicateFlagError\<close>; \<open>dqn_script\<close> is the whole script: the module body, the
    guard of line 103 and \<open>app.run(main)\<close> with the module's globals.
  \<^item> \<open>Bve\<close>: the package \<open>__init__\<close> (lines 15--20) as four \<open>from_import\<close>
    statements run in order against a table of the submodules (missing, raising, or
    their namespace); importing a submodule also binds it on the package.

  \<^bold>\<open>What is proved.\<close>
  \<^item> The log script (\<open>ProcessLogs\<close>): the result of every completed run (one point
    per evaluator row after the header, the last learner row printed); the spec's
    end-to-end example, which the code does not meet without a header row; failure
    on a bad cell after the print and with nothing plotted; an evaluator log with only
    a header plots two empty series; the plot's shape error is unreachable; every
    exception leaves files and plot untouched; a missing actor log and an empty
    learner log raise first.
  \<^item> Reading (\<open>Csv\<close>): only \<open>FileNotFoundError\<close> and the field-limit error can be
    raised (the reader's newline error is unreachable behind universal newlines), and
    a file of at most \<open>field_limit\<close> characters is always read; no field read holds a
    carriage return, and a quoted \<open>\r\n\<close> comes back as \<open>\n\<close> (\<open>open()\<close> lacks
    \<open>newline=''\<close>).
  \<^item> The iterator (\<open>CsvIter\<close>): \<open>[row for row in reader]\<close> equals the
    record-per-line model; each call of \<open>Reader_iternext\<close> that returns a record
    consumes a line (so the loop ends), and a file with a line yields a row or an
    error; every reachable parser state is well-formed.
  \<^item> The format (\<open>CsvFormat\<close>): every log written in the documented format with
    fields free of carriage returns and within the field limit is read back into its
    rows.
  \<^item> Conversions (\<open>PyNum\<close>): \<open>int(str(n))\<close> round trip with surrounding white space,
    the digit and magnitude bounds of \<open>int()\<close>, the value \<open>float()\<close> gives a decimal
    literal, that a finite float needs a digit and is a binary64 number, that
    literals out of range give \<open>inf\<close> or \<open>0.0\<close> with no error, and that the
    chunked digit loop computes the positional value.
  \<^item> Rounding (\<open>Binary64\<close>): \<open>round_b64\<close> refines IEEE 754 round-to-nearest: a
    finite result is a binary64 number and none is closer to the exact value; values
    at or above \<open>2^1024\<close> overflow, positive values at or below \<open>2^-1075\<close> give 0,
    and binary64 numbers are returned unchanged.
  \<^item> The registry (\<open>Loggers\<close>): refinement of the abstract map of written values by
    every sequence of lookups and writes, the data of a name's logger after any such
    sequence, aliasing of lookups of one name, distinct objects for distinct names.
  \<^item> The experiment (\<open>DqnExperiment\<close>): the config depends on exactly the flags it
    reads, its environment factory ignores the seed, its hyperparameters meet the
    spec's data model; \<open>main\<close> makes exactly one blocking call (128 actors either
    way).
  \<^item> The module (\<open>DqnScript\<close>): loading it raises the first failing import's exception,
    else \<open>DuplicateFlagError\<close> for the first flag another module defined, else
    completes with exactly twenty globals and the four flags registered with the
    defaults \<open>flag_defaults\<close>; \<open>pd\<close> is never bound, so once the blocking call
    returns \<open>main\<close> raises \<open>NameError\<close> for it; run as a script it never exits with
    status 0, whatever the libraries and the command line; with nothing set on the
    command line it launches the distributed BeamRider experiment of the defaults it
    registered.
  \<^item> The log script as a module (\<open>LogScript\<close>): its imports run before any log is
    read, and imported under another name it does nothing more.
  \<^item> The package (\<open>Bve\<close>): its import raises the exception of the first failing
    statement or yields a namespace of exactly nine names.

  \<^item> Across components (this theory): logs written in the documented format, with
    \<open>str(n)\<close> and float literals in columns 1 and 6, are plotted exactly as written.

  \<^bold>\<open>Bounds.\<close> There is no fuel: every loop of the scripts runs over a finite list;
  the two that are not structural (\<open>reader_list\<close>, \<open>long_from_digits\<close>) have
  termination proofs by the number of lines and of digits left. The two constants are CPython's: the field size limit
  131072 (\<open>_csv.field_size_limit()\<close>) and the 4300-digit limit of \<open>int()\<close>.

  \<^bold>\<open>Not modelled.\<close> \<open>absl\<close>'s parsing of the command line: the package is not
  in the repository and no source of it is available, so it cannot be translated
  faithfully; its result, the record \<open>flags\<close> or a parse error, is the input of
  \<open>run_script\<close>, and the flags the command line does not set keep the registered
  defaults; what the imported libraries
  do when they load (a parameter: the module table, and the flag registry they leave);
  once \<open>pd\<close>, \<open>logger_dict\<close> and \<open>plt\<close> are bound, the \<open>pandas\<close> and
  \<open>matplotlib\<close> calls of lines 94--100, taken to return (no module of the repository
  binds them, so this case does not arise); the acme agent, networks, environment, launchpad and
  \<open>run_experiment\<close> (their calls are events, their outcomes parameters);
  \<open>matplotlib\<close> rendering and \<open>print\<close> formatting (recorded as the series and the
  object); the sign of a zero float (\<open>-0.0\<close> is read as \<open>0.0\<close>); the code of the BVE
  submodules (a parameter of \<open>bve_init\<close>); the licence comments.
\<close>

subsection \<open>The log format and the log script together\<close>

text \<open>C5: end to end, the log format and the script agree: when the three logs are written
  in the documented format (fields free of carriage returns and within the field limit),
  the learner log is not empty, and every evaluator row after the header holds in
  column 1 the text \<open>str(n)\<close> of an int \<open>n\<close> of at most 4300 digits and in column 6 a
  text \<open>float()\<close> reads as \<open>v\<close>, the script completes, prints the last learner row
  and \<open>yo\<close>, and plots exactly the written steps against the written returns.\<close>

theorem process_logs_written_logs:
  assumes "files w actor_log = Some (csv_write_rows arows)"
    and "files w evaluator_log = Some (csv_write_rows (header # rows))"
    and "files w learner_log = Some (csv_write_rows lrows)" and "lrows \<noteq> []"
    and "\<forall>t \<in> {arows, header # rows, lrows}.
           CR \<notin> set (concat (concat t)) \<and> list_all (list_all (\<lambda>f. length f \<le> field_limit)) t"
    and "list_all2 (\<lambda>row n. 6 < length row \<and> row ! 1 = py_str_int n \<and>
                            length (digits_of (nat \<bar>n\<bar>)) \<le> int_max_str_digits) rows ns"
    and "list_all2 (\<lambda>row v. 6 < length row \<and> py_float (row ! 6) = Inr v) rows vs"
  shows "process_logs w = (Inr (), w\<lparr>stdout := stdout w @ [OutRow (last lrows), OutStr ''yo''],
                                    plot_lines := plot_lines w @ [(ns, vs)]\<rparr>)"
proof -
  have ra: "read_csv_file (files w) actor_log = Inr arows"
    using assms(5) by (intro read_write_rows [of "files w" actor_log arows, OF assms(1)]) simp_all
  have re: "read_csv_file (files w) evaluator_log = Inr (header # rows)"
    using assms(5) by (intro read_write_rows [of "files w" evaluator_log "header # rows", OF assms(2)]) simp_all
  have rl: "read_csv_file (files w) learner_log = Inr lrows"
    using assms(5) by (intro read_write_rows [of "files w" learner_log lrows, OF assms(3)]) simp_all
  have "list_all2 (\<lambda>row n. step_cell row = Inr n) rows ns"
    using assms(6) by (rule list_all2_mono)
      (auto simp: step_cell_def intro: py_int_of_str [of _ "[]" "[]", simplified])
  then have xs: "py_map step_cell rows = Inr ns" by (simp add: py_map_Inr_iff)
  have "list_all2 (\<lambda>row v. return_cell row = Inr v) rows vs"
    using assms(7) by (rule list_all2_mono) (simp add: return_cell_def)
  then have ys: "py_map return_cell rows = Inr vs" by (simp add: py_map_Inr_iff)
  show ?thesis using ra re rl xs ys assms(4) by (simp add: process_logs_eq py_index_last)
qed

theorem process_logs_written_logs_witness:
  "process_logs \<lparr>files = [actor_log \<mapsto> csv_write_rows [[''t'']],
        evaluator_log \<mapsto> csv_write_rows [[''h0'', ''step'', ''a'', ''b'', ''c'', ''d'', ''ret''],
                                          [''h1'', ''7'', ''-'', ''-'', ''-'', ''-'', ''2.5'']],
        learner_log \<mapsto> csv_write_rows [[''x'']]], stdout = [], plot_lines = []\<rparr> =
   (Inr (), \<lparr>files = [actor_log \<mapsto> csv_write_rows [[''t'']],
        evaluator_log \<mapsto> csv_write_rows [[''h0'', ''step'', ''a'', ''b'', ''c'', ''d'', ''ret''],
                                          [''h1'', ''7'', ''-'', ''-'', ''-'', ''-'', ''2.5'']],
        learner_log \<mapsto> csv_write_rows [[''x'']]],
        stdout = [OutRow [''x''], OutStr ''yo''], plot_lines = [([7], [PFin (5 / 2)])]\<rparr>)"
proof -
  let ?w = "\<lparr>files = [actor_log \<mapsto> csv_write_rows [[''t'']],
        evaluator_log \<mapsto> csv_write_rows [[''h0'', ''step'', ''a'', ''b'', ''c'', ''d'', ''ret''],
                                          [''h1'', ''7'', ''-'', ''-'', ''-'', ''-'', ''2.5'']],
        learner_log \<mapsto> csv_write_rows [[''x'']]], stdout = [], plot_lines = []\<rparr>"
  have d: "actor_log \<noteq> evaluator_log" "actor_log \<noteq> learner_log" "evaluator_log \<noteq> learner_log"
    by (simp_all add: actor_log_def evaluator_log_def learner_log_def)
  have h1: "files ?w actor_log = Some (csv_write_rows [[''t'']])" using d by simp
  have h2: "files ?w evaluator_log = Some (csv_write_rows ([''h0'', ''step'', ''a'', ''b'', ''c'', ''d'', ''ret''] #
              [[''h1'', ''7'', ''-'', ''-'', ''-'', ''-'', ''2.5'']]))" using d by simp
  have h3: "files ?w learner_log = Some (csv_write_rows [[''x'']])" using d by simp
  have h5: "\<forall>t \<in> {[[''t'']], [''h0'', ''step'', ''a'', ''b'', ''c'', ''d'', ''ret''] #
              [[''h1'', ''7'', ''-'', ''-'', ''-'', ''-'', ''2.5'']], [[''x'']]}.
           CR \<notin> set (concat (concat t)) \<and> list_all (list_all (\<lambda>f. length f \<le> field_limit)) t"
    by (simp add: field_limit_def)
  have h6: "list_all2 (\<lambda>row n. 6 < length row \<and> row ! 1 = py_str_int n \<and>
              length (digits_of (nat \<bar>n\<bar>)) \<le> int_max_str_digits)
              [[''h1'', ''7'', ''-'', ''-'', ''-'', ''-'', ''2.5'']] [7]"
    by code_simp
  have h7: "list_all2 (\<lambda>row v. 6 < length row \<and> py_float (row ! 6) = Inr v)
              [[''h1'', ''7'', ''-'', ''-'', ''-'', ''-'', ''2.5'']] [PFin (5 / 2)]"
    by code_simp
  show ?thesis using process_logs_written_logs [OF h1 h2 h3 _ h5 h6 h7] by simp
qed

end
